theory Spec2Isabelle
  imports Main
begin

section \<open>The edge store\<close>

text \<open>
  The friend engine of \<^verbatim>\<open>server/core_friend.go\<close> works on two SQL tables, \<^verbatim>\<open>users\<close>
  and \<^verbatim>\<open>user_edge\<close>. A table is the list of its rows. Of \<^verbatim>\<open>users\<close> only the columns
  the engine writes are kept (\<^verbatim>\<open>id\<close>, \<^verbatim>\<open>edge_count\<close>, \<^verbatim>\<open>update_time\<close>); the profile
  columns are read by \<^verbatim>\<open>GetFriends\<close> alone. Identifiers are opaque UUID values,
  timestamps and counters are SQL integers.
\<close>

type_synonym uuid = nat

record user_row =
  users_id :: uuid
  edge_count :: int
  users_update_time :: int

record edge_row =
  source_id :: uuid
  destination_id :: uuid
  state :: int
  position :: int
  update_time :: int

record db =
  users :: "user_row list"
  user_edge :: "edge_row list"

text \<open>The values of the \<^verbatim>\<open>state\<close> column, as the SQL text uses them.\<close>

abbreviation (input) Accepted :: int where "Accepted \<equiv> 0"
abbreviation (input) Invited :: int where "Invited \<equiv> 1"
abbreviation (input) OutgoingRequest :: int where "OutgoingRequest \<equiv> 2"
abbreviation (input) Blocked :: int where "Blocked \<equiv> 3"

text \<open>
  Errors of the engine: \<^verbatim>\<open>sql.ErrNoRows\<close>, the
  \<^verbatim>\<open>errors.New("unexpected number of edges were deleted")\<close> of \<^verbatim>\<open>deleteFriend\<close>, and
  whatever error the driver returns from \<^verbatim>\<open>tx.Exec\<close>.
\<close>

datatype error = ErrNoRows | ErrUnexpectedEdges | ErrStore

text \<open>
  A transaction holds the tables as the statements executed so far have left them.
  \<^verbatim>\<open>tx.Exec\<close> can fail: \<open>health\<close> is \<open>None\<close> for a store that answers every
  statement, and \<open>Some n\<close> for one that answers \<open>n\<close> more statements and fails every
  statement after them (a lost connection, a lock timeout; a transaction that has failed
  once stays failed).
\<close>

record tx =
  store :: db
  health :: "nat option"

type_synonym statement = "db \<Rightarrow> (nat \<times> db) option"

text \<open>
  A statement maps the tables to the number of rows affected and the tables afterwards,
  or to \<open>None\<close> when it violates a constraint.
  \<^verbatim>\<open>res, err := tx.Exec(...)\<close> gives the rows affected, the error, and the transaction
  after the statement. A statement that violates a constraint fails and leaves the
  transaction failed.
\<close>

definition Exec :: "statement \<Rightarrow> tx \<Rightarrow> nat \<times> error option \<times> tx" where
  "Exec stmt t =
     (if health t = Some 0 then (0, Some ErrStore, t)
      else (case stmt (store t) of
              None \<Rightarrow> (0, Some ErrStore, t\<lparr>health := Some 0\<rparr>)
            | Some (n, d) \<Rightarrow>
                (n, None, \<lparr>store = d, health = map_option (\<lambda>k. k - 1) (health t)\<rparr>)))"

subsection \<open>SQL statements\<close>

text \<open>
  \<^verbatim>\<open>DELETE FROM user_edge WHERE p\<close>, \<^verbatim>\<open>UPDATE user_edge SET f WHERE p\<close> and
  \<^verbatim>\<open>UPDATE users SET f WHERE p\<close>; the rows affected are the rows that satisfy \<open>p\<close>.
\<close>

definition delete_user_edge :: "(edge_row \<Rightarrow> bool) \<Rightarrow> statement" where
  "delete_user_edge p d =
     Some (length (filter p (user_edge d)),
          d\<lparr>user_edge := filter (\<lambda>r. \<not> p r) (user_edge d)\<rparr>)"

definition update_user_edge :: "(edge_row \<Rightarrow> bool) \<Rightarrow> (edge_row \<Rightarrow> edge_row) \<Rightarrow> statement" where
  "update_user_edge p f d =
     Some (length (filter p (user_edge d)),
          d\<lparr>user_edge := map (\<lambda>r. if p r then f r else r) (user_edge d)\<rparr>)"

definition update_users :: "(db \<Rightarrow> user_row \<Rightarrow> bool) \<Rightarrow> (user_row \<Rightarrow> user_row) \<Rightarrow> statement" where
  "update_users p f d =
     Some (length (filter (p d) (users d)),
          d\<lparr>users := map (\<lambda>r. if p d r then f r else r) (users d)\<rparr>)"

text \<open>
  The unique constraint on \<^verbatim>\<open>(source_id, destination_id)\<close>, which the conflict target
  of \<^verbatim>\<open>addFriend\<close>'s insert names.
\<close>

definition edge_key :: "edge_row \<Rightarrow> uuid \<times> uuid" where
  "edge_key r = (source_id r, destination_id r)"

definition conflicts :: "edge_row \<Rightarrow> edge_row list \<Rightarrow> bool" where
  "conflicts v rows = (\<exists>r \<in> set rows. edge_key r = edge_key v)"

text \<open>
  \<^verbatim>\<open>INSERT ... ON CONFLICT (source_id, destination_id) DO NOTHING\<close>: each proposed row is
  inserted unless a row with its key is already there; a row that conflicts is skipped
  and the others are still inserted.
\<close>

fun insert_do_nothing :: "edge_row list \<Rightarrow> edge_row list \<Rightarrow> nat \<times> edge_row list" where
  "insert_do_nothing [] rows = (0, rows)"
| "insert_do_nothing (v # vs) rows =
     (if conflicts v rows then insert_do_nothing vs rows
      else (let (n, rows') = insert_do_nothing vs (rows @ [v]) in (Suc n, rows')))"

text \<open>A plain \<^verbatim>\<open>INSERT\<close>: a row that conflicts makes the whole statement fail.\<close>

fun insert_plain :: "edge_row list \<Rightarrow> edge_row list \<Rightarrow> (nat \<times> edge_row list) option" where
  "insert_plain [] rows = Some (0, rows)"
| "insert_plain (v # vs) rows =
     (if conflicts v rows then None
      else (case insert_plain vs (rows @ [v]) of
              None \<Rightarrow> None
            | Some (n, rows') \<Rightarrow> Some (Suc n, rows')))"

text \<open>\<^verbatim>\<open>EXISTS (SELECT id FROM users WHERE id = $2::UUID)\<close>\<close>

definition user_exists :: "db \<Rightarrow> uuid \<Rightarrow> bool" where
  "user_exists d u = (\<exists>r \<in> set (users d). users_id r = u)"

subsection \<open>The statements of \<^verbatim>\<open>addFriend\<close>\<close>

text \<open>
  \<^verbatim>\<open>DELETE FROM user_edge WHERE source_id = $1 AND destination_id = $2 AND state = 3\<close>\<close>

definition q_unblock :: "uuid \<Rightarrow> uuid \<Rightarrow> statement" where
  "q_unblock userID friendID =
     delete_user_edge (\<lambda>r. source_id r = userID \<and> destination_id r = friendID \<and> state r = 3)"

text \<open>
  \<^verbatim>\<open>UPDATE users SET edge_count = edge_count - 1, update_time = $2 WHERE id = $1\<close>\<close>

definition q_count_down :: "uuid \<Rightarrow> int \<Rightarrow> statement" where
  "q_count_down userID timestamp =
     update_users (\<lambda>d r. users_id r = userID)
       (\<lambda>r. r\<lparr>edge_count := edge_count r - 1, users_update_time := timestamp\<rparr>)"

text \<open>
  \<^verbatim>\<open>UPDATE users SET edge_count = edge_count + 1, update_time = $2 WHERE id = $1\<close>\<close>

definition q_count_up :: "uuid \<Rightarrow> int \<Rightarrow> statement" where
  "q_count_up userID timestamp =
     update_users (\<lambda>d r. users_id r = userID)
       (\<lambda>r. r\<lparr>edge_count := edge_count r + 1, users_update_time := timestamp\<rparr>)"

text \<open>
  \<^verbatim>\<open>UPDATE user_edge SET state = 0, update_time = $3
  WHERE (source_id = $1 AND destination_id = $2 AND state = 2)
  OR (source_id = $2 AND destination_id = $1 AND state = 1)\<close>
  The parameters are given in the order of the call: \<^verbatim>\<open>friendID, userID, timestamp\<close>.
\<close>

definition q_accept :: "uuid \<Rightarrow> uuid \<Rightarrow> int \<Rightarrow> statement" where
  "q_accept p1 p2 p3 =
     update_user_edge
       (\<lambda>r. (source_id r = p1 \<and> destination_id r = p2 \<and> state r = 2)
          \<or> (source_id r = p2 \<and> destination_id r = p1 \<and> state r = 1))
       (\<lambda>r. r\<lparr>state := 0, update_time := p3\<rparr>)"

text \<open>
  \<^verbatim>\<open>INSERT INTO user_edge (source_id, destination_id, state, position, update_time)
  SELECT ... FROM (VALUES ($1, $2, 2, $3, $3), ($2, $1, 1, $3, $3)) AS ue(...)
  WHERE EXISTS (SELECT id FROM users WHERE id = $2::UUID)
  ON CONFLICT (source_id, destination_id) DO NOTHING\<close>
\<close>

definition q_invite :: "uuid \<Rightarrow> uuid \<Rightarrow> int \<Rightarrow> statement" where
  "q_invite p1 p2 p3 d =
     (let vals = (if user_exists d p2
                  then [\<lparr>source_id = p1, destination_id = p2, state = 2,
                          position = p3, update_time = p3\<rparr>,
                        \<lparr>source_id = p2, destination_id = p1, state = 1,
                          position = p3, update_time = p3\<rparr>]
                  else []);
          (n, rows) = insert_do_nothing vals (user_edge d)
      in Some (n, d\<lparr>user_edge := rows\<rparr>))"

text \<open>
  \<^verbatim>\<open>UPDATE users SET edge_count = edge_count +1, update_time = $3
  WHERE (id = $1::UUID OR id = $2::UUID)
  AND NOT EXISTS (SELECT state FROM user_edge WHERE
    (source_id = $1 AND destination_id = $2 AND position <> $3)
    OR (source_id = $2 AND destination_id = $1 AND position <> $3))\<close>
\<close>

definition q_count_pair :: "uuid \<Rightarrow> uuid \<Rightarrow> int \<Rightarrow> statement" where
  "q_count_pair p1 p2 p3 =
     update_users
       (\<lambda>d r. (users_id r = p1 \<or> users_id r = p2)
          \<and> \<not> (\<exists>e \<in> set (user_edge d).
                 (source_id e = p1 \<and> destination_id e = p2 \<and> position e \<noteq> p3)
               \<or> (source_id e = p2 \<and> destination_id e = p1 \<and> position e \<noteq> p3)))
       (\<lambda>r. r\<lparr>edge_count := edge_count r + 1, users_update_time := p3\<rparr>)"

subsection \<open>The statements of \<^verbatim>\<open>deleteFriend\<close> and \<^verbatim>\<open>blockFriend\<close>\<close>

text \<open>
  \<^verbatim>\<open>DELETE FROM user_edge WHERE (source_id = $1 AND destination_id = $2)
  OR (source_id = $2 AND destination_id = $1)\<close>\<close>

definition q_delete_pair :: "uuid \<Rightarrow> uuid \<Rightarrow> statement" where
  "q_delete_pair p1 p2 =
     delete_user_edge
       (\<lambda>r. (source_id r = p1 \<and> destination_id r = p2)
          \<or> (source_id r = p2 \<and> destination_id r = p1))"

text \<open>
  \<^verbatim>\<open>UPDATE users SET edge_count = edge_count - 1, update_time = $3 WHERE id IN ($1, $2)\<close>\<close>

definition q_count_down_pair :: "uuid \<Rightarrow> uuid \<Rightarrow> int \<Rightarrow> statement" where
  "q_count_down_pair p1 p2 p3 =
     update_users (\<lambda>d r. users_id r = p1 \<or> users_id r = p2)
       (\<lambda>r. r\<lparr>edge_count := edge_count r - 1, users_update_time := p3\<rparr>)"

text \<open>
  \<^verbatim>\<open>UPDATE user_edge SET state = 3, update_time = $3
  WHERE source_id = $1 AND destination_id = $2\<close>\<close>

definition q_block :: "uuid \<Rightarrow> uuid \<Rightarrow> int \<Rightarrow> statement" where
  "q_block p1 p2 p3 =
     update_user_edge (\<lambda>r. source_id r = p1 \<and> destination_id r = p2)
       (\<lambda>r. r\<lparr>state := 3, update_time := p3\<rparr>)"

text \<open>
  \<^verbatim>\<open>INSERT INTO user_edge (source_id, destination_id, state, position, update_time)
  SELECT ... FROM (VALUES ($1, $2, 3, $3, $3)) AS ue(...)
  WHERE EXISTS (SELECT id FROM users WHERE id = $2::UUID)\<close>
\<close>

definition q_insert_block :: "uuid \<Rightarrow> uuid \<Rightarrow> int \<Rightarrow> statement" where
  "q_insert_block p1 p2 p3 d =
     (let vals = (if user_exists d p2
                  then [\<lparr>source_id = p1, destination_id = p2, state = 3,
                          position = p3, update_time = p3\<rparr>]
                  else [])
      in case insert_plain vals (user_edge d) of
           None \<Rightarrow> None
         | Some (n, rows) \<Rightarrow> Some (n, d\<lparr>user_edge := rows\<rparr>))"

text \<open>
  \<^verbatim>\<open>DELETE FROM user_edge WHERE source_id = $1 AND destination_id = $2 AND state != 3\<close>\<close>

definition q_delete_unblocked :: "uuid \<Rightarrow> uuid \<Rightarrow> statement" where
  "q_delete_unblocked p1 p2 =
     delete_user_edge (\<lambda>r. source_id r = p1 \<and> destination_id r = p2 \<and> state r \<noteq> 3)"

section \<open>The relationship engine\<close>

text \<open>
  \<^verbatim>\<open>addFriend(logger, tx, userID, friendID, timestamp) (bool, error)\<close>. The model returns
  the two results and the transaction as the call has left it; logging has no effect on
  either.
\<close>

definition addFriend :: "tx \<Rightarrow> uuid \<Rightarrow> uuid \<Rightarrow> int \<Rightarrow> bool \<times> error option \<times> tx" where
  "addFriend t0 userID friendID timestamp =
     (let (res, err, t1) = Exec (q_unblock userID friendID) t0 in
      if err \<noteq> None then (False, err, t1)
      else if res = 1 then
        (let (res, err, t2) = Exec (q_count_down userID timestamp) t1 in
         if err \<noteq> None then (False, err, t2)
         else (False, Some ErrNoRows, t2))
      else
        (let (res, err, t2) = Exec (q_accept friendID userID timestamp) t1 in
         if err \<noteq> None then (False, err, t2)
         else if res = 2 then (True, None, t2)
         else
           (let (res, err, t3) = Exec (q_invite userID friendID timestamp) t2 in
            if err \<noteq> None then (False, err, t3)
            else
              (let (res, err, t4) = Exec (q_count_pair userID friendID timestamp) t3 in
               if err \<noteq> None then (False, err, t4)
               else if res \<noteq> 2 then (False, Some ErrNoRows, t4)
               else (False, None, t4)))))"

text \<open>\<^verbatim>\<open>deleteFriend(logger, tx, userID, friendID, timestamp) error\<close>\<close>

definition deleteFriend :: "tx \<Rightarrow> uuid \<Rightarrow> uuid \<Rightarrow> int \<Rightarrow> error option \<times> tx" where
  "deleteFriend t0 userID friendID timestamp =
     (let (rowsAffected, err, t1) = Exec (q_delete_pair userID friendID) t0 in
      if err \<noteq> None then (err, t1)
      else if rowsAffected = 0 then (None, t1)
      else if rowsAffected \<noteq> 2 then (Some ErrUnexpectedEdges, t1)
      else
        (let (res, err, t2) = Exec (q_count_down_pair userID friendID timestamp) t1 in
         if err \<noteq> None then (err, t2)
         else (None, t2)))"

text \<open>
  \<^verbatim>\<open>blockFriend(logger, tx, userID, friendID, timestamp) error\<close>. The tail from the
  delete of the opposite edge on is \<open>blockFriend_opposite\<close>, reached from both branches
  of the first row count.
\<close>

definition blockFriend_opposite :: "tx \<Rightarrow> uuid \<Rightarrow> uuid \<Rightarrow> int \<Rightarrow> error option \<times> tx" where
  "blockFriend_opposite t userID friendID timestamp =
     (let (rowsAffected, err, t1) = Exec (q_delete_unblocked friendID userID) t in
      if err \<noteq> None then (err, t1)
      else if rowsAffected = 1 then
        (let (res, err, t2) = Exec (q_count_down friendID timestamp) t1 in
         if err \<noteq> None then (err, t2)
         else (None, t2))
      else (None, t1))"

definition blockFriend :: "tx \<Rightarrow> uuid \<Rightarrow> uuid \<Rightarrow> int \<Rightarrow> error option \<times> tx" where
  "blockFriend t0 userID friendID timestamp =
     (let (rowsAffected, err, t1) = Exec (q_block userID friendID timestamp) t0 in
      if err \<noteq> None then (err, t1)
      else if rowsAffected = 0 then
        (let (rowsAffected, err, t2) = Exec (q_insert_block userID friendID timestamp) t1 in
         if err \<noteq> None then (err, t2)
         else if rowsAffected = 0 then (None, t2)
         else
           (let (res, err, t3) = Exec (q_count_up userID timestamp) t2 in
            if err \<noteq> None then (err, t3)
            else blockFriend_opposite t3 userID friendID timestamp))
      else blockFriend_opposite t1 userID friendID timestamp)"

subsection \<open>Batches\<close>

text \<open>
  Modelled from the spec: \<^verbatim>\<open>Transact\<close> is not among the source files. The spec gives
  it as the primitive that "runs a unit of work with commit-on-success/rollback-on-error
  semantics": the unit of work runs on a transaction over the current tables; when it
  returns no error the tables it has left are committed, and when it returns an error
  the tables stay as they were. The third component carries what the unit of work has
  written to the variables it captures.
\<close>

definition Transact :: "nat option \<Rightarrow> db \<Rightarrow> (tx \<Rightarrow> error option \<times> tx \<times> 'a) \<Rightarrow> error option \<times> db \<times> 'a" where
  "Transact h d fn =
     (case fn \<lparr>store = d, health = h\<rparr> of
        (None, t, a) \<Rightarrow> (None, store t, a)
      | (Some e, t, a) \<Rightarrow> (Some e, d, a))"

text \<open>
  The loop of \<^verbatim>\<open>AddFriends\<close> over \<^verbatim>\<open>ids\<close>, with the map \<^verbatim>\<open>notificationToSend\<close> it
  fills.
\<close>

fun AddFriends_loop ::
  "tx \<Rightarrow> uuid \<Rightarrow> int \<Rightarrow> uuid list \<Rightarrow> (uuid \<rightharpoonup> bool) \<Rightarrow> error option \<times> tx \<times> (uuid \<rightharpoonup> bool)" where
  "AddFriends_loop t currentUser ts [] notificationToSend = (None, t, notificationToSend)"
| "AddFriends_loop t currentUser ts (id' # ids) notificationToSend =
     (case addFriend t currentUser id' ts of
        (isFriendAccept, addFriendErr, t') \<Rightarrow>
          if addFriendErr = None
          then AddFriends_loop t' currentUser ts ids (notificationToSend(id' \<mapsto> isFriendAccept))
          else if addFriendErr \<noteq> Some ErrNoRows then (addFriendErr, t', notificationToSend)
          else AddFriends_loop t' currentUser ts ids notificationToSend)"

text \<open>
  \<^verbatim>\<open>AddFriends(logger, db, currentUser, ids) error\<close>. The clock reading \<^verbatim>\<open>ts\<close> and the
  health of the store are inputs. The result is the error, the tables afterwards, and
  \<^verbatim>\<open>notificationToSend\<close> as it stands where the notifications are to be sent.
\<close>

definition AddFriends ::
  "nat option \<Rightarrow> db \<Rightarrow> uuid \<Rightarrow> int \<Rightarrow> uuid list \<Rightarrow> error option \<times> db \<times> (uuid \<rightharpoonup> bool)" where
  "AddFriends h d currentUser ts ids =
     Transact h d (\<lambda>t. AddFriends_loop t currentUser ts ids Map.empty)"

fun DeleteFriends_loop :: "tx \<Rightarrow> uuid \<Rightarrow> int \<Rightarrow> uuid list \<Rightarrow> error option \<times> tx \<times> unit" where
  "DeleteFriends_loop t currentUser ts [] = (None, t, ())"
| "DeleteFriends_loop t currentUser ts (id' # ids) =
     (case deleteFriend t currentUser id' ts of
        (deleteFriendErr, t') \<Rightarrow>
          if deleteFriendErr \<noteq> None then (deleteFriendErr, t', ())
          else DeleteFriends_loop t' currentUser ts ids)"

definition DeleteFriends :: "nat option \<Rightarrow> db \<Rightarrow> uuid \<Rightarrow> int \<Rightarrow> uuid list \<Rightarrow> error option \<times> db" where
  "DeleteFriends h d currentUser ts ids =
     (case Transact h d (\<lambda>t. DeleteFriends_loop t currentUser ts ids) of
        (err, d', _) \<Rightarrow> (err, d'))"

fun BlockFriends_loop :: "tx \<Rightarrow> uuid \<Rightarrow> int \<Rightarrow> uuid list \<Rightarrow> error option \<times> tx \<times> unit" where
  "BlockFriends_loop t currentUser ts [] = (None, t, ())"
| "BlockFriends_loop t currentUser ts (id' # ids) =
     (case blockFriend t currentUser id' ts of
        (blockFriendErr, t') \<Rightarrow>
          if blockFriendErr \<noteq> None then (blockFriendErr, t', ())
          else BlockFriends_loop t' currentUser ts ids)"

definition BlockFriends :: "nat option \<Rightarrow> db \<Rightarrow> uuid \<Rightarrow> int \<Rightarrow> uuid list \<Rightarrow> error option \<times> db" where
  "BlockFriends h d currentUser ts ids =
     (case Transact h d (\<lambda>t. BlockFriends_loop t currentUser ts ids) of
        (err, d', _) \<Rightarrow> (err, d'))"

section \<open>Well-formed tables\<close>

text \<open>
  The unique constraint on \<^verbatim>\<open>(source_id, destination_id)\<close> as a property of the rows
  of \<^verbatim>\<open>user_edge\<close>, and the row with a given key, if there is one.
\<close>

definition unique_edges :: "edge_row list \<Rightarrow> bool" where
  "unique_edges rows = distinct (map edge_key rows)"

definition lookup_edge :: "edge_row list \<Rightarrow> uuid \<Rightarrow> uuid \<Rightarrow> edge_row option" where
  "lookup_edge rows a b = find (\<lambda>r. source_id r = a \<and> destination_id r = b) rows"

text \<open>The primary key of \<^verbatim>\<open>users\<close>.\<close>

definition unique_users :: "user_row list \<Rightarrow> bool" where
  "unique_users rows = distinct (map users_id rows)"

text \<open>The rows of either direction between two users.\<close>

definition edge_between :: "uuid \<Rightarrow> uuid \<Rightarrow> edge_row \<Rightarrow> bool" where
  "edge_between a b e =
     ((source_id e = a \<and> destination_id e = b) \<or> (source_id e = b \<and> destination_id e = a))"

text \<open>
  A pending invite from \<open>inviter\<close> to \<open>invitee\<close>: the inviter's row is an
  \<open>OutgoingRequest\<close> and the invitee's row is \<open>Invited\<close>.
\<close>

definition pending_invite :: "edge_row list \<Rightarrow> uuid \<Rightarrow> uuid \<Rightarrow> bool" where
  "pending_invite rows inviter invitee =
     ((\<exists>r \<in> set rows. source_id r = inviter \<and> destination_id r = invitee \<and> state r = OutgoingRequest)
    \<and> (\<exists>r \<in> set rows. source_id r = invitee \<and> destination_id r = inviter \<and> state r = Invited))"

text \<open>
  Count consistency: the \<^verbatim>\<open>edge_count\<close> of every user is the number of rows of
  \<^verbatim>\<open>user_edge\<close> whose \<^verbatim>\<open>source_id\<close> is that user.
\<close>

definition count_consistent :: "db \<Rightarrow> bool" where
  "count_consistent d =
     (\<forall>u \<in> set (users d).
        edge_count u = int (length (filter (\<lambda>e. source_id e = users_id u) (user_edge d))))"

text \<open>
  Every row of \<^verbatim>\<open>user_edge\<close> has a user as its source. The engine inserts a row with
  the caller as its source, or with the target as its source under
  \<^verbatim>\<open>WHERE EXISTS (SELECT id FROM users WHERE id = $2::UUID)\<close>, and none of its
  statements deletes a row of \<^verbatim>\<open>users\<close>. \<open>caller_inv\<close> adds that the caller is a
  user.
\<close>

definition sources_are_users :: "db \<Rightarrow> bool" where
  "sources_are_users d = (\<forall>e \<in> set (user_edge d). user_exists d (source_id e))"

definition caller_inv :: "uuid \<Rightarrow> db \<Rightarrow> bool" where
  "caller_inv a d = (sources_are_users d \<and> user_exists d a)"

section \<open>Pairs of users and sequences of requests\<close>

text \<open>The state of the edge from \<open>a\<close> to \<open>b\<close>, if there is one.\<close>

definition edge_state :: "edge_row list \<Rightarrow> uuid \<Rightarrow> uuid \<Rightarrow> int option" where
  "edge_state rows a b = map_option state (lookup_edge rows a b)"

text \<open>
  The two edges of a relationship in a consistent paired state: both \<open>Accepted\<close>, or
  one \<open>OutgoingRequest\<close> and the other \<open>Invited\<close>.
\<close>

definition consistent_pair :: "int option \<Rightarrow> int option \<Rightarrow> bool" where
  "consistent_pair s1 s2 =
     ((s1 = Some Accepted \<and> s2 = Some Accepted)
    \<or> (s1 = Some OutgoingRequest \<and> s2 = Some Invited)
    \<or> (s1 = Some Invited \<and> s2 = Some OutgoingRequest))"

text \<open>
  Symmetry as the specification words it: both edges in a consistent paired state, or
  at most one edge, and that one \<open>Blocked\<close>.
\<close>

definition symmetry_claimed :: "edge_row list \<Rightarrow> uuid \<Rightarrow> uuid \<Rightarrow> bool" where
  "symmetry_claimed rows a b =
     (let s1 = edge_state rows a b; s2 = edge_state rows b a
      in consistent_pair s1 s2
       \<or> (s1 = None \<and> s2 = None)
       \<or> (s1 = Some Blocked \<and> s2 = None)
       \<or> (s1 = None \<and> s2 = Some Blocked))"

text \<open>
  Symmetry with the mutual block: both edges in a consistent paired state, or every
  edge there is between the two is \<open>Blocked\<close>.
\<close>

definition symmetry_or_blocks :: "edge_row list \<Rightarrow> uuid \<Rightarrow> uuid \<Rightarrow> bool" where
  "symmetry_or_blocks rows a b =
     (let s1 = edge_state rows a b; s2 = edge_state rows b a
      in consistent_pair s1 s2
       \<or> ((s1 = None \<or> s1 = Some Blocked) \<and> (s2 = None \<or> s2 = Some Blocked)))"

text \<open>
  A request is one call of the engine for one target id, run as a batch of its own, with
  the health of the store during the batch and the clock reading of the batch. A
  sequence of requests runs from left to right; a request whose batch returns an error
  leaves the tables as they were.
\<close>

datatype call = AddFriend uuid uuid | DeleteFriend uuid uuid | BlockFriend uuid uuid

type_synonym request = "nat option \<times> int \<times> call"

fun actor_of :: "call \<Rightarrow> uuid" where
  "actor_of (AddFriend actor target) = actor"
| "actor_of (DeleteFriend actor target) = actor"
| "actor_of (BlockFriend actor target) = actor"

fun step :: "db \<Rightarrow> request \<Rightarrow> db" where
  "step d (h, ts, AddFriend actor target) = fst (snd (AddFriends h d actor ts [target]))"
| "step d (h, ts, DeleteFriend actor target) = snd (DeleteFriends h d actor ts [target])"
| "step d (h, ts, BlockFriend actor target) = snd (BlockFriends h d actor ts [target])"

fun run :: "db \<Rightarrow> request list \<Rightarrow> db" where
  "run d [] = d"
| "run d (r # rs) = run (step d r) rs"

text \<open>
  An add between \<open>a\<close> and \<open>b\<close> that meets a block: one of the two adds the other
  while the adder has no edge to the other and the other's edge to the adder is
  \<open>Blocked\<close>. A sequence avoids it when no request of the sequence is such an add in
  the state it runs in; adds between other users, whatever they meet, are not
  restricted.
\<close>

fun blocked_add_between :: "uuid \<Rightarrow> uuid \<Rightarrow> db \<Rightarrow> request \<Rightarrow> bool" where
  "blocked_add_between a b d (h, ts, AddFriend actor target) =
     (((actor = a \<and> target = b) \<or> (actor = b \<and> target = a))
      \<and> edge_state (user_edge d) actor target = None
      \<and> edge_state (user_edge d) target actor = Some Blocked)"
| "blocked_add_between a b d (h, ts, DeleteFriend actor target) = False"
| "blocked_add_between a b d (h, ts, BlockFriend actor target) = False"

fun avoids_blocked_add_between :: "uuid \<Rightarrow> uuid \<Rightarrow> db \<Rightarrow> request list \<Rightarrow> bool" where
  "avoids_blocked_add_between a b d [] = True"
| "avoids_blocked_add_between a b d (r # rs) =
     (\<not> blocked_add_between a b d r \<and> avoids_blocked_add_between a b (step d r) rs)"

lemmas stmt_defs = q_unblock_def q_count_down_def q_count_up_def q_accept_def q_invite_def
  q_count_pair_def q_delete_pair_def q_count_down_pair_def q_block_def q_insert_block_def
  q_delete_unblocked_def delete_user_edge_def update_user_edge_def update_users_def
  conflicts_def edge_key_def user_exists_def

lemmas engine_defs = addFriend_def deleteFriend_def blockFriend_def blockFriend_opposite_def
  Exec_def Transact_def AddFriends_def DeleteFriends_def BlockFriends_def

section \<open>Rows and keys\<close>

lemma count_key:
  "distinct (map f xs) \<Longrightarrow>
   length (filter (\<lambda>x. f x = k \<and> Q x) xs) =
     (case find (\<lambda>x. f x = k) xs of None \<Rightarrow> 0 | Some x \<Rightarrow> if Q x then 1 else 0)"
  by (induction xs) (auto simp: filter_empty_conv image_iff find_Some_iff split: option.splits)

lemma count_edge:
  "unique_edges rows \<Longrightarrow>
   length (filter (\<lambda>r. source_id r = a \<and> destination_id r = b \<and> Q r) rows) =
     (case lookup_edge rows a b of None \<Rightarrow> 0 | Some r \<Rightarrow> if Q r then 1 else 0)"
  using count_key [of edge_key rows "(a, b)" Q]
  by (simp add: unique_edges_def lookup_edge_def edge_key_def conj_assoc)

lemma lookup_edge_Some:
  "lookup_edge rows a b = Some r \<Longrightarrow> r \<in> set rows \<and> source_id r = a \<and> destination_id r = b"
  by (auto simp: lookup_edge_def find_Some_iff)

lemma lookup_edge_None:
  "lookup_edge rows a b = None \<longleftrightarrow> (\<forall>r \<in> set rows. \<not> (source_id r = a \<and> destination_id r = b))"
  by (auto simp: lookup_edge_def find_None_iff)

lemma lookup_edge_mem:
  "unique_edges rows \<Longrightarrow> r \<in> set rows \<Longrightarrow> lookup_edge rows (source_id r) (destination_id r) = Some r"
  unfolding unique_edges_def lookup_edge_def
  by (induction rows) (auto simp: edge_key_def image_iff)

lemma same_key_same_row:
  assumes "unique_edges rows" "e \<in> set rows" "r \<in> set rows"
    and "source_id e = source_id r" "destination_id e = destination_id r"
  shows "e = r"
proof -
  have "inj_on edge_key (set rows)"
    using assms(1) by (simp add: unique_edges_def distinct_map)
  moreover have "edge_key e = edge_key r"
    using assms(4,5) by (simp add: edge_key_def)
  ultimately show ?thesis
    using assms(2,3) by (rule inj_onD)
qed


lemma count_user:
  "distinct (map users_id us) \<Longrightarrow>
   length (filter (\<lambda>u. users_id u = a) us) = (if a \<in> users_id ` set us then 1 else 0)"
  using count_key [of users_id us a "\<lambda>_. True"]
  by (auto simp: find_None_iff find_Some_iff image_iff split: option.splits)

lemma count_two_users:
  assumes "distinct (map users_id us)" "a \<noteq> b"
  shows "length (filter (\<lambda>u. users_id u = a \<or> users_id u = b) us)
         = (if a \<in> users_id ` set us then 1 else 0) + (if b \<in> users_id ` set us then 1 else 0)"
proof -
  have "length (filter (\<lambda>u. users_id u = a \<or> users_id u = b) us)
        = length (filter (\<lambda>u. users_id u = a) us) + length (filter (\<lambda>u. users_id u = b) us)"
    using assms(2) by (induction us) auto
  then show ?thesis
    by (simp only: count_user [OF assms(1)])
qed

lemma map_upd_id:
  "\<forall>x \<in> set xs. \<not> P x \<Longrightarrow> map (\<lambda>r. if P r then f r else r) xs = xs"
  by (induction xs) auto

lemma length_filter_disj:
  "\<forall>x \<in> set xs. \<not> (P x \<and> Q x) \<Longrightarrow>
   length (filter (\<lambda>x. P x \<or> Q x) xs) = length (filter P xs) + length (filter Q xs)"
  by (induction xs) auto

lemma ex_edge_count:
  assumes "unique_edges rows"
  shows "(\<exists>r \<in> set rows. source_id r = a \<and> destination_id r = b \<and> Q r)
         \<longleftrightarrow> length (filter (\<lambda>r. source_id r = a \<and> destination_id r = b \<and> Q r) rows) = 1"
proof -
  have "length (filter (\<lambda>r. source_id r = a \<and> destination_id r = b \<and> Q r) rows) \<le> 1"
    by (simp add: count_edge [OF assms] split: option.splits)
  moreover have "(\<exists>r \<in> set rows. source_id r = a \<and> destination_id r = b \<and> Q r)
         \<longleftrightarrow> length (filter (\<lambda>r. source_id r = a \<and> destination_id r = b \<and> Q r) rows) \<noteq> 0"
    by (auto simp: filter_empty_conv)
  ultimately show ?thesis
    by linarith
qed

lemma unique_edges_map_upd:
  assumes "\<And>r. edge_key (f r) = edge_key r"
  shows "unique_edges (map (\<lambda>r. if p r then f r else r) rows) = unique_edges rows"
proof -
  have "map edge_key (map (\<lambda>r. if p r then f r else r) rows) = map edge_key rows"
    using assms by (induction rows) auto
  then show ?thesis
    by (simp only: unique_edges_def)
qed

lemma unique_edges_snoc:
  "unique_edges (rows @ [v]) \<longleftrightarrow> unique_edges rows \<and> \<not> conflicts v rows"
  by (auto simp: unique_edges_def conflicts_def image_iff)

lemma unique_edges_filter:
  "unique_edges rows \<Longrightarrow> unique_edges (filter p rows)"
  by (simp add: unique_edges_def distinct_map_filter)

lemma lookup_edge_map_upd:
  assumes "\<And>r. source_id (f r) = source_id r" "\<And>r. destination_id (f r) = destination_id r"
  shows "lookup_edge (map (\<lambda>r. if P r then f r else r) rows) x y
         = (case lookup_edge rows x y of None \<Rightarrow> None | Some r \<Rightarrow> Some (if P r then f r else r))"
  unfolding lookup_edge_def using assms by (induction rows) auto

lemma lookup_edge_iff:
  assumes "unique_edges rows"
  shows "lookup_edge rows x y = Some r \<longleftrightarrow> r \<in> set rows \<and> source_id r = x \<and> destination_id r = y"
  using lookup_edge_Some [of rows x y r] lookup_edge_mem [OF assms, of r] by auto

lemma lookup_edge_filter:
  assumes "unique_edges rows"
  shows "lookup_edge (filter Q rows) x y
         = (case lookup_edge rows x y of None \<Rightarrow> None | Some r \<Rightarrow> if Q r then Some r else None)"
proof (cases "lookup_edge rows x y")
  case None
  then have "lookup_edge (filter Q rows) x y = None"
    by (auto simp: lookup_edge_None)
  with None show ?thesis
    by simp
next
  case (Some r)
  have u: "unique_edges (filter Q rows)"
    using assms by (rule unique_edges_filter)
  from Some have r: "r \<in> set rows" "source_id r = x" "destination_id r = y"
    by (simp_all add: lookup_edge_iff [OF assms])
  show ?thesis
  proof (cases "Q r")
    case False
    have "e \<noteq> r" if "e \<in> set (filter Q rows)" for e
      using that False by auto
    then have "\<forall>e \<in> set (filter Q rows). \<not> (source_id e = x \<and> destination_id e = y)"
      using same_key_same_row [OF assms _ r(1)] r(2,3) by auto
    then have "lookup_edge (filter Q rows) x y = None"
      by (simp only: lookup_edge_None)
    with Some False show ?thesis by simp
  next
    case True
    with r have "lookup_edge (filter Q rows) x y = Some r"
      by (simp add: lookup_edge_iff [OF u])
    with Some True show ?thesis by simp
  qed
qed

lemma lookup_edge_snoc:
  "lookup_edge (rows @ [v]) x y
   = (case lookup_edge rows x y of
        Some r \<Rightarrow> Some r
      | None \<Rightarrow> if source_id v = x \<and> destination_id v = y then Some v else None)"
  unfolding lookup_edge_def by (induction rows) auto

lemma conflicts_lookup:
  "conflicts v rows \<longleftrightarrow> lookup_edge rows (source_id v) (destination_id v) \<noteq> None"
  by (auto simp: conflicts_def lookup_edge_def find_None_iff edge_key_def)

section \<open>Statements on a healthy store\<close>

lemma Exec_healthy:
  "Exec stmt \<lparr>store = d, health = None\<rparr> =
     (case stmt d of
        None \<Rightarrow> (0, Some ErrStore, \<lparr>store = d, health = Some 0\<rparr>)
      | Some (n, d') \<Rightarrow> (n, None, \<lparr>store = d', health = None\<rparr>))"
  by (simp add: Exec_def split: option.splits)

lemma q_unblock_hit:
  assumes "unique_edges (user_edge d)" "r \<in> set (user_edge d)"
    and "source_id r = a" "destination_id r = b" "state r = Blocked"
  shows "q_unblock a b d = Some (1, d\<lparr>user_edge := filter (\<lambda>e. e \<noteq> r) (user_edge d)\<rparr>)"
proof -
  have n: "length (filter (\<lambda>e. source_id e = a \<and> destination_id e = b \<and> state e = 3) (user_edge d)) = 1"
    using assms lookup_edge_mem [OF assms(1,2)] by (simp add: count_edge)
  have "(\<not> (source_id e = a \<and> destination_id e = b \<and> state e = 3)) = (e \<noteq> r)"
    if "e \<in> set (user_edge d)" for e
    using same_key_same_row [OF assms(1) that assms(2)] assms(3-5) by auto
  then have f: "filter (\<lambda>e. \<not> (source_id e = a \<and> destination_id e = b \<and> state e = 3)) (user_edge d)
           = filter (\<lambda>e. e \<noteq> r) (user_edge d)"
    by (rule filter_cong [OF refl])
  show ?thesis
    unfolding q_unblock_def delete_user_edge_def n f by (rule refl)
qed


lemma delete_user_edge_none:
  assumes "\<forall>e \<in> set (user_edge d). \<not> p e"
  shows "delete_user_edge p d = Some (0, d)"
proof -
  have "filter p (user_edge d) = []" "filter (\<lambda>r. \<not> p r) (user_edge d) = user_edge d"
    using assms by (simp_all add: filter_empty_conv)
  then show ?thesis
    by (simp add: delete_user_edge_def)
qed

lemma update_user_edge_none:
  assumes "\<forall>e \<in> set (user_edge d). \<not> p e"
  shows "update_user_edge p f d = Some (0, d)"
proof -
  have "filter p (user_edge d) = []" "map (\<lambda>r. if p r then f r else r) (user_edge d) = user_edge d"
    using assms by (simp_all add: filter_empty_conv map_upd_id)
  then show ?thesis
    by (simp add: update_user_edge_def)
qed

lemma q_count_pair_eq:
  "q_count_pair p1 p2 p3 d =
     (if \<exists>e \<in> set (user_edge d).
            (source_id e = p1 \<and> destination_id e = p2 \<and> position e \<noteq> p3)
          \<or> (source_id e = p2 \<and> destination_id e = p1 \<and> position e \<noteq> p3)
      then Some (0, d)
      else Some (length (filter (\<lambda>u. users_id u = p1 \<or> users_id u = p2) (users d)),
                 d\<lparr>users := map (\<lambda>u. if users_id u = p1 \<or> users_id u = p2
                                    then u\<lparr>edge_count := edge_count u + 1, users_update_time := p3\<rparr>
                                    else u) (users d)\<rparr>))"
proof (cases "\<exists>e \<in> set (user_edge d).
            (source_id e = p1 \<and> destination_id e = p2 \<and> position e \<noteq> p3)
          \<or> (source_id e = p2 \<and> destination_id e = p1 \<and> position e \<noteq> p3)")
  case True
  then show ?thesis
    unfolding q_count_pair_def update_users_def by (simp del: bex_simps)
next
  case False
  then show ?thesis
    unfolding q_count_pair_def update_users_def by (simp del: bex_simps)
qed

lemma q_accept_rows:
  assumes "unique_edges (user_edge d)"
  shows "\<exists>n. q_accept target actor ts d
           = Some (n, d\<lparr>user_edge := map (\<lambda>r. if (source_id r = target \<and> destination_id r = actor \<and> state r = 2)
                                              \<or> (source_id r = actor \<and> destination_id r = target \<and> state r = 1)
                                            then r\<lparr>state := 0, update_time := ts\<rparr> else r) (user_edge d)\<rparr>)
         \<and> (n = 2 \<longleftrightarrow> pending_invite (user_edge d) target actor)"
proof -
  let ?P = "\<lambda>r. source_id r = target \<and> destination_id r = actor \<and> state r = 2"
  let ?Q = "\<lambda>r. source_id r = actor \<and> destination_id r = target \<and> state r = 1"
  have le: "length (filter ?P (user_edge d)) \<le> 1" "length (filter ?Q (user_edge d)) \<le> 1"
    by (simp_all add: count_edge [OF assms] split: option.splits)
  have "length (filter (\<lambda>r. ?P r \<or> ?Q r) (user_edge d))
        = length (filter ?P (user_edge d)) + length (filter ?Q (user_edge d))"
    by (rule length_filter_disj) auto
  moreover have "pending_invite (user_edge d) target actor
      \<longleftrightarrow> length (filter ?P (user_edge d)) = 1 \<and> length (filter ?Q (user_edge d)) = 1"
    unfolding pending_invite_def
    using ex_edge_count [OF assms, of target actor "\<lambda>r. state r = 2"]
          ex_edge_count [OF assms, of actor target "\<lambda>r. state r = 1"] by simp
  ultimately have "length (filter (\<lambda>r. ?P r \<or> ?Q r) (user_edge d)) = 2
      \<longleftrightarrow> pending_invite (user_edge d) target actor"
    using le by linarith
  then show ?thesis
    unfolding q_accept_def update_user_edge_def by blast
qed

lemma q_unblock_miss:
  assumes "\<forall>e \<in> set (user_edge d). \<not> (source_id e = a \<and> destination_id e = b \<and> state e = Blocked)"
  shows "q_unblock a b d = Some (0, d)"
  unfolding q_unblock_def using assms by (intro delete_user_edge_none) auto

lemma q_block_eq:
  "q_block a b ts d =
     (if \<exists>r \<in> set (user_edge d). source_id r = a \<and> destination_id r = b
      then Some (length (filter (\<lambda>r. source_id r = a \<and> destination_id r = b) (user_edge d)),
                 d\<lparr>user_edge := map (\<lambda>r. if source_id r = a \<and> destination_id r = b
                                         then r\<lparr>state := Blocked, update_time := ts\<rparr> else r) (user_edge d)\<rparr>)
      else Some (0, d))"
proof (cases "\<exists>r \<in> set (user_edge d). source_id r = a \<and> destination_id r = b")
  case True
  then show ?thesis
    by (simp add: q_block_def update_user_edge_def del: bex_simps)
next
  case False
  then have "update_user_edge (\<lambda>r. source_id r = a \<and> destination_id r = b)
               (\<lambda>r. r\<lparr>state := 3, update_time := ts\<rparr>) d = Some (0, d)"
    by (intro update_user_edge_none) simp
  with False show ?thesis
    by (simp add: q_block_def del: bex_simps)
qed

lemma q_insert_block_eq:
  assumes "\<not> (\<exists>r \<in> set (user_edge d). source_id r = a \<and> destination_id r = b)"
  shows "q_insert_block a b ts d =
     (if user_exists d b
      then Some (1, d\<lparr>user_edge := user_edge d @
                    [\<lparr>source_id = a, destination_id = b, state = Blocked,
                       position = ts, update_time = ts\<rparr>]\<rparr>)
      else Some (0, d))"
  using assms by (auto simp: q_insert_block_def conflicts_def edge_key_def)

section \<open>Adding a user one has blocked\<close>

text \<open>
  C8. On unique keys and a store that answers every statement: when the actor holds a
  \<open>Blocked\<close> edge to the target, \<^verbatim>\<open>addFriend\<close> deletes that row and nothing else, takes one off the actor's \<^verbatim>\<open>edge_count\<close>, and returns
  \<^verbatim>\<open>(false, sql.ErrNoRows)\<close> without accepting or inserting anything. The loop of
  \<^verbatim>\<open>AddFriends\<close> takes this result as neither a success nor a failure: it goes on to the
  remaining ids with \<^verbatim>\<open>notificationToSend\<close> as it was, and a batch of that one id
  returns no error and has no notification to send.
\<close>

theorem addFriend_unblocks:
  assumes "unique_edges (user_edge d)"
    and "r \<in> set (user_edge d)"
    and "source_id r = actor" and "destination_id r = target" and "state r = Blocked"
  shows "\<exists>d'. d' = d\<lparr>user_edge := filter (\<lambda>e. e \<noteq> r) (user_edge d),
                       users := map (\<lambda>u. if users_id u = actor
                                 then u\<lparr>edge_count := edge_count u - 1, users_update_time := ts\<rparr>
                                 else u) (users d)\<rparr>
           \<and> addFriend \<lparr>store = d, health = None\<rparr> actor target ts
               = (False, Some ErrNoRows, \<lparr>store = d', health = None\<rparr>)
           \<and> AddFriends_loop \<lparr>store = d, health = None\<rparr> actor ts (target # ids) notif
               = AddFriends_loop \<lparr>store = d', health = None\<rparr> actor ts ids notif
           \<and> AddFriends None d actor ts [target] = (None, d', Map.empty)"
proof -
  have a: "addFriend \<lparr>store = d, health = None\<rparr> actor target ts
        = (False, Some ErrNoRows, \<lparr>store = d\<lparr>user_edge := filter (\<lambda>e. e \<noteq> r) (user_edge d),
                       users := map (\<lambda>u. if users_id u = actor
                                 then u\<lparr>edge_count := edge_count u - 1, users_update_time := ts\<rparr>
                                 else u) (users d)\<rparr>, health = None\<rparr>)"
    by (simp add: addFriend_def Exec_healthy q_unblock_hit [OF assms] q_count_down_def
        update_users_def)
  show ?thesis
    by (simp add: a AddFriends_def Transact_def)
qed

theorem addFriend_unblocks_witness:
  "addFriend \<lparr>store = \<lparr>users = [\<lparr>users_id = 1, edge_count = 1, users_update_time = 4\<rparr>],
                        user_edge = [\<lparr>source_id = 1, destination_id = 2, state = Blocked,
                                      position = 4, update_time = 4\<rparr>]\<rparr>,
              health = None\<rparr> 1 2 9
   = (False, Some ErrNoRows,
      \<lparr>store = \<lparr>users = [\<lparr>users_id = 1, edge_count = 0, users_update_time = 9\<rparr>],
                user_edge = []\<rparr>,
       health = None\<rparr>)
   \<and> AddFriends None \<lparr>users = [\<lparr>users_id = 1, edge_count = 1, users_update_time = 4\<rparr>],
                      user_edge = [\<lparr>source_id = 1, destination_id = 2, state = Blocked,
                                    position = 4, update_time = 4\<rparr>]\<rparr> 1 9 [2]
   = (None, \<lparr>users = [\<lparr>users_id = 1, edge_count = 0, users_update_time = 9\<rparr>],
             user_edge = []\<rparr>, Map.empty)"
  using addFriend_unblocks
    [of "\<lparr>users = [\<lparr>users_id = 1, edge_count = 1, users_update_time = 4\<rparr>],
          user_edge = [\<lparr>source_id = 1, destination_id = 2, state = Blocked,
                        position = 4, update_time = 4\<rparr>]\<rparr>"
        "\<lparr>source_id = 1, destination_id = 2, state = Blocked, position = 4, update_time = 4\<rparr>"
        1 2 9 "[]" Map.empty]
  by (simp add: unique_edges_def edge_key_def)

section \<open>Accepting an invite\<close>

lemma pending_not_blocked:
  assumes "unique_edges rows" "pending_invite rows target actor" "e \<in> set rows"
   "source_id e = actor" "destination_id e = target"
  shows "state e = Invited"
proof -
  from assms(2) obtain r where "r \<in> set rows" "source_id r = actor" "destination_id r = target" "state r = 1"
    by (auto simp: pending_invite_def)
  with same_key_same_row [OF assms(1,3), of r] assms(4,5) show ?thesis
    by simp
qed

lemma addFriend_accept:
  assumes "unique_edges (user_edge d)"
  shows "(fst (addFriend \<lparr>store = d, health = None\<rparr> actor target ts)
           \<longleftrightarrow> pending_invite (user_edge d) target actor)
       \<and> (pending_invite (user_edge d) target actor \<longrightarrow>
            addFriend \<lparr>store = d, health = None\<rparr> actor target ts
              = (True, None,
                 \<lparr>store = d\<lparr>user_edge :=
                      map (\<lambda>r. if (source_id r = target \<and> destination_id r = actor \<and> state r = OutgoingRequest)
                                 \<or> (source_id r = actor \<and> destination_id r = target \<and> state r = Invited)
                               then r\<lparr>state := Accepted, update_time := ts\<rparr> else r) (user_edge d)\<rparr>,
                  health = None\<rparr>))"
proof -
  from q_accept_rows [OF assms, of target actor ts] obtain n where
    q2: "q_accept target actor ts d
           = Some (n, d\<lparr>user_edge := map (\<lambda>r. if (source_id r = target \<and> destination_id r = actor \<and> state r = 2)
                                              \<or> (source_id r = actor \<and> destination_id r = target \<and> state r = 1)
                                            then r\<lparr>state := 0, update_time := ts\<rparr> else r) (user_edge d)\<rparr>)"
    and n: "n = 2 \<longleftrightarrow> pending_invite (user_edge d) target actor"
    by blast
  show ?thesis
  proof (cases "pending_invite (user_edge d) target actor")
    case True
    then have "\<forall>e \<in> set (user_edge d). \<not> (source_id e = actor \<and> destination_id e = target \<and> state e = 3)"
      using pending_not_blocked [OF assms True] by fastforce
    then have q1: "q_unblock actor target d = Some (0, d)"
      by (rule q_unblock_miss)
    from True n have "n = 2" by simp
    with True show ?thesis
      by (simp add: addFriend_def Exec_healthy q1 q2)
  next
    case False
    with n have n2: "n \<noteq> 2" by simp
    have "\<not> fst (addFriend \<lparr>store = d, health = None\<rparr> actor target ts)"
    proof (cases "\<forall>e \<in> set (user_edge d). \<not> (source_id e = actor \<and> destination_id e = target \<and> state e = 3)")
      case True
      then have q1: "q_unblock actor target d = Some (0, d)"
        by (rule q_unblock_miss)
      show ?thesis
        using n2 by (simp add: addFriend_def Exec_healthy q1 q2 Exec_def Let_def split: prod.splits option.splits)
    next
      case False
      then obtain r where r: "r \<in> set (user_edge d)" "source_id r = actor" "destination_id r = target" "state r = 3"
        by blast
      show ?thesis
        by (simp add: addFriend_def Exec_healthy q_unblock_hit [OF assms r] Exec_def Let_def split: prod.splits option.splits)
    qed
    with False show ?thesis by simp
  qed
qed




section \<open>A new invite and its acceptance\<close>

lemma addFriend_fresh:
  assumes "unique_users (users d)" "user_exists d A" "user_exists d B" "A \<noteq> B"
    and "\<forall>e \<in> set (user_edge d). \<not> edge_between A B e"
  shows "addFriend \<lparr>store = d, health = None\<rparr> A B ts
         = (False, None,
            \<lparr>store = d\<lparr>user_edge := user_edge d @
                  [\<lparr>source_id = A, destination_id = B, state = OutgoingRequest,
                     position = ts, update_time = ts\<rparr>,
                   \<lparr>source_id = B, destination_id = A, state = Invited,
                     position = ts, update_time = ts\<rparr>],
                users := map (\<lambda>u. if users_id u = A \<or> users_id u = B
                                  then u\<lparr>edge_count := edge_count u + 1, users_update_time := ts\<rparr>
                                  else u) (users d)\<rparr>,
             health = None\<rparr>)"
proof -
  let ?E = "user_edge d"
  have q1: "q_unblock A B d = Some (0, d)"
    unfolding q_unblock_def using assms(5)
    by (intro delete_user_edge_none) (auto simp: edge_between_def)
  have q2: "q_accept B A ts d = Some (0, d)"
    unfolding q_accept_def using assms(5)
    by (intro update_user_edge_none) (auto simp: edge_between_def)
  have q3: "q_invite A B ts d = Some (2, d\<lparr>user_edge := ?E @
                  [\<lparr>source_id = A, destination_id = B, state = 2, position = ts, update_time = ts\<rparr>,
                   \<lparr>source_id = B, destination_id = A, state = 1, position = ts, update_time = ts\<rparr>]\<rparr>)"
    using assms(3,4,5) by (auto simp: q_invite_def conflicts_def edge_key_def edge_between_def)
  have n: "length (filter (\<lambda>u. users_id u = A \<or> users_id u = B) (users d)) = 2"
    using count_two_users [of "users d" A B] assms(1-4)
    by (auto simp: unique_users_def user_exists_def image_iff)
  have q4: "q_count_pair A B ts (d\<lparr>user_edge := ?E @
                  [\<lparr>source_id = A, destination_id = B, state = 2, position = ts, update_time = ts\<rparr>,
                   \<lparr>source_id = B, destination_id = A, state = 1, position = ts, update_time = ts\<rparr>]\<rparr>)
      = Some (2, d\<lparr>user_edge := ?E @
                  [\<lparr>source_id = A, destination_id = B, state = 2, position = ts, update_time = ts\<rparr>,
                   \<lparr>source_id = B, destination_id = A, state = 1, position = ts, update_time = ts\<rparr>],
                users := map (\<lambda>u. if users_id u = A \<or> users_id u = B
                                  then u\<lparr>edge_count := edge_count u + 1, users_update_time := ts\<rparr>
                                  else u) (users d)\<rparr>)"
    using assms(5) n by (auto simp: q_count_pair_eq edge_between_def)
  show ?thesis
    by (simp add: addFriend_def Exec_healthy q1 q2 q3 q4)
qed

text \<open>
  C6. Let \<open>A\<close> and \<open>B\<close> be two different users with no edge between them, the keys
  of both tables unique and the store answering every statement.
  \<^verbatim>\<open>AddFriends(A, [B])\<close> inserts the pair \<open>A \<rightarrow> B\<close> \<open>OutgoingRequest\<close>,
  \<open>B \<rightarrow> A\<close> \<open>Invited\<close> and adds one to the \<^verbatim>\<open>edge_count\<close> of each; then
  \<^verbatim>\<open>AddFriends(B, [A])\<close> sets both rows to \<open>Accepted\<close> and leaves \<^verbatim>\<open>users\<close> as the
  first call left it. The first call notes \<open>B\<close> as a new invite, the second notes \<open>A\<close>
  as an acceptance.
\<close>

theorem accept_convergence:
  assumes "unique_edges (user_edge d)" and "unique_users (users d)"
    and "user_exists d A" and "user_exists d B" and "A \<noteq> B"
    and "\<forall>e \<in> set (user_edge d). \<not> edge_between A B e"
  shows "\<exists>d1 d2.
           AddFriends None d A ts1 [B] = (None, d1, [B \<mapsto> False])
         \<and> AddFriends None d1 B ts2 [A] = (None, d2, [A \<mapsto> True])
         \<and> user_edge d1 = user_edge d @
               [\<lparr>source_id = A, destination_id = B, state = OutgoingRequest,
                  position = ts1, update_time = ts1\<rparr>,
                \<lparr>source_id = B, destination_id = A, state = Invited,
                  position = ts1, update_time = ts1\<rparr>]
         \<and> user_edge d2 = user_edge d @
               [\<lparr>source_id = A, destination_id = B, state = Accepted,
                  position = ts1, update_time = ts2\<rparr>,
                \<lparr>source_id = B, destination_id = A, state = Accepted,
                  position = ts1, update_time = ts2\<rparr>]
         \<and> users d1 = map (\<lambda>u. if users_id u = A \<or> users_id u = B
                                then u\<lparr>edge_count := edge_count u + 1, users_update_time := ts1\<rparr>
                                else u) (users d)
         \<and> users d2 = users d1"
proof -
  let ?n1 = "\<lparr>source_id = A, destination_id = B, state = 2, position = ts1, update_time = ts1\<rparr>"
  let ?n2 = "\<lparr>source_id = B, destination_id = A, state = 1, position = ts1, update_time = ts1\<rparr>"
  let ?d1 = "d\<lparr>user_edge := user_edge d @ [?n1, ?n2],
               users := map (\<lambda>u. if users_id u = A \<or> users_id u = B
                                then u\<lparr>edge_count := edge_count u + 1, users_update_time := ts1\<rparr>
                                else u) (users d)\<rparr>"
  let ?P = "\<lambda>r. (source_id r = A \<and> destination_id r = B \<and> state r = 2)
               \<or> (source_id r = B \<and> destination_id r = A \<and> state r = 1)"
  have first: "addFriend \<lparr>store = d, health = None\<rparr> A B ts1 = (False, None, \<lparr>store = ?d1, health = None\<rparr>)"
    using addFriend_fresh [OF assms(2-6)] by simp
  have fresh: "(A, B) \<notin> edge_key ` set (user_edge d)" "(B, A) \<notin> edge_key ` set (user_edge d)"
    using assms(6) by (auto simp: edge_between_def edge_key_def)
  have u1: "unique_edges (user_edge ?d1)"
    using assms(1,5) fresh by (simp add: unique_edges_def edge_key_def)
  have p1: "pending_invite (user_edge ?d1) A B"
    by (simp add: pending_invite_def)
  have old: "map (\<lambda>r. if ?P r then r\<lparr>state := 0, update_time := ts2\<rparr> else r) (user_edge d) = user_edge d"
    using assms(6) by (intro map_upd_id) (auto simp: edge_between_def)
  have second: "addFriend \<lparr>store = ?d1, health = None\<rparr> B A ts2
      = (True, None, \<lparr>store = ?d1\<lparr>user_edge :=
            map (\<lambda>r. if ?P r then r\<lparr>state := 0, update_time := ts2\<rparr> else r) (user_edge ?d1)\<rparr>,
          health = None\<rparr>)"
    using addFriend_accept [OF u1, of B A ts2] p1 by blast
  show ?thesis
    using assms(5) by (simp add: AddFriends_def Transact_def first second old)
qed

theorem accept_convergence_witness:
  "AddFriends None \<lparr>users = [\<lparr>users_id = 1, edge_count = 0, users_update_time = 0\<rparr>,
                            \<lparr>users_id = 2, edge_count = 0, users_update_time = 0\<rparr>],
                    user_edge = []\<rparr> 1 5 [2]
     = (None,
        \<lparr>users = [\<lparr>users_id = 1, edge_count = 1, users_update_time = 5\<rparr>,
                  \<lparr>users_id = 2, edge_count = 1, users_update_time = 5\<rparr>],
         user_edge = [\<lparr>source_id = 1, destination_id = 2, state = OutgoingRequest,
                       position = 5, update_time = 5\<rparr>,
                      \<lparr>source_id = 2, destination_id = 1, state = Invited,
                       position = 5, update_time = 5\<rparr>]\<rparr>,
        [2 \<mapsto> False])
   \<and> AddFriends None
        \<lparr>users = [\<lparr>users_id = 1, edge_count = 1, users_update_time = 5\<rparr>,
                  \<lparr>users_id = 2, edge_count = 1, users_update_time = 5\<rparr>],
         user_edge = [\<lparr>source_id = 1, destination_id = 2, state = OutgoingRequest,
                       position = 5, update_time = 5\<rparr>,
                      \<lparr>source_id = 2, destination_id = 1, state = Invited,
                       position = 5, update_time = 5\<rparr>]\<rparr> 2 6 [1]
     = (None,
        \<lparr>users = [\<lparr>users_id = 1, edge_count = 1, users_update_time = 5\<rparr>,
                  \<lparr>users_id = 2, edge_count = 1, users_update_time = 5\<rparr>],
         user_edge = [\<lparr>source_id = 1, destination_id = 2, state = Accepted,
                       position = 5, update_time = 6\<rparr>,
                      \<lparr>source_id = 2, destination_id = 1, state = Accepted,
                       position = 5, update_time = 6\<rparr>]\<rparr>,
        [1 \<mapsto> True])"
proof -
  let ?d = "\<lparr>users = [\<lparr>users_id = 1, edge_count = 0, users_update_time = 0\<rparr>,
                            \<lparr>users_id = 2, edge_count = 0, users_update_time = 0\<rparr>],
                    user_edge = []\<rparr>"
  have h: "unique_edges (user_edge ?d)" "unique_users (users ?d)" "user_exists ?d 1" "user_exists ?d 2"
    "(1::nat) \<noteq> 2" "\<forall>e \<in> set (user_edge ?d). \<not> edge_between 1 2 e"
    by (simp_all add: unique_edges_def unique_users_def user_exists_def)
  from accept_convergence [OF h, of 5 6] obtain d1 d2 where
    r: "AddFriends None ?d 1 5 [2] = (None, d1, [2 \<mapsto> False])"
       "AddFriends None d1 2 6 [1] = (None, d2, [1 \<mapsto> True])"
       "user_edge d1 = user_edge ?d @
               [\<lparr>source_id = 1, destination_id = 2, state = OutgoingRequest,
                  position = 5, update_time = 5\<rparr>,
                \<lparr>source_id = 2, destination_id = 1, state = Invited,
                  position = 5, update_time = 5\<rparr>]"
       "user_edge d2 = user_edge ?d @
               [\<lparr>source_id = 1, destination_id = 2, state = Accepted,
                  position = 5, update_time = 6\<rparr>,
                \<lparr>source_id = 2, destination_id = 1, state = Accepted,
                  position = 5, update_time = 6\<rparr>]"
       "users d1 = map (\<lambda>u. if users_id u = 1 \<or> users_id u = 2
                                then u\<lparr>edge_count := edge_count u + 1, users_update_time := 5\<rparr>
                                else u) (users ?d)"
       "users d2 = users d1"
    by blast
  have "d1 = \<lparr>users = [\<lparr>users_id = 1, edge_count = 1, users_update_time = 5\<rparr>,
                  \<lparr>users_id = 2, edge_count = 1, users_update_time = 5\<rparr>],
         user_edge = [\<lparr>source_id = 1, destination_id = 2, state = OutgoingRequest,
                       position = 5, update_time = 5\<rparr>,
                      \<lparr>source_id = 2, destination_id = 1, state = Invited,
                       position = 5, update_time = 5\<rparr>]\<rparr>"
    using r(3,5) by (intro db.equality) simp_all
  moreover have "d2 = \<lparr>users = [\<lparr>users_id = 1, edge_count = 1, users_update_time = 5\<rparr>,
                  \<lparr>users_id = 2, edge_count = 1, users_update_time = 5\<rparr>],
         user_edge = [\<lparr>source_id = 1, destination_id = 2, state = Accepted,
                       position = 5, update_time = 6\<rparr>,
                      \<lparr>source_id = 2, destination_id = 1, state = Accepted,
                       position = 5, update_time = 6\<rparr>]\<rparr>"
    using r(4,5,6) by (intro db.equality) simp_all
  ultimately show ?thesis
    using r(1,2) by simp
qed

section \<open>Deleting a relationship\<close>

text \<open>
  C5. On a store that answers every statement \<^verbatim>\<open>deleteFriend\<close> deletes every row
  between the actor and the target, whatever its state; \<open>n\<close> is the number of these rows. With no row the call returns no error
  and leaves the transaction as it was, so a batch that names the target twice leaves
  the tables as they were. With a number of rows that is neither zero nor two, one row
  in particular, it returns the error "unexpected number of edges were deleted" and the
  batch commits nothing. With two rows it takes one off the \<^verbatim>\<open>edge_count\<close> of both
  users in the same transaction.
\<close>

theorem deleteFriend_rows:
  "(let n = length (filter (edge_between actor target) (user_edge d));
        d1 = d\<lparr>user_edge := filter (\<lambda>e. \<not> edge_between actor target e) (user_edge d)\<rparr>;
        t = \<lparr>store = d, health = None\<rparr>
    in (n = 0 \<longrightarrow> deleteFriend t actor target ts = (None, t)
                  \<and> DeleteFriends None d actor ts [target, target] = (None, d))
     \<and> (n \<noteq> 0 \<and> n \<noteq> 2 \<longrightarrow>
           deleteFriend t actor target ts = (Some ErrUnexpectedEdges, \<lparr>store = d1, health = None\<rparr>)
         \<and> DeleteFriends None d actor ts (target # ids) = (Some ErrUnexpectedEdges, d))
     \<and> (n = 2 \<longrightarrow>
           deleteFriend t actor target ts
             = (None, \<lparr>store = d1\<lparr>users :=
                    map (\<lambda>u. if users_id u = actor \<or> users_id u = target
                             then u\<lparr>edge_count := edge_count u - 1, users_update_time := ts\<rparr>
                             else u) (users d)\<rparr>,
                  health = None\<rparr>)
         \<and> DeleteFriends None d actor ts [target]
             = (None, d1\<lparr>users :=
                    map (\<lambda>u. if users_id u = actor \<or> users_id u = target
                             then u\<lparr>edge_count := edge_count u - 1, users_update_time := ts\<rparr>
                             else u) (users d)\<rparr>)))"
proof -
  let ?n = "length (filter (edge_between actor target) (user_edge d))"
  let ?d1 = "d\<lparr>user_edge := filter (\<lambda>e. \<not> edge_between actor target e) (user_edge d)\<rparr>"
  have b: "edge_between actor target = (\<lambda>e. (source_id e = actor \<and> destination_id e = target)
                        \<or> (source_id e = target \<and> destination_id e = actor))"
    by (rule ext) (simp add: edge_between_def)
  have q: "q_delete_pair actor target d = Some (?n, ?d1)"
    unfolding q_delete_pair_def delete_user_edge_def b by (rule refl)
  have same: "?d1 = d" if "?n = 0"
  proof -
    from that have "\<forall>e \<in> set (user_edge d). \<not> edge_between actor target e"
      by (simp add: filter_empty_conv)
    then have "filter (\<lambda>e. \<not> edge_between actor target e) (user_edge d) = user_edge d"
      by simp
    then show ?thesis
      by simp
  qed
  have z: "deleteFriend \<lparr>store = d, health = None\<rparr> actor target ts = (None, \<lparr>store = d, health = None\<rparr>)"
    if "?n = 0"
    using that same by (simp add: deleteFriend_def Exec_healthy q)
  have o: "deleteFriend \<lparr>store = d, health = None\<rparr> actor target ts
            = (Some ErrUnexpectedEdges, \<lparr>store = ?d1, health = None\<rparr>)"
    if "?n \<noteq> 0" "?n \<noteq> 2"
    using that by (simp add: deleteFriend_def Exec_healthy q)
  have t: "deleteFriend \<lparr>store = d, health = None\<rparr> actor target ts
             = (None, \<lparr>store = ?d1\<lparr>users :=
                    map (\<lambda>u. if users_id u = actor \<or> users_id u = target
                             then u\<lparr>edge_count := edge_count u - 1, users_update_time := ts\<rparr>
                             else u) (users d)\<rparr>,
                  health = None\<rparr>)"
    if "?n = 2"
    using that by (simp add: deleteFriend_def Exec_healthy q q_count_down_pair_def update_users_def)
  show ?thesis
    unfolding Let_def
    by (intro conjI impI) (simp_all add: z o t DeleteFriends_def Transact_def)
qed

theorem deleteFriend_rows_witness:
  "DeleteFriends None \<lparr>users = [\<lparr>users_id = 1, edge_count = 0, users_update_time = 0\<rparr>],
                       user_edge = []\<rparr> 1 7 [2, 2]
     = (None, \<lparr>users = [\<lparr>users_id = 1, edge_count = 0, users_update_time = 0\<rparr>], user_edge = []\<rparr>)
   \<and> DeleteFriends None
        \<lparr>users = [\<lparr>users_id = 1, edge_count = 1, users_update_time = 0\<rparr>,
                  \<lparr>users_id = 2, edge_count = 0, users_update_time = 0\<rparr>],
         user_edge = [\<lparr>source_id = 1, destination_id = 2, state = Blocked,
                       position = 3, update_time = 3\<rparr>]\<rparr> 1 7 [2]
     = (Some ErrUnexpectedEdges,
        \<lparr>users = [\<lparr>users_id = 1, edge_count = 1, users_update_time = 0\<rparr>,
                  \<lparr>users_id = 2, edge_count = 0, users_update_time = 0\<rparr>],
         user_edge = [\<lparr>source_id = 1, destination_id = 2, state = Blocked,
                       position = 3, update_time = 3\<rparr>]\<rparr>)
   \<and> DeleteFriends None
        \<lparr>users = [\<lparr>users_id = 1, edge_count = 1, users_update_time = 3\<rparr>,
                  \<lparr>users_id = 2, edge_count = 1, users_update_time = 3\<rparr>],
         user_edge = [\<lparr>source_id = 1, destination_id = 2, state = OutgoingRequest,
                       position = 3, update_time = 3\<rparr>,
                      \<lparr>source_id = 2, destination_id = 1, state = Invited,
                       position = 3, update_time = 3\<rparr>]\<rparr> 1 7 [2]
     = (None,
        \<lparr>users = [\<lparr>users_id = 1, edge_count = 0, users_update_time = 7\<rparr>,
                  \<lparr>users_id = 2, edge_count = 0, users_update_time = 7\<rparr>],
         user_edge = []\<rparr>)"
  using deleteFriend_rows
      [of 1 2 "\<lparr>users = [\<lparr>users_id = 1, edge_count = 0, users_update_time = 0\<rparr>],
                user_edge = []\<rparr>" 7 "[]"]
    deleteFriend_rows
      [of 1 2 "\<lparr>users = [\<lparr>users_id = 1, edge_count = 1, users_update_time = 0\<rparr>,
                  \<lparr>users_id = 2, edge_count = 0, users_update_time = 0\<rparr>],
         user_edge = [\<lparr>source_id = 1, destination_id = 2, state = Blocked,
                       position = 3, update_time = 3\<rparr>]\<rparr>" 7 "[]"]
    deleteFriend_rows
      [of 1 2 "\<lparr>users = [\<lparr>users_id = 1, edge_count = 1, users_update_time = 3\<rparr>,
                  \<lparr>users_id = 2, edge_count = 1, users_update_time = 3\<rparr>],
         user_edge = [\<lparr>source_id = 1, destination_id = 2, state = OutgoingRequest,
                       position = 3, update_time = 3\<rparr>,
                      \<lparr>source_id = 2, destination_id = 1, state = Invited,
                       position = 3, update_time = 3\<rparr>]\<rparr>" 7 "[]"]
  by (simp add: edge_between_def Let_def)



section \<open>The sources of rows\<close>

text \<open>
  No statement of the engine changes the ids of \<^verbatim>\<open>users\<close>, and every statement, given
  a caller that is a user, leaves every row of \<^verbatim>\<open>user_edge\<close> with a user as its
  source. So do the three calls, on any store, and so does every sequence of requests
  whose callers are users.
\<close>

lemma keeps_delete:
  "caller_inv a d \<Longrightarrow> delete_user_edge p d = Some (n, d') \<Longrightarrow> caller_inv a d'"
  by (auto simp: caller_inv_def sources_are_users_def delete_user_edge_def user_exists_def)

lemma keeps_update_edge:
  "caller_inv a d \<Longrightarrow> update_user_edge p f d = Some (n, d') \<Longrightarrow>
   (\<And>r. source_id (f r) = source_id r) \<Longrightarrow> caller_inv a d'"
  by (auto simp: caller_inv_def sources_are_users_def update_user_edge_def user_exists_def)

lemma user_exists_alt: "user_exists d x = (x \<in> set (map users_id (users d)))"
  by (auto simp: user_exists_def)

lemma keeps_update_users:
  assumes "caller_inv a d" and "update_users p f d = Some (n, d')"
    and "\<And>r. users_id (f r) = users_id r"
  shows "caller_inv a d'"
proof -
  have d': "d' = d\<lparr>users := map (\<lambda>r. if p d r then f r else r) (users d)\<rparr>"
    using assms(2) by (simp add: update_users_def)
  have m: "map users_id (users d') = map users_id (users d)"
    by (simp add: d' assms(3))
  have u: "user_exists d' x = user_exists d x" for x
    unfolding user_exists_alt m by (rule refl)
  have e: "user_edge d' = user_edge d"
    by (simp add: d')
  show ?thesis
    using assms(1) unfolding caller_inv_def sources_are_users_def u e .
qed

lemma snd_case_Suc: "snd (case p of (n, r) \<Rightarrow> (Suc n, r)) = snd p"
  by (cases p) simp

lemma insert_do_nothing_set:
  "set (snd (insert_do_nothing vs rows)) \<subseteq> set vs \<union> set rows"
proof (induction vs arbitrary: rows)
  case Nil
  then show ?case by simp
next
  case (Cons v vs)
  show ?case
  proof (cases "conflicts v rows")
    case True
    then show ?thesis
      using Cons.IH [of rows] by auto
  next
    case False
    then have "snd (insert_do_nothing (v # vs) rows) = snd (insert_do_nothing vs (rows @ [v]))"
      by (simp add: snd_case_Suc)
    then show ?thesis
      using Cons.IH [of "rows @ [v]"] by auto
  qed
qed

lemma insert_plain_set:
  "insert_plain vs rows = Some (n, rows') \<Longrightarrow> set rows' \<subseteq> set vs \<union> set rows"
proof (induction vs arbitrary: rows n)
  case Nil
  then show ?case by simp
next
  case (Cons v vs)
  from Cons.prems obtain m where "insert_plain vs (rows @ [v]) = Some (m, rows')"
    by (auto split: if_splits option.splits)
  from Cons.IH [OF this] show ?case
    by auto
qed

lemma keeps_invite:
  assumes "caller_inv a d" and "q_invite a b ts d = Some (n, d')"
  shows "caller_inv a d'"
proof -
  define vals where "vals = (if user_exists d b
                  then [\<lparr>source_id = a, destination_id = b, state = 2, position = ts, update_time = ts\<rparr>,
                        \<lparr>source_id = b, destination_id = a, state = 1, position = ts, update_time = ts\<rparr>]
                  else [])"
  have "q_invite a b ts d = Some (fst (insert_do_nothing vals (user_edge d)),
                                  d\<lparr>user_edge := snd (insert_do_nothing vals (user_edge d))\<rparr>)"
    unfolding q_invite_def Let_def vals_def by (simp only: split_beta)
  with assms(2) have d': "d' = d\<lparr>user_edge := snd (insert_do_nothing vals (user_edge d))\<rparr>"
    by simp
  have v: "\<forall>e \<in> set vals. user_exists d (source_id e)"
    using assms(1) by (auto simp: caller_inv_def vals_def)
  have u: "user_exists d' x = user_exists d x" for x
    by (simp add: d' user_exists_def)
  have s: "set (user_edge d') \<subseteq> set vals \<union> set (user_edge d)"
    using insert_do_nothing_set [of vals "user_edge d"] by (simp add: d')
  show ?thesis
    using assms(1) v s unfolding caller_inv_def sources_are_users_def u by blast
qed

lemma keeps_insert_block:
  assumes "caller_inv a d" and "q_insert_block a b ts d = Some (n, d')"
  shows "caller_inv a d'"
proof -
  define vals where "vals = (if user_exists d b
                  then [\<lparr>source_id = a, destination_id = b, state = 3, position = ts, update_time = ts\<rparr>]
                  else [])"
  from assms(2) obtain rows where r: "insert_plain vals (user_edge d) = Some (n, rows)"
      and d': "d' = d\<lparr>user_edge := rows\<rparr>"
    unfolding q_insert_block_def Let_def vals_def [symmetric]
    by (auto split: option.splits)
  have v: "\<forall>e \<in> set vals. user_exists d (source_id e)"
    using assms(1) by (auto simp: caller_inv_def vals_def)
  have u: "user_exists d' x = user_exists d x" for x
    by (simp add: d' user_exists_def)
  have s: "set (user_edge d') \<subseteq> set vals \<union> set (user_edge d)"
    using insert_plain_set [OF r] by (simp add: d')
  show ?thesis
    using assms(1) v s unfolding caller_inv_def sources_are_users_def u by blast
qed

lemma Exec_keeps:
  assumes "Exec stmt t = (n, e, t')" and "caller_inv a (store t)"
    and "\<And>d n d'. caller_inv a d \<Longrightarrow> stmt d = Some (n, d') \<Longrightarrow> caller_inv a d'"
  shows "caller_inv a (store t')"
  using assms by (auto simp: Exec_def split: if_splits option.splits)

lemma keeps_stmts:
  assumes "caller_inv a (store t)"
  shows "Exec (q_unblock x y) t = (n, e, t') \<Longrightarrow> caller_inv a (store t')"
    and "Exec (q_count_down x ts) t = (n, e, t') \<Longrightarrow> caller_inv a (store t')"
    and "Exec (q_count_up x ts) t = (n, e, t') \<Longrightarrow> caller_inv a (store t')"
    and "Exec (q_accept x y ts) t = (n, e, t') \<Longrightarrow> caller_inv a (store t')"
    and "Exec (q_invite a y ts) t = (n, e, t') \<Longrightarrow> caller_inv a (store t')"
    and "Exec (q_count_pair x y ts) t = (n, e, t') \<Longrightarrow> caller_inv a (store t')"
    and "Exec (q_delete_pair x y) t = (n, e, t') \<Longrightarrow> caller_inv a (store t')"
    and "Exec (q_count_down_pair x y ts) t = (n, e, t') \<Longrightarrow> caller_inv a (store t')"
    and "Exec (q_block x y ts) t = (n, e, t') \<Longrightarrow> caller_inv a (store t')"
    and "Exec (q_insert_block a y ts) t = (n, e, t') \<Longrightarrow> caller_inv a (store t')"
    and "Exec (q_delete_unblocked x y) t = (n, e, t') \<Longrightarrow> caller_inv a (store t')"
proof -
  show "Exec (q_unblock x y) t = (n, e, t') \<Longrightarrow> caller_inv a (store t')"
    unfolding q_unblock_def by (erule Exec_keeps [OF _ assms]) (rule keeps_delete)
  show "Exec (q_delete_pair x y) t = (n, e, t') \<Longrightarrow> caller_inv a (store t')"
    unfolding q_delete_pair_def by (erule Exec_keeps [OF _ assms]) (rule keeps_delete)
  show "Exec (q_delete_unblocked x y) t = (n, e, t') \<Longrightarrow> caller_inv a (store t')"
    unfolding q_delete_unblocked_def by (erule Exec_keeps [OF _ assms]) (rule keeps_delete)
  show "Exec (q_count_down x ts) t = (n, e, t') \<Longrightarrow> caller_inv a (store t')"
    unfolding q_count_down_def by (erule Exec_keeps [OF _ assms]) (erule (1) keeps_update_users, simp)
  show "Exec (q_count_up x ts) t = (n, e, t') \<Longrightarrow> caller_inv a (store t')"
    unfolding q_count_up_def by (erule Exec_keeps [OF _ assms]) (erule (1) keeps_update_users, simp)
  show "Exec (q_count_pair x y ts) t = (n, e, t') \<Longrightarrow> caller_inv a (store t')"
    unfolding q_count_pair_def by (erule Exec_keeps [OF _ assms]) (erule (1) keeps_update_users, simp)
  show "Exec (q_count_down_pair x y ts) t = (n, e, t') \<Longrightarrow> caller_inv a (store t')"
    unfolding q_count_down_pair_def by (erule Exec_keeps [OF _ assms]) (erule (1) keeps_update_users, simp)
  show "Exec (q_accept x y ts) t = (n, e, t') \<Longrightarrow> caller_inv a (store t')"
    unfolding q_accept_def by (erule Exec_keeps [OF _ assms]) (erule (1) keeps_update_edge, simp)
  show "Exec (q_block x y ts) t = (n, e, t') \<Longrightarrow> caller_inv a (store t')"
    unfolding q_block_def by (erule Exec_keeps [OF _ assms]) (erule (1) keeps_update_edge, simp)
  show "Exec (q_invite a y ts) t = (n, e, t') \<Longrightarrow> caller_inv a (store t')"
    by (erule Exec_keeps [OF _ assms]) (rule keeps_invite)
  show "Exec (q_insert_block a y ts) t = (n, e, t') \<Longrightarrow> caller_inv a (store t')"
    by (erule Exec_keeps [OF _ assms]) (rule keeps_insert_block)
qed

lemma addFriend_keeps_sources:
  assumes "caller_inv a (store t)"
  shows "caller_inv a (store (snd (snd (addFriend t a b ts))))"
proof -
  obtain n1 e1 t1 where x1: "Exec (q_unblock a b) t = (n1, e1, t1)" by (metis prod_cases3)
  note j1 = keeps_stmts(1) [OF assms x1]
  obtain n2 e2 t2 where x2: "Exec (q_count_down a ts) t1 = (n2, e2, t2)" by (metis prod_cases3)
  note j2 = keeps_stmts(2) [OF j1 x2]
  obtain n3 e3 t3 where x3: "Exec (q_accept b a ts) t1 = (n3, e3, t3)" by (metis prod_cases3)
  note j3 = keeps_stmts(4) [OF j1 x3]
  obtain n4 e4 t4 where x4: "Exec (q_invite a b ts) t3 = (n4, e4, t4)" by (metis prod_cases3)
  note j4 = keeps_stmts(5) [OF j3 x4]
  obtain n5 e5 t5 where x5: "Exec (q_count_pair a b ts) t4 = (n5, e5, t5)" by (metis prod_cases3)
  note j5 = keeps_stmts(6) [OF j4 x5]
  show ?thesis
    by (simp add: addFriend_def x1 x2 x3 x4 x5 j1 j2 j3 j4 j5)
qed

lemma deleteFriend_keeps_sources:
  assumes "caller_inv a (store t)"
  shows "caller_inv a (store (snd (deleteFriend t a b ts)))"
proof -
  obtain n1 e1 t1 where x1: "Exec (q_delete_pair a b) t = (n1, e1, t1)" by (metis prod_cases3)
  note j1 = keeps_stmts(7) [OF assms x1]
  obtain n2 e2 t2 where x2: "Exec (q_count_down_pair a b ts) t1 = (n2, e2, t2)" by (metis prod_cases3)
  note j2 = keeps_stmts(8) [OF j1 x2]
  show ?thesis
    by (simp add: deleteFriend_def x1 x2 j1 j2)
qed

lemma blockFriend_opposite_keeps_sources:
  assumes "caller_inv a (store t)"
  shows "caller_inv a (store (snd (blockFriend_opposite t a b ts)))"
proof -
  obtain n1 e1 t1 where x1: "Exec (q_delete_unblocked b a) t = (n1, e1, t1)" by (metis prod_cases3)
  note j1 = keeps_stmts(11) [OF assms x1]
  obtain n2 e2 t2 where x2: "Exec (q_count_down b ts) t1 = (n2, e2, t2)" by (metis prod_cases3)
  note j2 = keeps_stmts(2) [OF j1 x2]
  show ?thesis
    by (simp add: blockFriend_opposite_def x1 x2 j1 j2)
qed

lemma blockFriend_keeps_sources:
  assumes "caller_inv a (store t)"
  shows "caller_inv a (store (snd (blockFriend t a b ts)))"
proof -
  obtain n1 e1 t1 where x1: "Exec (q_block a b ts) t = (n1, e1, t1)" by (metis prod_cases3)
  note j1 = keeps_stmts(9) [OF assms x1]
  obtain n2 e2 t2 where x2: "Exec (q_insert_block a b ts) t1 = (n2, e2, t2)" by (metis prod_cases3)
  note j2 = keeps_stmts(10) [OF j1 x2]
  obtain n3 e3 t3 where x3: "Exec (q_count_up a ts) t2 = (n3, e3, t3)" by (metis prod_cases3)
  note j3 = keeps_stmts(3) [OF j2 x3]
  show ?thesis
    by (simp add: blockFriend_def x1 x2 x3 j1 j2 j3 blockFriend_opposite_keeps_sources)
qed


lemma Exec_ids:
  assumes "Exec stmt t = (n, e, t')"
    and "\<And>d n d'. stmt d = Some (n, d') \<Longrightarrow> map users_id (users d') = map users_id (users d)"
  shows "map users_id (users (store t')) = map users_id (users (store t))"
  using assms by (auto simp: Exec_def split: if_splits option.splits)

lemma update_users_ids:
  "update_users p f d = Some (n, d') \<Longrightarrow> (\<And>r. users_id (f r) = users_id r) \<Longrightarrow>
   map users_id (users d') = map users_id (users d)"
  by (auto simp: update_users_def)

lemma stmt_ids:
  "Exec (q_unblock x y) t = (n, e, t') \<Longrightarrow> map users_id (users (store t')) = map users_id (users (store t))"
  "Exec (q_count_down x ts) t = (n, e, t') \<Longrightarrow> map users_id (users (store t')) = map users_id (users (store t))"
  "Exec (q_count_up x ts) t = (n, e, t') \<Longrightarrow> map users_id (users (store t')) = map users_id (users (store t))"
  "Exec (q_accept x y ts) t = (n, e, t') \<Longrightarrow> map users_id (users (store t')) = map users_id (users (store t))"
  "Exec (q_invite x y ts) t = (n, e, t') \<Longrightarrow> map users_id (users (store t')) = map users_id (users (store t))"
  "Exec (q_count_pair x y ts) t = (n, e, t') \<Longrightarrow> map users_id (users (store t')) = map users_id (users (store t))"
  "Exec (q_delete_pair x y) t = (n, e, t') \<Longrightarrow> map users_id (users (store t')) = map users_id (users (store t))"
  "Exec (q_count_down_pair x y ts) t = (n, e, t') \<Longrightarrow> map users_id (users (store t')) = map users_id (users (store t))"
  "Exec (q_block x y ts) t = (n, e, t') \<Longrightarrow> map users_id (users (store t')) = map users_id (users (store t))"
  "Exec (q_insert_block x y ts) t = (n, e, t') \<Longrightarrow> map users_id (users (store t')) = map users_id (users (store t))"
  "Exec (q_delete_unblocked x y) t = (n, e, t') \<Longrightarrow> map users_id (users (store t')) = map users_id (users (store t))"
proof -
  show "Exec (q_unblock x y) t = (n, e, t') \<Longrightarrow> map users_id (users (store t')) = map users_id (users (store t))"
    by (erule Exec_ids) (auto simp: q_unblock_def delete_user_edge_def)
  show "Exec (q_delete_pair x y) t = (n, e, t') \<Longrightarrow> map users_id (users (store t')) = map users_id (users (store t))"
    by (erule Exec_ids) (auto simp: q_delete_pair_def delete_user_edge_def)
  show "Exec (q_delete_unblocked x y) t = (n, e, t') \<Longrightarrow> map users_id (users (store t')) = map users_id (users (store t))"
    by (erule Exec_ids) (auto simp: q_delete_unblocked_def delete_user_edge_def)
  show "Exec (q_accept x y ts) t = (n, e, t') \<Longrightarrow> map users_id (users (store t')) = map users_id (users (store t))"
    by (erule Exec_ids) (auto simp: q_accept_def update_user_edge_def)
  show "Exec (q_block x y ts) t = (n, e, t') \<Longrightarrow> map users_id (users (store t')) = map users_id (users (store t))"
    by (erule Exec_ids) (auto simp: q_block_def update_user_edge_def)
  show "Exec (q_count_down x ts) t = (n, e, t') \<Longrightarrow> map users_id (users (store t')) = map users_id (users (store t))"
    unfolding q_count_down_def by (erule Exec_ids) (erule update_users_ids, simp)
  show "Exec (q_count_up x ts) t = (n, e, t') \<Longrightarrow> map users_id (users (store t')) = map users_id (users (store t))"
    unfolding q_count_up_def by (erule Exec_ids) (erule update_users_ids, simp)
  show "Exec (q_count_pair x y ts) t = (n, e, t') \<Longrightarrow> map users_id (users (store t')) = map users_id (users (store t))"
    unfolding q_count_pair_def by (erule Exec_ids) (erule update_users_ids, simp)
  show "Exec (q_count_down_pair x y ts) t = (n, e, t') \<Longrightarrow> map users_id (users (store t')) = map users_id (users (store t))"
    unfolding q_count_down_pair_def by (erule Exec_ids) (erule update_users_ids, simp)
  show "Exec (q_invite x y ts) t = (n, e, t') \<Longrightarrow> map users_id (users (store t')) = map users_id (users (store t))"
    by (erule Exec_ids) (auto simp: q_invite_def Let_def split_beta)
  show "Exec (q_insert_block x y ts) t = (n, e, t') \<Longrightarrow> map users_id (users (store t')) = map users_id (users (store t))"
    by (erule Exec_ids) (auto simp: q_insert_block_def Let_def split: option.splits)
qed

lemma addFriend_ids:
  "map users_id (users (store (snd (snd (addFriend t a b ts))))) = map users_id (users (store t))"
proof -
  obtain n1 e1 t1 where x1: "Exec (q_unblock a b) t = (n1, e1, t1)" by (metis prod_cases3)
  obtain n2 e2 t2 where x2: "Exec (q_count_down a ts) t1 = (n2, e2, t2)" by (metis prod_cases3)
  obtain n3 e3 t3 where x3: "Exec (q_accept b a ts) t1 = (n3, e3, t3)" by (metis prod_cases3)
  obtain n4 e4 t4 where x4: "Exec (q_invite a b ts) t3 = (n4, e4, t4)" by (metis prod_cases3)
  obtain n5 e5 t5 where x5: "Exec (q_count_pair a b ts) t4 = (n5, e5, t5)" by (metis prod_cases3)
  show ?thesis
    by (simp add: addFriend_def x1 x2 x3 x4 x5
        stmt_ids(1) [OF x1] stmt_ids(2) [OF x2] stmt_ids(4) [OF x3] stmt_ids(5) [OF x4] stmt_ids(6) [OF x5])
qed

lemma deleteFriend_ids:
  "map users_id (users (store (snd (deleteFriend t a b ts)))) = map users_id (users (store t))"
proof -
  obtain n1 e1 t1 where x1: "Exec (q_delete_pair a b) t = (n1, e1, t1)" by (metis prod_cases3)
  obtain n2 e2 t2 where x2: "Exec (q_count_down_pair a b ts) t1 = (n2, e2, t2)" by (metis prod_cases3)
  show ?thesis
    by (simp add: deleteFriend_def x1 x2 stmt_ids(7) [OF x1] stmt_ids(8) [OF x2])
qed

lemma blockFriend_opposite_ids:
  "map users_id (users (store (snd (blockFriend_opposite t a b ts)))) = map users_id (users (store t))"
proof -
  obtain n1 e1 t1 where x1: "Exec (q_delete_unblocked b a) t = (n1, e1, t1)" by (metis prod_cases3)
  obtain n2 e2 t2 where x2: "Exec (q_count_down b ts) t1 = (n2, e2, t2)" by (metis prod_cases3)
  show ?thesis
    by (simp add: blockFriend_opposite_def x1 x2 stmt_ids(11) [OF x1] stmt_ids(2) [OF x2])
qed

lemma blockFriend_ids:
  "map users_id (users (store (snd (blockFriend t a b ts)))) = map users_id (users (store t))"
proof -
  obtain n1 e1 t1 where x1: "Exec (q_block a b ts) t = (n1, e1, t1)" by (metis prod_cases3)
  obtain n2 e2 t2 where x2: "Exec (q_insert_block a b ts) t1 = (n2, e2, t2)" by (metis prod_cases3)
  obtain n3 e3 t3 where x3: "Exec (q_count_up a ts) t2 = (n3, e3, t3)" by (metis prod_cases3)
  show ?thesis
    by (simp add: blockFriend_def x1 x2 x3 blockFriend_opposite_ids
        stmt_ids(9) [OF x1] stmt_ids(10) [OF x2] stmt_ids(3) [OF x3])
qed

lemma step_ids: "map users_id (users (step d r)) = map users_id (users d)"
proof -
  obtain h ts c where r: "r = (h, ts, c)" by (metis prod_cases3)
  show ?thesis
  proof (cases c)
    case (AddFriend a b)
    obtain x e t' where x: "addFriend \<lparr>store = d, health = h\<rparr> a b ts = (x, e, t')"
      by (metis prod_cases3)
    have "map users_id (users (store t')) = map users_id (users d)"
      using addFriend_ids [of "\<lparr>store = d, health = h\<rparr>" a b ts] by (simp add: x)
    then show ?thesis
      by (auto simp: r AddFriend AddFriends_def Transact_def x split: option.splits prod.splits if_splits)
  next
    case (DeleteFriend a b)
    obtain e t' where x: "deleteFriend \<lparr>store = d, health = h\<rparr> a b ts = (e, t')"
      by (metis prod.exhaust)
    have "map users_id (users (store t')) = map users_id (users d)"
      using deleteFriend_ids [of "\<lparr>store = d, health = h\<rparr>" a b ts] by (simp add: x)
    then show ?thesis
      by (auto simp: r DeleteFriend DeleteFriends_def Transact_def x split: option.splits prod.splits if_splits)
  next
    case (BlockFriend a b)
    obtain e t' where x: "blockFriend \<lparr>store = d, health = h\<rparr> a b ts = (e, t')"
      by (metis prod.exhaust)
    have "map users_id (users (store t')) = map users_id (users d)"
      using blockFriend_ids [of "\<lparr>store = d, health = h\<rparr>" a b ts] by (simp add: x)
    then show ?thesis
      by (auto simp: r BlockFriend BlockFriends_def Transact_def x split: option.splits prod.splits if_splits)
  qed
qed

lemma step_user_exists: "user_exists (step d r) x = user_exists d x"
  unfolding user_exists_alt step_ids by (rule refl)

lemma step_keeps_sources:
  assumes "sources_are_users d"
    and "user_exists d (actor_of c)"
  shows "sources_are_users (step d (h, ts, c))"
proof (cases c)
  case (AddFriend a b)
  then have j: "caller_inv a (store \<lparr>store = d, health = h\<rparr>)"
    using assms by (simp add: caller_inv_def)
  obtain r e t' where x: "addFriend \<lparr>store = d, health = h\<rparr> a b ts = (r, e, t')"
    by (metis prod_cases3)
  have "caller_inv a (store t')"
    using addFriend_keeps_sources [OF j, of b ts] by (simp add: x)
  then show ?thesis
    using assms(1)
    by (auto simp: AddFriend AddFriends_def Transact_def x caller_inv_def
        split: option.splits prod.splits if_splits)
next
  case (DeleteFriend a b)
  then have j: "caller_inv a (store \<lparr>store = d, health = h\<rparr>)"
    using assms by (simp add: caller_inv_def)
  obtain e t' where x: "deleteFriend \<lparr>store = d, health = h\<rparr> a b ts = (e, t')"
    by (metis prod.exhaust)
  have "caller_inv a (store t')"
    using deleteFriend_keeps_sources [OF j, of b ts] by (simp add: x)
  then show ?thesis
    using assms(1)
    by (auto simp: DeleteFriend DeleteFriends_def Transact_def x caller_inv_def
        split: option.splits prod.splits if_splits)
next
  case (BlockFriend a b)
  then have j: "caller_inv a (store \<lparr>store = d, health = h\<rparr>)"
    using assms by (simp add: caller_inv_def)
  obtain e t' where x: "blockFriend \<lparr>store = d, health = h\<rparr> a b ts = (e, t')"
    by (metis prod.exhaust)
  have "caller_inv a (store t')"
    using blockFriend_keeps_sources [OF j, of b ts] by (simp add: x)
  then show ?thesis
    using assms(1)
    by (auto simp: BlockFriend BlockFriends_def Transact_def x caller_inv_def
        split: option.splits prod.splits if_splits)
qed


lemma run_keeps_sources:
  "sources_are_users d \<Longrightarrow> \<forall>r \<in> set rs. user_exists d (actor_of (snd (snd r))) \<Longrightarrow>
   sources_are_users (run d rs)"
proof (induction rs arbitrary: d)
  case Nil
  then show ?case by simp
next
  case (Cons r rs)
  obtain h ts c where r: "r = (h, ts, c)" by (metis prod_cases3)
  have a: "user_exists d (actor_of c)"
    using Cons.prems(2) by (simp add: r)
  have "sources_are_users (step d r)"
    unfolding r using Cons.prems(1) a by (rule step_keeps_sources)
  moreover have "\<forall>q \<in> set rs. user_exists (step d r) (actor_of (snd (snd q)))"
    using Cons.prems(2) by (simp add: step_user_exists)
  ultimately show ?case
    using Cons.IH by simp
qed

section \<open>Blocking a user\<close>

lemma blockFriend_opposite_healthy:
  assumes "unique_edges (user_edge d)"
  shows "blockFriend_opposite \<lparr>store = d, health = None\<rparr> actor target ts
         = (None,
            \<lparr>store = d\<lparr>user_edge :=
                          filter (\<lambda>r. \<not> (source_id r = target \<and> destination_id r = actor \<and> state r \<noteq> Blocked))
                            (user_edge d),
                        users :=
                          (if \<exists>r \<in> set (user_edge d).
                                source_id r = target \<and> destination_id r = actor \<and> state r \<noteq> Blocked
                           then map (\<lambda>u. if users_id u = target
                                         then u\<lparr>edge_count := edge_count u - 1, users_update_time := ts\<rparr>
                                         else u) (users d)
                           else users d)\<rparr>,
             health = None\<rparr>)"
proof -
  let ?opp = "\<lambda>r. source_id r = target \<and> destination_id r = actor \<and> state r \<noteq> 3"
  let ?m = "length (filter ?opp (user_edge d))"
  have q: "q_delete_unblocked target actor d
           = Some (?m, d\<lparr>user_edge := filter (\<lambda>r. \<not> ?opp r) (user_edge d)\<rparr>)"
    unfolding q_delete_unblocked_def delete_user_edge_def by (rule refl)
  have m: "(\<exists>r \<in> set (user_edge d). ?opp r) \<longleftrightarrow> ?m = 1"
    by (rule ex_edge_count [OF assms])
  show ?thesis
  proof (cases "\<exists>r \<in> set (user_edge d). ?opp r")
    case True
    with m have "?m = 1" by simp
    with True show ?thesis
      by (simp add: blockFriend_opposite_def Exec_healthy q q_count_down_def update_users_def
          del: bex_simps)
  next
    case False
    with m have "?m \<noteq> 1" by simp
    with False show ?thesis
      by (simp add: blockFriend_opposite_def Exec_healthy q del: bex_simps)
  qed
qed

lemma blockFriend_healthy:
  assumes "unique_edges (user_edge d)"
  shows "(let own = (\<lambda>r. source_id r = actor \<and> destination_id r = target);
              opp = (\<lambda>r. source_id r = target \<and> destination_id r = actor \<and> state r \<noteq> Blocked);
              finish = (\<lambda>d1. (None,
                 \<lparr>store = d1\<lparr>user_edge := filter (\<lambda>r. \<not> opp r) (user_edge d1),
                              users := (if \<exists>r \<in> set (user_edge d1). opp r
                                        then map (\<lambda>u. if users_id u = target
                                                      then u\<lparr>edge_count := edge_count u - 1,
                                                             users_update_time := ts\<rparr>
                                                      else u) (users d1)
                                        else users d1)\<rparr>,
                  health = None\<rparr>))
          in blockFriend \<lparr>store = d, health = None\<rparr> actor target ts =
             (if \<exists>r \<in> set (user_edge d). own r
              then finish (d\<lparr>user_edge := map (\<lambda>r. if own r then r\<lparr>state := Blocked, update_time := ts\<rparr>
                                                   else r) (user_edge d)\<rparr>)
              else if user_exists d target
              then finish (d\<lparr>user_edge := user_edge d @
                                [\<lparr>source_id = actor, destination_id = target, state = Blocked,
                                   position = ts, update_time = ts\<rparr>],
                              users := map (\<lambda>u. if users_id u = actor
                                                then u\<lparr>edge_count := edge_count u + 1,
                                                       users_update_time := ts\<rparr>
                                                else u) (users d)\<rparr>)
              else (None, \<lparr>store = d, health = None\<rparr>)))"
proof (cases "\<exists>r \<in> set (user_edge d). source_id r = actor \<and> destination_id r = target")
  case True
  let ?d1 = "d\<lparr>user_edge := map (\<lambda>r. if source_id r = actor \<and> destination_id r = target
                                     then r\<lparr>state := 3, update_time := ts\<rparr> else r) (user_edge d)\<rparr>"
  have n: "length (filter (\<lambda>r. source_id r = actor \<and> destination_id r = target) (user_edge d)) \<noteq> 0"
    using True by (simp add: filter_empty_conv)
  have u: "unique_edges (user_edge ?d1)"
    using assms by (simp add: unique_edges_map_upd edge_key_def)
  show ?thesis
    using True n
    by (simp add: blockFriend_def Exec_healthy q_block_eq blockFriend_opposite_healthy [OF u]
        del: bex_simps)
next
  case False
  show ?thesis
  proof (cases "user_exists d target")
    case True
    let ?d1 = "d\<lparr>user_edge := user_edge d @
                    [\<lparr>source_id = actor, destination_id = target, state = 3,
                       position = ts, update_time = ts\<rparr>]\<rparr>"
    let ?d2 = "d\<lparr>user_edge := user_edge d @
                    [\<lparr>source_id = actor, destination_id = target, state = 3,
                       position = ts, update_time = ts\<rparr>],
                  users := map (\<lambda>u. if users_id u = actor
                                                then u\<lparr>edge_count := edge_count u + 1,
                                                       users_update_time := ts\<rparr>
                                                else u) (users d)\<rparr>"
    have u: "unique_edges (user_edge ?d2)"
      using assms False by (auto simp: unique_edges_snoc conflicts_def edge_key_def)
    have c: "q_count_up actor ts ?d1 = Some (length (filter (\<lambda>u. users_id u = actor) (users d)), ?d2)"
      by (simp add: q_count_up_def update_users_def)
    show ?thesis
      using False True
      by (simp add: blockFriend_def Exec_healthy q_block_eq q_insert_block_eq [OF False] c
          blockFriend_opposite_healthy [OF u] del: bex_simps)
  next
    case nouser: False
    show ?thesis
      using False nouser
      by (simp add: blockFriend_def Exec_healthy q_block_eq q_insert_block_eq [OF False]
          del: bex_simps)
  qed
qed

lemma blockFriend_on_users:
  assumes "unique_edges (user_edge d)" and "sources_are_users d"
  shows "(let own = (\<lambda>r. source_id r = actor \<and> destination_id r = target);
              opp = (\<lambda>r. source_id r = target \<and> destination_id r = actor \<and> state r \<noteq> Blocked);
              d1 = (if \<exists>r \<in> set (user_edge d). own r
                    then d\<lparr>user_edge := map (\<lambda>r. if own r then r\<lparr>state := Blocked, update_time := ts\<rparr>
                                                   else r) (user_edge d)\<rparr>
                    else if user_exists d target
                    then d\<lparr>user_edge := user_edge d @
                                [\<lparr>source_id = actor, destination_id = target, state = Blocked,
                                   position = ts, update_time = ts\<rparr>],
                            users := map (\<lambda>u. if users_id u = actor
                                              then u\<lparr>edge_count := edge_count u + 1,
                                                     users_update_time := ts\<rparr>
                                              else u) (users d)\<rparr>
                    else d)
          in blockFriend \<lparr>store = d, health = None\<rparr> actor target ts =
               (None,
                \<lparr>store = d1\<lparr>user_edge := filter (\<lambda>r. \<not> opp r) (user_edge d1),
                             users := (if \<exists>r \<in> set (user_edge d1). opp r
                                       then map (\<lambda>u. if users_id u = target
                                                     then u\<lparr>edge_count := edge_count u - 1,
                                                            users_update_time := ts\<rparr>
                                                     else u) (users d1)
                                       else users d1)\<rparr>,
                 health = None\<rparr>)
            \<and> (\<not> (\<exists>r \<in> set (user_edge d). own r) \<and> \<not> user_exists d target \<longrightarrow>
                 blockFriend \<lparr>store = d, health = None\<rparr> actor target ts
                 = (None, \<lparr>store = d, health = None\<rparr>)))"
proof -
  note h = blockFriend_healthy [OF assms(1), of actor target ts, unfolded Let_def]
  show ?thesis
  proof (cases "\<exists>r \<in> set (user_edge d). source_id r = actor \<and> destination_id r = target")
    case True
    then show ?thesis
      unfolding Let_def h by (simp only: if_True simp_thms)
  next
    case own: False
    show ?thesis
    proof (cases "user_exists d target")
      case True
      then show ?thesis
        unfolding Let_def h using own by (simp only: if_True if_False simp_thms)
    next
      case False
      have no: "\<not> (source_id r = target \<and> destination_id r = actor \<and> state r \<noteq> Blocked)"
        if "r \<in> set (user_edge d)" for r
        using assms(2) that False by (auto simp: sources_are_users_def)
      then have f: "filter (\<lambda>r. \<not> (source_id r = target \<and> destination_id r = actor \<and> state r \<noteq> Blocked))
                      (user_edge d) = user_edge d"
        by (simp only: filter_id_conv) blast
      have n: "\<not> (\<exists>r \<in> set (user_edge d). source_id r = target \<and> destination_id r = actor \<and> state r \<noteq> Blocked)"
        using no by blast
      have "d\<lparr>user_edge := user_edge d, users := users d\<rparr> = d"
        by simp
      then show ?thesis
        unfolding Let_def h using own False
        by (simp only: if_False f n simp_thms)
    qed
  qed
qed

text \<open>
  C7. On unique keys, on tables where every row has a user as its source, and on a store
  that answers every statement: \<^verbatim>\<open>blockFriend\<close> first makes the actor's row to the
  target \<open>Blocked\<close>; if there is no such row and the target is a user, it inserts a
  \<open>Blocked\<close> row and raises the actor's \<^verbatim>\<open>edge_count\<close> by one; if there is no such
  row and the target is not a user, it returns no error and leaves the tables as they
  are. In every one of the three paths the call returns no error, and the tables it
  ends with are those of the first step with the target's row to the actor deleted
  unless that row is \<open>Blocked\<close>, and the target's \<^verbatim>\<open>edge_count\<close> lowered by one exactly
  when there was such a row to delete. For a target that is not a user there is no such
  row, and that path returns before a delete that has nothing to delete.
\<close>

theorem blockFriend_paths:
  assumes "unique_edges (user_edge d)" and "sources_are_users d"
  shows "(let own = (\<lambda>r. source_id r = actor \<and> destination_id r = target);
              opp = (\<lambda>r. source_id r = target \<and> destination_id r = actor \<and> state r \<noteq> Blocked);
              d1 = (if \<exists>r \<in> set (user_edge d). own r
                    then d\<lparr>user_edge := map (\<lambda>r. if own r then r\<lparr>state := Blocked, update_time := ts\<rparr>
                                                   else r) (user_edge d)\<rparr>
                    else if user_exists d target
                    then d\<lparr>user_edge := user_edge d @
                                [\<lparr>source_id = actor, destination_id = target, state = Blocked,
                                   position = ts, update_time = ts\<rparr>],
                            users := map (\<lambda>u. if users_id u = actor
                                              then u\<lparr>edge_count := edge_count u + 1,
                                                     users_update_time := ts\<rparr>
                                              else u) (users d)\<rparr>
                    else d)
          in blockFriend \<lparr>store = d, health = None\<rparr> actor target ts =
               (None,
                \<lparr>store = d1\<lparr>user_edge := filter (\<lambda>r. \<not> opp r) (user_edge d1),
                             users := (if \<exists>r \<in> set (user_edge d1). opp r
                                       then map (\<lambda>u. if users_id u = target
                                                     then u\<lparr>edge_count := edge_count u - 1,
                                                            users_update_time := ts\<rparr>
                                                     else u) (users d1)
                                       else users d1)\<rparr>,
                 health = None\<rparr>)
            \<and> (\<not> (\<exists>r \<in> set (user_edge d). own r) \<and> \<not> user_exists d target \<longrightarrow>
                 blockFriend \<lparr>store = d, health = None\<rparr> actor target ts
                 = (None, \<lparr>store = d, health = None\<rparr>)))"
  using blockFriend_on_users [OF assms] .

theorem blockFriend_paths_witness:
  "blockFriend \<lparr>store = \<lparr>users = [\<lparr>users_id = 1, edge_count = 1, users_update_time = 4\<rparr>,
                                   \<lparr>users_id = 2, edge_count = 1, users_update_time = 4\<rparr>],
                          user_edge = [\<lparr>source_id = 1, destination_id = 2, state = Accepted,
                                        position = 4, update_time = 5\<rparr>,
                                       \<lparr>source_id = 2, destination_id = 1, state = Accepted,
                                        position = 4, update_time = 5\<rparr>]\<rparr>,
                health = None\<rparr> 1 2 9
     = (None, \<lparr>store = \<lparr>users = [\<lparr>users_id = 1, edge_count = 1, users_update_time = 4\<rparr>,
                                  \<lparr>users_id = 2, edge_count = 0, users_update_time = 9\<rparr>],
                         user_edge = [\<lparr>source_id = 1, destination_id = 2, state = Blocked,
                                       position = 4, update_time = 9\<rparr>]\<rparr>,
               health = None\<rparr>)
   \<and> blockFriend \<lparr>store = \<lparr>users = [\<lparr>users_id = 1, edge_count = 0, users_update_time = 4\<rparr>,
                                   \<lparr>users_id = 2, edge_count = 1, users_update_time = 4\<rparr>],
                          user_edge = [\<lparr>source_id = 2, destination_id = 1, state = Blocked,
                                        position = 4, update_time = 4\<rparr>]\<rparr>,
                health = None\<rparr> 1 2 9
     = (None, \<lparr>store = \<lparr>users = [\<lparr>users_id = 1, edge_count = 1, users_update_time = 9\<rparr>,
                                  \<lparr>users_id = 2, edge_count = 1, users_update_time = 4\<rparr>],
                         user_edge = [\<lparr>source_id = 2, destination_id = 1, state = Blocked,
                                       position = 4, update_time = 4\<rparr>,
                                      \<lparr>source_id = 1, destination_id = 2, state = Blocked,
                                       position = 9, update_time = 9\<rparr>]\<rparr>,
               health = None\<rparr>)
   \<and> blockFriend \<lparr>store = \<lparr>users = [\<lparr>users_id = 1, edge_count = 1, users_update_time = 4\<rparr>,
                                   \<lparr>users_id = 2, edge_count = 1, users_update_time = 4\<rparr>],
                          user_edge = [\<lparr>source_id = 2, destination_id = 1, state = OutgoingRequest,
                                        position = 4, update_time = 4\<rparr>,
                                       \<lparr>source_id = 1, destination_id = 2, state = Invited,
                                        position = 4, update_time = 4\<rparr>]\<rparr>,
                health = None\<rparr> 1 3 9
     = (None, \<lparr>store = \<lparr>users = [\<lparr>users_id = 1, edge_count = 1, users_update_time = 4\<rparr>,
                                  \<lparr>users_id = 2, edge_count = 1, users_update_time = 4\<rparr>],
                         user_edge = [\<lparr>source_id = 2, destination_id = 1, state = OutgoingRequest,
                                       position = 4, update_time = 4\<rparr>,
                                      \<lparr>source_id = 1, destination_id = 2, state = Invited,
                                       position = 4, update_time = 4\<rparr>]\<rparr>,
               health = None\<rparr>)"
  using blockFriend_paths
      [of "\<lparr>users = [\<lparr>users_id = 1, edge_count = 1, users_update_time = 4\<rparr>,
                      \<lparr>users_id = 2, edge_count = 1, users_update_time = 4\<rparr>],
             user_edge = [\<lparr>source_id = 1, destination_id = 2, state = Accepted,
                           position = 4, update_time = 5\<rparr>,
                          \<lparr>source_id = 2, destination_id = 1, state = Accepted,
                           position = 4, update_time = 5\<rparr>]\<rparr>" 1 2 9]
    blockFriend_paths
      [of "\<lparr>users = [\<lparr>users_id = 1, edge_count = 0, users_update_time = 4\<rparr>,
                      \<lparr>users_id = 2, edge_count = 1, users_update_time = 4\<rparr>],
             user_edge = [\<lparr>source_id = 2, destination_id = 1, state = Blocked,
                           position = 4, update_time = 4\<rparr>]\<rparr>" 1 2 9]
    blockFriend_paths
      [of "\<lparr>users = [\<lparr>users_id = 1, edge_count = 1, users_update_time = 4\<rparr>,
                      \<lparr>users_id = 2, edge_count = 1, users_update_time = 4\<rparr>],
             user_edge = [\<lparr>source_id = 2, destination_id = 1, state = OutgoingRequest,
                           position = 4, update_time = 4\<rparr>,
                          \<lparr>source_id = 1, destination_id = 2, state = Invited,
                           position = 4, update_time = 4\<rparr>]\<rparr>" 1 3 9]
  by (simp add: unique_edges_def edge_key_def user_exists_def sources_are_users_def Let_def)

text \<open>
  The condition on the sources is used. On tables that hold a row whose source is not
  a user, which no call of the engine writes (\<open>run_keeps_sources\<close>), the path of the
  missing target returns with that row still there.
\<close>

lemma blockFriend_dangling_row:
  "\<not> sources_are_users
       \<lparr>users = [\<lparr>users_id = 1, edge_count = 0, users_update_time = 0\<rparr>],
        user_edge = [\<lparr>source_id = 2, destination_id = 1, state = OutgoingRequest,
                      position = 4, update_time = 4\<rparr>]\<rparr>
 \<and> blockFriend \<lparr>store = \<lparr>users = [\<lparr>users_id = 1, edge_count = 0, users_update_time = 0\<rparr>],
                          user_edge = [\<lparr>source_id = 2, destination_id = 1, state = OutgoingRequest,
                                        position = 4, update_time = 4\<rparr>]\<rparr>,
                health = None\<rparr> 1 2 9
   = (None, \<lparr>store = \<lparr>users = [\<lparr>users_id = 1, edge_count = 0, users_update_time = 0\<rparr>],
                       user_edge = [\<lparr>source_id = 2, destination_id = 1, state = OutgoingRequest,
                                     position = 4, update_time = 4\<rparr>]\<rparr>,
             health = None\<rparr>)"
  by (simp add: engine_defs stmt_defs Let_def sources_are_users_def)

section \<open>Batches\<close>

lemma AddFriends_loop_append:
  "AddFriends_loop t u ts (xs @ ys) n =
     (case AddFriends_loop t u ts xs n of
        (None, t1, n1) \<Rightarrow> AddFriends_loop t1 u ts ys n1
      | (Some e, r) \<Rightarrow> (Some e, r))"
  by (induction xs arbitrary: t n) (auto split: prod.splits option.splits)

lemma DeleteFriends_loop_append:
  "DeleteFriends_loop t u ts (xs @ ys) =
     (case DeleteFriends_loop t u ts xs of
        (None, t1, _) \<Rightarrow> DeleteFriends_loop t1 u ts ys
      | (Some e, r) \<Rightarrow> (Some e, r))"
  by (induction xs arbitrary: t) (auto split: prod.splits option.splits)

lemma BlockFriends_loop_append:
  "BlockFriends_loop t u ts (xs @ ys) =
     (case BlockFriends_loop t u ts xs of
        (None, t1, _) \<Rightarrow> BlockFriends_loop t1 u ts ys
      | (Some e, r) \<Rightarrow> (Some e, r))"
  by (induction xs arbitrary: t) (auto split: prod.splits option.splits)

lemma batch_fatal_after_prefix:
  "(AddFriends_loop \<lparr>store = d, health = h\<rparr> u ts pre Map.empty = (None, t1, n1) \<longrightarrow>
      addFriend t1 u i ts = (b, Some e, t2) \<and> e \<noteq> ErrNoRows \<longrightarrow>
         AddFriends h d u ts (pre @ i # post) = (Some e, d, n1))
 \<and> (DeleteFriends_loop \<lparr>store = d, health = h\<rparr> u ts pre = (None, t1, ()) \<longrightarrow>
      deleteFriend t1 u i ts = (Some e, t2) \<longrightarrow>
         DeleteFriends h d u ts (pre @ i # post) = (Some e, d))
 \<and> (BlockFriends_loop \<lparr>store = d, health = h\<rparr> u ts pre = (None, t1, ()) \<longrightarrow>
      blockFriend t1 u i ts = (Some e, t2) \<longrightarrow>
         BlockFriends h d u ts (pre @ i # post) = (Some e, d))"
  by (auto simp: AddFriends_def DeleteFriends_def BlockFriends_def Transact_def
      AddFriends_loop_append DeleteFriends_loop_append BlockFriends_loop_append
      split: prod.splits option.splits)

lemma tx_eta: "\<lparr>store = store t, health = health t\<rparr> = (t :: tx)"
  by (cases t) simp

lemma AddFriends_loop_notif:
  "AddFriends_loop t u ts ids n =
     (case AddFriends_loop t u ts ids Map.empty of (e, t', m) \<Rightarrow> (e, t', n ++ m))"
proof (induction ids arbitrary: t n)
  case Nil
  then show ?case by simp
next
  case (Cons i ids)
  obtain b err t2 where r: "addFriend t u i ts = (b, err, t2)"
    by (metis prod_cases3)
  obtain e t' m0 where l0: "AddFriends_loop t2 u ts ids Map.empty = (e, t', m0)"
    by (metis prod_cases3)
  have l: "AddFriends_loop t2 u ts ids k = (e, t', k ++ m0)" for k
    using Cons.IH [of t2 k] by (simp add: l0)
  have m: "n ++ ([i \<mapsto> b] ++ m0) = n(i \<mapsto> b) ++ m0"
    by (simp add: map_add_assoc [symmetric])
  show ?case
  proof (cases "err = None")
    case True
    have "AddFriends_loop t u ts (i # ids) n = (e, t', n(i \<mapsto> b) ++ m0)"
      using True by (simp add: r l)
    moreover have "AddFriends_loop t u ts (i # ids) Map.empty = (e, t', [i \<mapsto> b] ++ m0)"
      using True by (simp add: r l)
    ultimately show ?thesis
      by (simp only: m prod.case)
  next
    case False
    show ?thesis
    proof (cases "err = Some ErrNoRows")
      case True
      have "AddFriends_loop t u ts (i # ids) n = (e, t', n ++ m0)"
        using True by (simp add: r l)
      moreover have "AddFriends_loop t u ts (i # ids) Map.empty = (e, t', m0)"
        using True by (simp add: r l0)
      ultimately show ?thesis
        by (simp only: prod.case)
    next
      case fatal: False
      have "AddFriends_loop t u ts (i # ids) n = (err, t2, n)"
        using False fatal by (auto simp: r)
      moreover have "AddFriends_loop t u ts (i # ids) Map.empty = (err, t2, Map.empty)"
        using False fatal by (auto simp: r)
      ultimately show ?thesis
        by simp
    qed
  qed
qed

lemma AddFriends_cons:
  assumes "addFriend \<lparr>store = d, health = h\<rparr> u i ts = (b, err, t2)"
  shows "err \<noteq> None \<and> err \<noteq> Some ErrNoRows \<Longrightarrow>
         AddFriends h d u ts (i # post) = (err, d, Map.empty)"
    and "err = None \<or> err = Some ErrNoRows \<Longrightarrow>
         AddFriends h d u ts (i # post) =
           (case AddFriends (health t2) (store t2) u ts post of
              (None, d', m) \<Rightarrow> (None, d', (if err = None then [i \<mapsto> b] else Map.empty) ++ m)
            | (Some e, d', m) \<Rightarrow> (Some e, d, (if err = None then [i \<mapsto> b] else Map.empty) ++ m))"
proof -
  show "AddFriends h d u ts (i # post) = (err, d, Map.empty)"
    if "err \<noteq> None \<and> err \<noteq> Some ErrNoRows"
    using that by (auto simp: AddFriends_def Transact_def assms)
  obtain e t' m0 where l0: "AddFriends_loop t2 u ts post Map.empty = (e, t', m0)"
    by (metis prod_cases3)
  have l: "AddFriends_loop t2 u ts post k = (e, t', k ++ m0)" for k
    using AddFriends_loop_notif [of t2 u ts post k] by (simp add: l0)
  have inner: "AddFriends (health t2) (store t2) u ts post
               = (case e of None \<Rightarrow> (None, store t', m0) | Some x \<Rightarrow> (Some x, store t2, m0))"
    by (simp add: AddFriends_def Transact_def tx_eta l0 split: option.splits)
  show "AddFriends h d u ts (i # post) =
           (case AddFriends (health t2) (store t2) u ts post of
              (None, d', m) \<Rightarrow> (None, d', (if err = None then [i \<mapsto> b] else Map.empty) ++ m)
            | (Some e, d', m) \<Rightarrow> (Some e, d, (if err = None then [i \<mapsto> b] else Map.empty) ++ m))"
    if "err = None \<or> err = Some ErrNoRows"
  proof (cases "err = None")
    case True
    have "AddFriends_loop \<lparr>store = d, health = h\<rparr> u ts (i # post) Map.empty = (e, t', [i \<mapsto> b] ++ m0)"
      using True by (simp add: assms l)
    then show ?thesis
      using True by (simp add: AddFriends_def [of h d] Transact_def inner split: option.splits)
  next
    case False
    with that have nr: "err = Some ErrNoRows" by simp
    have "AddFriends_loop \<lparr>store = d, health = h\<rparr> u ts (i # post) Map.empty = (e, t', m0)"
      using nr by (simp add: assms l0)
    then show ?thesis
      using nr by (simp add: AddFriends_def [of h d] Transact_def inner split: option.splits)
  qed
qed

lemma DeleteFriends_cons:
  assumes "deleteFriend \<lparr>store = d, health = h\<rparr> u i ts = (err, t2)"
  shows "err \<noteq> None \<Longrightarrow> DeleteFriends h d u ts (i # post) = (err, d)"
    and "err = None \<Longrightarrow>
         DeleteFriends h d u ts (i # post) =
           (case DeleteFriends (health t2) (store t2) u ts post of
              (None, d') \<Rightarrow> (None, d')
            | (Some e, d') \<Rightarrow> (Some e, d))"
proof -
  show "DeleteFriends h d u ts (i # post) = (err, d)" if "err \<noteq> None"
    using that by (auto simp: DeleteFriends_def Transact_def assms)
  obtain e t' x where l0: "DeleteFriends_loop t2 u ts post = (e, t', x)"
    by (metis prod_cases3)
  show "DeleteFriends h d u ts (i # post) =
           (case DeleteFriends (health t2) (store t2) u ts post of
              (None, d') \<Rightarrow> (None, d')
            | (Some e, d') \<Rightarrow> (Some e, d))" if "err = None"
    using that
    by (simp add: DeleteFriends_def Transact_def assms tx_eta l0 split: option.splits)
qed

lemma BlockFriends_cons:
  assumes "blockFriend \<lparr>store = d, health = h\<rparr> u i ts = (err, t2)"
  shows "err \<noteq> None \<Longrightarrow> BlockFriends h d u ts (i # post) = (err, d)"
    and "err = None \<Longrightarrow>
         BlockFriends h d u ts (i # post) =
           (case BlockFriends (health t2) (store t2) u ts post of
              (None, d') \<Rightarrow> (None, d')
            | (Some e, d') \<Rightarrow> (Some e, d))"
proof -
  show "BlockFriends h d u ts (i # post) = (err, d)" if "err \<noteq> None"
    using that by (auto simp: BlockFriends_def Transact_def assms)
  obtain e t' x where l0: "BlockFriends_loop t2 u ts post = (e, t', x)"
    by (metis prod_cases3)
  show "BlockFriends h d u ts (i # post) =
           (case BlockFriends (health t2) (store t2) u ts post of
              (None, d') \<Rightarrow> (None, d')
            | (Some e, d') \<Rightarrow> (Some e, d))" if "err = None"
    using that
    by (simp add: BlockFriends_def Transact_def assms tx_eta l0 split: option.splits)
qed

lemma batch_error_unchanged:
  "fst (AddFriends h d u ts ids) \<noteq> None \<Longrightarrow> fst (snd (AddFriends h d u ts ids)) = d"
  "fst (DeleteFriends h d u ts ids) \<noteq> None \<Longrightarrow> snd (DeleteFriends h d u ts ids) = d"
  "fst (BlockFriends h d u ts ids) \<noteq> None \<Longrightarrow> snd (BlockFriends h d u ts ids) = d"
  by (auto simp: AddFriends_def DeleteFriends_def BlockFriends_def Transact_def
      split: prod.splits option.splits)

text \<open>
  C9. Each batch runs the units of its ids in order on one transaction, and what it
  returns is fixed by the unit of the first id and the batch of the ids after it. A
  batch of no ids returns no error and leaves the tables as they are. When the unit of
  the first id returns a fatal error (for \<^verbatim>\<open>addFriend\<close> any error but
  \<^verbatim>\<open>sql.ErrNoRows\<close>, for the two others any error), the batch returns that error and
  the tables are as they were before the batch. When the unit of the first id succeeds
  or is a benign no-op (\<^verbatim>\<open>sql.ErrNoRows\<close> from \<^verbatim>\<open>addFriend\<close>; no error from the
  two others), the batch does what the batch of the remaining ids does on the tables
  and the store the unit has left: if that returns no error, the tables it ends with are
  committed, the changes of the first unit among them; if it returns an error, the
  batch returns that error and the tables are as they were before the first unit.
  Whenever a batch returns an error, the tables are unchanged.
\<close>

theorem batch_all_or_nothing:
  "AddFriends h d u ts [] = (None, d, Map.empty)
 \<and> (addFriend \<lparr>store = d, health = h\<rparr> u i ts = (b, err, t2) \<longrightarrow>
      (err \<noteq> None \<and> err \<noteq> Some ErrNoRows \<longrightarrow>
         AddFriends h d u ts (i # post) = (err, d, Map.empty))
    \<and> (err = None \<or> err = Some ErrNoRows \<longrightarrow>
         AddFriends h d u ts (i # post) =
           (case AddFriends (health t2) (store t2) u ts post of
              (None, d', m) \<Rightarrow> (None, d', (if err = None then [i \<mapsto> b] else Map.empty) ++ m)
            | (Some e, d', m) \<Rightarrow> (Some e, d, (if err = None then [i \<mapsto> b] else Map.empty) ++ m))))
 \<and> DeleteFriends h d u ts [] = (None, d)
 \<and> (deleteFriend \<lparr>store = d, health = h\<rparr> u i ts = (derr, dt2) \<longrightarrow>
      (derr \<noteq> None \<longrightarrow> DeleteFriends h d u ts (i # post) = (derr, d))
    \<and> (derr = None \<longrightarrow>
         DeleteFriends h d u ts (i # post) =
           (case DeleteFriends (health dt2) (store dt2) u ts post of
              (None, d') \<Rightarrow> (None, d')
            | (Some e, d') \<Rightarrow> (Some e, d))))
 \<and> BlockFriends h d u ts [] = (None, d)
 \<and> (blockFriend \<lparr>store = d, health = h\<rparr> u i ts = (berr, bt2) \<longrightarrow>
      (berr \<noteq> None \<longrightarrow> BlockFriends h d u ts (i # post) = (berr, d))
    \<and> (berr = None \<longrightarrow>
         BlockFriends h d u ts (i # post) =
           (case BlockFriends (health bt2) (store bt2) u ts post of
              (None, d') \<Rightarrow> (None, d')
            | (Some e, d') \<Rightarrow> (Some e, d))))
 \<and> (fst (AddFriends h d u ts ids) \<noteq> None \<longrightarrow> fst (snd (AddFriends h d u ts ids)) = d)
 \<and> (fst (DeleteFriends h d u ts ids) \<noteq> None \<longrightarrow> snd (DeleteFriends h d u ts ids) = d)
 \<and> (fst (BlockFriends h d u ts ids) \<noteq> None \<longrightarrow> snd (BlockFriends h d u ts ids) = d)"
proof (intro conjI impI)
  show "AddFriends h d u ts [] = (None, d, Map.empty)"
    by (simp add: AddFriends_def Transact_def)
  show "DeleteFriends h d u ts [] = (None, d)"
    by (simp add: DeleteFriends_def Transact_def)
  show "BlockFriends h d u ts [] = (None, d)"
    by (simp add: BlockFriends_def Transact_def)
  show "AddFriends h d u ts (i # post) = (err, d, Map.empty)"
    if "addFriend \<lparr>store = d, health = h\<rparr> u i ts = (b, err, t2)"
      and "err \<noteq> None \<and> err \<noteq> Some ErrNoRows"
    using that by (rule AddFriends_cons)
  show "AddFriends h d u ts (i # post) =
           (case AddFriends (health t2) (store t2) u ts post of
              (None, d', m) \<Rightarrow> (None, d', (if err = None then [i \<mapsto> b] else Map.empty) ++ m)
            | (Some e, d', m) \<Rightarrow> (Some e, d, (if err = None then [i \<mapsto> b] else Map.empty) ++ m))"
    if "addFriend \<lparr>store = d, health = h\<rparr> u i ts = (b, err, t2)"
      and "err = None \<or> err = Some ErrNoRows"
    using that by (rule AddFriends_cons)
  show "DeleteFriends h d u ts (i # post) = (derr, d)"
    if "deleteFriend \<lparr>store = d, health = h\<rparr> u i ts = (derr, dt2)" and "derr \<noteq> None"
    using that by (rule DeleteFriends_cons)
  show "DeleteFriends h d u ts (i # post) =
           (case DeleteFriends (health dt2) (store dt2) u ts post of
              (None, d') \<Rightarrow> (None, d')
            | (Some e, d') \<Rightarrow> (Some e, d))"
    if "deleteFriend \<lparr>store = d, health = h\<rparr> u i ts = (derr, dt2)" and "derr = None"
    using that by (rule DeleteFriends_cons)
  show "BlockFriends h d u ts (i # post) = (berr, d)"
    if "blockFriend \<lparr>store = d, health = h\<rparr> u i ts = (berr, bt2)" and "berr \<noteq> None"
    using that by (rule BlockFriends_cons)
  show "BlockFriends h d u ts (i # post) =
           (case BlockFriends (health bt2) (store bt2) u ts post of
              (None, d') \<Rightarrow> (None, d')
            | (Some e, d') \<Rightarrow> (Some e, d))"
    if "blockFriend \<lparr>store = d, health = h\<rparr> u i ts = (berr, bt2)" and "berr = None"
    using that by (rule BlockFriends_cons)
qed (rule batch_error_unchanged, assumption)+

theorem batch_all_or_nothing_witness:
  "DeleteFriends None
     \<lparr>users = [\<lparr>users_id = 1, edge_count = 1, users_update_time = 4\<rparr>,
               \<lparr>users_id = 2, edge_count = 1, users_update_time = 4\<rparr>,
               \<lparr>users_id = 3, edge_count = 1, users_update_time = 4\<rparr>],
      user_edge = [\<lparr>source_id = 1, destination_id = 2, state = Accepted, position = 4, update_time = 5\<rparr>,
                   \<lparr>source_id = 2, destination_id = 1, state = Accepted, position = 4, update_time = 5\<rparr>,
                   \<lparr>source_id = 3, destination_id = 1, state = Blocked, position = 4, update_time = 4\<rparr>]\<rparr>
     1 9 [2, 3]
   = (Some ErrUnexpectedEdges,
      \<lparr>users = [\<lparr>users_id = 1, edge_count = 1, users_update_time = 4\<rparr>,
               \<lparr>users_id = 2, edge_count = 1, users_update_time = 4\<rparr>,
               \<lparr>users_id = 3, edge_count = 1, users_update_time = 4\<rparr>],
      user_edge = [\<lparr>source_id = 1, destination_id = 2, state = Accepted, position = 4, update_time = 5\<rparr>,
                   \<lparr>source_id = 2, destination_id = 1, state = Accepted, position = 4, update_time = 5\<rparr>,
                   \<lparr>source_id = 3, destination_id = 1, state = Blocked, position = 4, update_time = 4\<rparr>]\<rparr>)
 \<and> AddFriends None
     \<lparr>users = [\<lparr>users_id = 1, edge_count = 1, users_update_time = 4\<rparr>,
               \<lparr>users_id = 2, edge_count = 1, users_update_time = 4\<rparr>,
               \<lparr>users_id = 3, edge_count = 0, users_update_time = 4\<rparr>],
      user_edge = [\<lparr>source_id = 1, destination_id = 2, state = Accepted, position = 4, update_time = 5\<rparr>,
                   \<lparr>source_id = 2, destination_id = 1, state = Accepted, position = 4, update_time = 5\<rparr>]\<rparr>
     1 9 [2, 3]
   = (None,
      \<lparr>users = [\<lparr>users_id = 1, edge_count = 2, users_update_time = 9\<rparr>,
               \<lparr>users_id = 2, edge_count = 1, users_update_time = 4\<rparr>,
               \<lparr>users_id = 3, edge_count = 1, users_update_time = 9\<rparr>],
      user_edge = [\<lparr>source_id = 1, destination_id = 2, state = Accepted, position = 4, update_time = 5\<rparr>,
                   \<lparr>source_id = 2, destination_id = 1, state = Accepted, position = 4, update_time = 5\<rparr>,
                   \<lparr>source_id = 1, destination_id = 3, state = OutgoingRequest, position = 9, update_time = 9\<rparr>,
                   \<lparr>source_id = 3, destination_id = 1, state = Invited, position = 9, update_time = 9\<rparr>]\<rparr>,
      [3 \<mapsto> False])"
proof -
  let ?U = "[\<lparr>users_id = 1, edge_count = 1, users_update_time = 4\<rparr>,
               \<lparr>users_id = 2, edge_count = 1, users_update_time = 4\<rparr>,
               \<lparr>users_id = 3, edge_count = 1, users_update_time = 4\<rparr>]"
  let ?E = "[\<lparr>source_id = 1, destination_id = 2, state = Accepted, position = 4, update_time = 5\<rparr>,
                   \<lparr>source_id = 2, destination_id = 1, state = Accepted, position = 4, update_time = 5\<rparr>,
                   \<lparr>source_id = 3, destination_id = 1, state = Blocked, position = 4, update_time = 4\<rparr>]"
  let ?d = "\<lparr>users = ?U, user_edge = ?E\<rparr>"
  let ?d1 = "\<lparr>users = [\<lparr>users_id = 1, edge_count = 0, users_update_time = 9\<rparr>,
               \<lparr>users_id = 2, edge_count = 0, users_update_time = 9\<rparr>,
               \<lparr>users_id = 3, edge_count = 1, users_update_time = 4\<rparr>],
               user_edge = [\<lparr>source_id = 3, destination_id = 1, state = Blocked, position = 4, update_time = 4\<rparr>]\<rparr>"
  let ?d1' = "\<lparr>users = [\<lparr>users_id = 1, edge_count = 0, users_update_time = 9\<rparr>,
               \<lparr>users_id = 2, edge_count = 0, users_update_time = 9\<rparr>,
               \<lparr>users_id = 3, edge_count = 1, users_update_time = 4\<rparr>],
               user_edge = []\<rparr>"
  let ?a = "\<lparr>users = [\<lparr>users_id = 1, edge_count = 1, users_update_time = 4\<rparr>,
               \<lparr>users_id = 2, edge_count = 1, users_update_time = 4\<rparr>,
               \<lparr>users_id = 3, edge_count = 0, users_update_time = 4\<rparr>],
      user_edge = [\<lparr>source_id = 1, destination_id = 2, state = Accepted, position = 4, update_time = 5\<rparr>,
                   \<lparr>source_id = 2, destination_id = 1, state = Accepted, position = 4, update_time = 5\<rparr>]\<rparr>"
  let ?a' = "\<lparr>users = [\<lparr>users_id = 1, edge_count = 2, users_update_time = 9\<rparr>,
               \<lparr>users_id = 2, edge_count = 1, users_update_time = 4\<rparr>,
               \<lparr>users_id = 3, edge_count = 1, users_update_time = 9\<rparr>],
      user_edge = [\<lparr>source_id = 1, destination_id = 2, state = Accepted, position = 4, update_time = 5\<rparr>,
                   \<lparr>source_id = 2, destination_id = 1, state = Accepted, position = 4, update_time = 5\<rparr>,
                   \<lparr>source_id = 1, destination_id = 3, state = OutgoingRequest, position = 9, update_time = 9\<rparr>,
                   \<lparr>source_id = 3, destination_id = 1, state = Invited, position = 9, update_time = 9\<rparr>]\<rparr>"
  have u1: "deleteFriend \<lparr>store = ?d, health = None\<rparr> 1 2 9 = (None, \<lparr>store = ?d1, health = None\<rparr>)"
    by (simp add: engine_defs stmt_defs Let_def)
  have u2: "deleteFriend \<lparr>store = ?d1, health = None\<rparr> 1 3 9
            = (Some ErrUnexpectedEdges, \<lparr>store = ?d1', health = None\<rparr>)"
    by (simp add: engine_defs stmt_defs Let_def)
  have v1: "addFriend \<lparr>store = ?a, health = None\<rparr> 1 2 9
            = (False, Some ErrNoRows, \<lparr>store = ?a, health = None\<rparr>)"
    by (simp add: engine_defs stmt_defs Let_def)
  have v2: "addFriend \<lparr>store = ?a, health = None\<rparr> 1 3 9 = (False, None, \<lparr>store = ?a', health = None\<rparr>)"
    by (simp add: engine_defs stmt_defs Let_def)
  note s1 = batch_all_or_nothing
    [where h = None and d = ?d and u = 1 and ts = 9 and i = 2 and post = "[3]"
       and derr = None and ?dt2.0 = "\<lparr>store = ?d1, health = None\<rparr>"
       and b = False and err = None and ?t2.0 = "\<lparr>store = ?d, health = None\<rparr>"
       and berr = None and ?bt2.0 = "\<lparr>store = ?d, health = None\<rparr>" and ids = "[]"]
  note s2 = batch_all_or_nothing
    [where h = None and d = ?d1 and u = 1 and ts = 9 and i = 3 and post = "[]"
       and derr = "Some ErrUnexpectedEdges" and ?dt2.0 = "\<lparr>store = ?d1', health = None\<rparr>"
       and b = False and err = None and ?t2.0 = "\<lparr>store = ?d, health = None\<rparr>"
       and berr = None and ?bt2.0 = "\<lparr>store = ?d, health = None\<rparr>" and ids = "[]"]
  note s3 = batch_all_or_nothing
    [where h = None and d = ?a and u = 1 and ts = 9 and i = 2 and post = "[3]"
       and b = False and err = "Some ErrNoRows" and ?t2.0 = "\<lparr>store = ?a, health = None\<rparr>"
       and derr = None and ?dt2.0 = "\<lparr>store = ?d, health = None\<rparr>"
       and berr = None and ?bt2.0 = "\<lparr>store = ?d, health = None\<rparr>" and ids = "[]"]
  note s4 = batch_all_or_nothing
    [where h = None and d = ?a and u = 1 and ts = 9 and i = 3 and post = "[]"
       and b = False and err = None and ?t2.0 = "\<lparr>store = ?a', health = None\<rparr>"
       and derr = None and ?dt2.0 = "\<lparr>store = ?d, health = None\<rparr>"
       and berr = None and ?bt2.0 = "\<lparr>store = ?d, health = None\<rparr>" and ids = "[]"]
  note nilA = batch_all_or_nothing [THEN conjunct1]
  note nilD = batch_all_or_nothing [THEN conjunct2, THEN conjunct2, THEN conjunct1]
  have i2: "DeleteFriends None ?d1 1 9 [3] = (Some ErrUnexpectedEdges, ?d1)"
    using s2 u2 by (simp add: nilD)
  have "DeleteFriends None ?d 1 9 [2, 3] = (Some ErrUnexpectedEdges, ?d)"
    using s1 u1 i2 by simp
  moreover have i4: "AddFriends None ?a 1 9 [3] = (None, ?a', [3 \<mapsto> False])"
    using s4 v2 by (simp add: nilA)
  have "AddFriends None ?a 1 9 [2, 3] = (None, ?a', [3 \<mapsto> False])"
    using s3 v1 i4 by simp
  ultimately show ?thesis
    by simp
qed

section \<open>A store that fails\<close>

text \<open>
  A call that does not end with an error of the store has met no failing statement: on
  a store that never fails it returns the same results and leaves the same tables.
\<close>

lemma addFriend_health:
  "addFriend \<lparr>store = d, health = h\<rparr> a b ts = (acc, err, t') \<Longrightarrow> err \<noteq> Some ErrStore \<Longrightarrow>
   addFriend \<lparr>store = d, health = None\<rparr> a b ts = (acc, err, t'\<lparr>health := None\<rparr>)"
  by (auto simp: addFriend_def Exec_def Let_def split: if_splits option.splits prod.splits)

lemma deleteFriend_health:
  "deleteFriend \<lparr>store = d, health = h\<rparr> a b ts = (err, t') \<Longrightarrow> err \<noteq> Some ErrStore \<Longrightarrow>
   deleteFriend \<lparr>store = d, health = None\<rparr> a b ts = (err, t'\<lparr>health := None\<rparr>)"
  by (auto simp: deleteFriend_def Exec_def Let_def split: if_splits option.splits prod.splits)

lemma blockFriend_opposite_health:
  "blockFriend_opposite \<lparr>store = d, health = h\<rparr> a b ts = (err, t') \<Longrightarrow> err \<noteq> Some ErrStore \<Longrightarrow>
   blockFriend_opposite \<lparr>store = d, health = None\<rparr> a b ts = (err, t'\<lparr>health := None\<rparr>)"
  by (auto simp: blockFriend_opposite_def Exec_def Let_def split: if_splits option.splits prod.splits)

lemma blockFriend_health:
  "blockFriend \<lparr>store = d, health = h\<rparr> a b ts = (err, t') \<Longrightarrow> err \<noteq> Some ErrStore \<Longrightarrow>
   blockFriend \<lparr>store = d, health = None\<rparr> a b ts = (err, t'\<lparr>health := None\<rparr>)"
  by (auto simp: blockFriend_def Exec_def Let_def dest: blockFriend_opposite_health split: if_splits option.splits prod.splits)

section \<open>Symmetry of the two directions\<close>

subsection \<open>The edges each call leaves\<close>

lemma addFriend_edges:
  "user_edge (store (snd (snd (addFriend \<lparr>store = d, health = None\<rparr> a b ts)))) =
     (let E1 = filter (\<lambda>r. \<not> (source_id r = a \<and> destination_id r = b \<and> state r = 3)) (user_edge d);
          E2 = map (\<lambda>r. if (source_id r = b \<and> destination_id r = a \<and> state r = 2)
                           \<or> (source_id r = a \<and> destination_id r = b \<and> state r = 1)
                         then r\<lparr>state := 0, update_time := ts\<rparr> else r) E1
      in if length (filter (\<lambda>r. source_id r = a \<and> destination_id r = b \<and> state r = 3) (user_edge d)) = 1
         then E1
         else if length (filter (\<lambda>r. (source_id r = b \<and> destination_id r = a \<and> state r = 2)
                                  \<or> (source_id r = a \<and> destination_id r = b \<and> state r = 1)) E1) = 2
         then E2
         else snd (insert_do_nothing
                  (if user_exists d b
                   then [\<lparr>source_id = a, destination_id = b, state = 2, position = ts, update_time = ts\<rparr>,
                         \<lparr>source_id = b, destination_id = a, state = 1, position = ts, update_time = ts\<rparr>]
                   else [])
                  E2))"
proof -
  define P3 where "P3 = (\<lambda>r :: edge_row. source_id r = a \<and> destination_id r = b \<and> state r = 3)"
  define PA where "PA = (\<lambda>r :: edge_row. (source_id r = b \<and> destination_id r = a \<and> state r = 2)
                           \<or> (source_id r = a \<and> destination_id r = b \<and> state r = 1))"
  define E1 where "E1 = filter (\<lambda>r. \<not> P3 r) (user_edge d)"
  define E2 where "E2 = map (\<lambda>r. if PA r then r\<lparr>state := 0, update_time := ts\<rparr> else r) E1"
  define vals where "vals = (if user_exists d b
                   then [\<lparr>source_id = a, destination_id = b, state = 2, position = ts, update_time = ts\<rparr>,
                         \<lparr>source_id = b, destination_id = a, state = 1, position = ts, update_time = ts\<rparr>]
                   else [])"
  obtain n3 E3 where i: "insert_do_nothing vals E2 = (n3, E3)"
    by fastforce
  have q1: "q_unblock a b d = Some (length (filter P3 (user_edge d)), d\<lparr>user_edge := E1\<rparr>)"
    unfolding q_unblock_def delete_user_edge_def P3_def E1_def by (rule refl)
  have q2: "q_accept b a ts (d\<lparr>user_edge := E1\<rparr>) = Some (length (filter PA E1), d\<lparr>user_edge := E2\<rparr>)"
    unfolding q_accept_def update_user_edge_def PA_def E2_def by simp
  have q3: "q_invite a b ts (d\<lparr>user_edge := E2\<rparr>) = Some (n3, d\<lparr>user_edge := E3\<rparr>)"
    unfolding q_invite_def using i by (simp add: vals_def user_exists_def)
  obtain n4 d4 where q4: "q_count_pair a b ts (d\<lparr>user_edge := E3\<rparr>) = Some (n4, d4)" "user_edge d4 = E3"
    by (simp add: q_count_pair_def update_users_def)
  obtain n5 d5 where q5: "q_count_down a ts (d\<lparr>user_edge := E1\<rparr>) = Some (n5, d5)" "user_edge d5 = E1"
    by (simp add: q_count_down_def update_users_def)
  have "user_edge (store (snd (snd (addFriend \<lparr>store = d, health = None\<rparr> a b ts)))) =
     (if length (filter P3 (user_edge d)) = 1 then E1
      else if length (filter PA E1) = 2 then E2
      else E3)"
    by (simp add: addFriend_def Exec_healthy q1 q2 q3 q4 q5)
  then show ?thesis
    using i unfolding Let_def P3_def PA_def E1_def E2_def vals_def by simp
qed

lemma deleteFriend_edges:
  assumes "fst (deleteFriend \<lparr>store = d, health = None\<rparr> a b ts) = None"
  shows "user_edge (store (snd (deleteFriend \<lparr>store = d, health = None\<rparr> a b ts)))
         = filter (\<lambda>e. \<not> edge_between a b e) (user_edge d)"
proof -
  let ?n = "length (filter (edge_between a b) (user_edge d))"
  let ?d1 = "d\<lparr>user_edge := filter (\<lambda>e. \<not> edge_between a b e) (user_edge d)\<rparr>"
  have b: "edge_between a b = (\<lambda>e. (source_id e = a \<and> destination_id e = b)
                        \<or> (source_id e = b \<and> destination_id e = a))"
    by (rule ext) (simp add: edge_between_def)
  have q: "q_delete_pair a b d = Some (?n, ?d1)"
    unfolding q_delete_pair_def delete_user_edge_def b by (rule refl)
  obtain n5 d5 where q5: "q_count_down_pair a b ts ?d1 = Some (n5, d5)" "user_edge d5 = user_edge ?d1"
    by (simp add: q_count_down_pair_def update_users_def)
  show ?thesis
    using assms by (simp add: deleteFriend_def Exec_healthy q q5 split: if_splits)
qed

lemma blockFriend_edges:
  assumes "unique_edges (user_edge d)"
  shows "store (snd (blockFriend \<lparr>store = d, health = None\<rparr> a b ts)) = d
   \<or> user_edge (store (snd (blockFriend \<lparr>store = d, health = None\<rparr> a b ts)))
       = filter (\<lambda>r. \<not> (source_id r = b \<and> destination_id r = a \<and> state r \<noteq> 3))
           (if \<exists>r \<in> set (user_edge d). source_id r = a \<and> destination_id r = b
            then map (\<lambda>r. if source_id r = a \<and> destination_id r = b
                           then r\<lparr>state := 3, update_time := ts\<rparr> else r) (user_edge d)
            else user_edge d @
                   [\<lparr>source_id = a, destination_id = b, state = 3, position = ts, update_time = ts\<rparr>])"
proof (cases "\<exists>r \<in> set (user_edge d). source_id r = a \<and> destination_id r = b")
  case True
  have "user_edge (store (snd (blockFriend \<lparr>store = d, health = None\<rparr> a b ts)))
       = filter (\<lambda>r. \<not> (source_id r = b \<and> destination_id r = a \<and> state r \<noteq> 3))
           (map (\<lambda>r. if source_id r = a \<and> destination_id r = b
                           then r\<lparr>state := 3, update_time := ts\<rparr> else r) (user_edge d))"
    using blockFriend_healthy [OF assms, of a b ts] True
    unfolding Let_def by (simp del: bex_simps set_map set_filter)
  with True show ?thesis
    by (simp del: bex_simps)
next
  case own: False
  show ?thesis
  proof (cases "user_exists d b")
    case True
    have "user_edge (store (snd (blockFriend \<lparr>store = d, health = None\<rparr> a b ts)))
       = filter (\<lambda>r. \<not> (source_id r = b \<and> destination_id r = a \<and> state r \<noteq> 3))
           (user_edge d @
                   [\<lparr>source_id = a, destination_id = b, state = 3, position = ts, update_time = ts\<rparr>])"
      using blockFriend_healthy [OF assms, of a b ts] own True
      unfolding Let_def by (simp del: bex_simps set_append set_filter)
    with own show ?thesis
      by (simp del: bex_simps)
  next
    case False
    have "store (snd (blockFriend \<lparr>store = d, health = None\<rparr> a b ts)) = d"
      using blockFriend_healthy [OF assms, of a b ts] own False
      unfolding Let_def by (simp del: bex_simps)
    then show ?thesis ..
  qed
qed

lemma step_add:
  "step d (h, ts, AddFriend a b) = d
   \<or> user_edge (step d (h, ts, AddFriend a b))
       = user_edge (store (snd (snd (addFriend \<lparr>store = d, health = None\<rparr> a b ts))))"
proof -
  obtain acc err t' where r: "addFriend \<lparr>store = d, health = h\<rparr> a b ts = (acc, err, t')"
    by (metis prod_cases3)
  show ?thesis
  proof (cases "err = None \<or> err = Some ErrNoRows")
    case True
    then have "err \<noteq> Some ErrStore" by auto
    from addFriend_health [OF r this] have "user_edge (store (snd (snd (addFriend \<lparr>store = d, health = None\<rparr> a b ts))))
        = user_edge (store t')"
      by simp
    moreover have "step d (h, ts, AddFriend a b) = store t'"
      using True by (auto simp: AddFriends_def Transact_def r)
    ultimately show ?thesis by simp
  next
    case False
    then have "step d (h, ts, AddFriend a b) = d"
      by (auto simp: AddFriends_def Transact_def r)
    then show ?thesis ..
  qed
qed

lemma step_delete:
  "step d (h, ts, DeleteFriend a b) = d
   \<or> user_edge (step d (h, ts, DeleteFriend a b)) = filter (\<lambda>e. \<not> edge_between a b e) (user_edge d)"
proof -
  obtain err t' where r: "deleteFriend \<lparr>store = d, health = h\<rparr> a b ts = (err, t')"
    by fastforce
  show ?thesis
  proof (cases "err = None")
    case True
    then have "err \<noteq> Some ErrStore" by auto
    from deleteFriend_health [OF r this] True
    have h: "deleteFriend \<lparr>store = d, health = None\<rparr> a b ts = (None, t'\<lparr>health := None\<rparr>)"
      by simp
    then have "user_edge (store t') = filter (\<lambda>e. \<not> edge_between a b e) (user_edge d)"
      using deleteFriend_edges [of d a b ts] by simp
    moreover have "step d (h, ts, DeleteFriend a b) = store t'"
      using True by (auto simp: DeleteFriends_def Transact_def r)
    ultimately show ?thesis by simp
  next
    case False
    then have "step d (h, ts, DeleteFriend a b) = d"
      by (auto simp: DeleteFriends_def Transact_def r)
    then show ?thesis ..
  qed
qed

lemma step_block:
  assumes "unique_edges (user_edge d)"
  shows "step d (h, ts, BlockFriend a b) = d
   \<or> user_edge (step d (h, ts, BlockFriend a b))
       = filter (\<lambda>r. \<not> (source_id r = b \<and> destination_id r = a \<and> state r \<noteq> 3))
           (if \<exists>r \<in> set (user_edge d). source_id r = a \<and> destination_id r = b
            then map (\<lambda>r. if source_id r = a \<and> destination_id r = b
                           then r\<lparr>state := 3, update_time := ts\<rparr> else r) (user_edge d)
            else user_edge d @
                   [\<lparr>source_id = a, destination_id = b, state = 3, position = ts, update_time = ts\<rparr>])"
proof -
  obtain err t' where r: "blockFriend \<lparr>store = d, health = h\<rparr> a b ts = (err, t')"
    by fastforce
  show ?thesis
  proof (cases "err = None")
    case True
    then have "err \<noteq> Some ErrStore" by auto
    from blockFriend_health [OF r this]
    have h: "store (snd (blockFriend \<lparr>store = d, health = None\<rparr> a b ts)) = store t'"
      by simp
    have s: "step d (h, ts, BlockFriend a b) = store t'"
      using True by (auto simp: BlockFriends_def Transact_def r)
    show ?thesis
      using blockFriend_edges [OF assms, of a b ts] unfolding s h .
  next
    case False
    then have "step d (h, ts, BlockFriend a b) = d"
      by (auto simp: BlockFriends_def Transact_def r)
    then show ?thesis ..
  qed
qed

subsection \<open>States of edges after a statement\<close>

lemma symmetry_or_blocks_sym:
  "symmetry_or_blocks rows a b = symmetry_or_blocks rows b a"
  by (auto simp: symmetry_or_blocks_def consistent_pair_def Let_def)

lemma pair_step:
  assumes "symmetry_or_blocks E p q"
    and frame: "\<And>x y. \<not> ((x = a \<and> y = b) \<or> (x = b \<and> y = a)) \<Longrightarrow> edge_state E' x y = edge_state E x y"
    and local: "(p = a \<and> q = b) \<or> (p = b \<and> q = a) \<Longrightarrow> symmetry_or_blocks E' a b"
  shows "symmetry_or_blocks E' p q"
proof (cases "(p = a \<and> q = b) \<or> (p = b \<and> q = a)")
  case True
  then show ?thesis
    using local symmetry_or_blocks_sym [of E' a b] by auto
next
  case False
  then have "edge_state E' p q = edge_state E p q" "edge_state E' q p = edge_state E q p"
    by (auto intro: frame)
  then have "symmetry_or_blocks E' p q = symmetry_or_blocks E p q"
    by (simp add: symmetry_or_blocks_def)
  then show ?thesis
    using assms(1) by simp
qed

lemma pair_local:
  assumes "symmetry_or_blocks E p q" and "p \<noteq> q" and "(p = a \<and> q = b) \<or> (p = b \<and> q = a)"
  shows "a \<noteq> b" and "symmetry_or_blocks E a b"
  using assms symmetry_or_blocks_sym [of E a b] by auto

lemma edge_state_filter:
  assumes "unique_edges rows"
  shows "edge_state (filter Q rows) x y
         = (case lookup_edge rows x y of None \<Rightarrow> None | Some r \<Rightarrow> if Q r then Some (state r) else None)"
  by (simp add: edge_state_def lookup_edge_filter [OF assms] split: option.splits)

lemma edge_state_map_upd:
  assumes "\<And>r. source_id (f r) = source_id r" "\<And>r. destination_id (f r) = destination_id r"
  shows "edge_state (map (\<lambda>r. if P r then f r else r) rows) x y
         = (case lookup_edge rows x y of None \<Rightarrow> None | Some r \<Rightarrow> Some (if P r then state (f r) else state r))"
  by (simp add: edge_state_def lookup_edge_map_upd [of f, OF assms] split: option.splits)

lemma edge_state_snoc:
  "edge_state (rows @ [v]) x y
   = (case edge_state rows x y of
        Some s \<Rightarrow> Some s
      | None \<Rightarrow> if source_id v = x \<and> destination_id v = y then Some (state v) else None)"
  by (simp add: edge_state_def lookup_edge_snoc split: option.splits)

lemma conflicts_edge_state:
  "conflicts v rows \<longleftrightarrow> edge_state rows (source_id v) (destination_id v) \<noteq> None"
  by (simp add: conflicts_lookup edge_state_def)

lemma unique_edges_insert_do_nothing:
  "unique_edges rows \<Longrightarrow> unique_edges (snd (insert_do_nothing vals rows))"
proof (induction vals arbitrary: rows)
  case Nil
  then show ?case by simp
next
  case (Cons v vals)
  show ?case
  proof (cases "conflicts v rows")
    case True
    then show ?thesis
      using Cons by simp
  next
    case False
    then have "unique_edges (rows @ [v])"
      using Cons.prems by (simp add: unique_edges_snoc)
    then have "unique_edges (snd (insert_do_nothing vals (rows @ [v])))"
      by (rule Cons.IH)
    then show ?thesis
      using False by (simp add: split_beta)
  qed
qed

lemma edge_state_Some:
  "edge_state rows x y = Some s \<longleftrightarrow> (\<exists>r. lookup_edge rows x y = Some r \<and> state r = s)"
  by (auto simp: edge_state_def)

lemma edge_state_None:
  "edge_state rows x y = None \<longleftrightarrow> lookup_edge rows x y = None"
  by (auto simp: edge_state_def)

lemma edge_state_snoc_other:
  "\<not> (source_id v = x \<and> destination_id v = y) \<Longrightarrow> edge_state (rows @ [v]) x y = edge_state rows x y"
  by (simp add: edge_state_snoc split: option.splits)

lemma edge_state_snoc_same:
  "edge_state (rows @ [v]) (source_id v) (destination_id v)
   = (case edge_state rows (source_id v) (destination_id v) of None \<Rightarrow> Some (state v) | Some s \<Rightarrow> Some s)"
  by (simp add: edge_state_snoc split: option.splits)

lemma invite_rows:
  fixes a b :: uuid and ts :: int
  defines "v1 \<equiv> \<lparr>source_id = a, destination_id = b, state = 2, position = ts, update_time = ts\<rparr>"
    and "v2 \<equiv> \<lparr>source_id = b, destination_id = a, state = 1, position = ts, update_time = ts\<rparr>"
  assumes "E3 = snd (insert_do_nothing (if ex then [v1, v2] else []) E2)"
  shows "(x \<noteq> a \<or> y \<noteq> b) \<and> (x \<noteq> b \<or> y \<noteq> a) \<Longrightarrow> edge_state E3 x y = edge_state E2 x y"
    and "\<not> ex \<Longrightarrow> E3 = E2"
    and "ex \<Longrightarrow> a \<noteq> b \<Longrightarrow>
           edge_state E3 a b = (case edge_state E2 a b of None \<Rightarrow> Some 2 | Some s \<Rightarrow> Some s)
         \<and> edge_state E3 b a = (case edge_state E2 b a of None \<Rightarrow> Some 1 | Some s \<Rightarrow> Some s)"
proof -
  have k: "source_id v1 = a" "destination_id v1 = b" "state v1 = 2"
          "source_id v2 = b" "destination_id v2 = a" "state v2 = 1"
    by (simp_all add: v1_def v2_def)
  have c1: "conflicts v1 E2 \<longleftrightarrow> edge_state E2 a b \<noteq> None"
    and c2: "conflicts v2 rows \<longleftrightarrow> edge_state rows b a \<noteq> None" for rows
    by (simp_all add: conflicts_edge_state k)
  show "\<not> ex \<Longrightarrow> E3 = E2"
    using assms(3) by simp
  have alt: "E3 = E2 \<or> E3 = E2 @ [v1] \<or> E3 = E2 @ [v2] \<or> E3 = (E2 @ [v1]) @ [v2]"
    unfolding assms(3) by (simp add: split_beta)
  show "edge_state E3 x y = edge_state E2 x y" if "(x \<noteq> a \<or> y \<noteq> b) \<and> (x \<noteq> b \<or> y \<noteq> a)"
  proof -
    have o1: "edge_state (rows @ [v1]) x y = edge_state rows x y" for rows
      using that by (intro edge_state_snoc_other) (simp add: k, blast)
    have o2: "edge_state (rows @ [v2]) x y = edge_state rows x y" for rows
      using that by (intro edge_state_snoc_other) (simp add: k, blast)
    from alt show ?thesis
      by (elim disjE) (simp_all only: o1 o2)
  qed
  show "edge_state E3 a b = (case edge_state E2 a b of None \<Rightarrow> Some 2 | Some s \<Rightarrow> Some s)
         \<and> edge_state E3 b a = (case edge_state E2 b a of None \<Rightarrow> Some 1 | Some s \<Rightarrow> Some s)"
    if "ex" "a \<noteq> b"
  proof -
    have ab1: "edge_state (rows @ [v1]) a b
               = (case edge_state rows a b of None \<Rightarrow> Some 2 | Some s \<Rightarrow> Some s)" for rows
      using edge_state_snoc_same [of rows v1] by (simp only: k)
    have ba2: "edge_state (rows @ [v2]) b a
               = (case edge_state rows b a of None \<Rightarrow> Some 1 | Some s \<Rightarrow> Some s)" for rows
      using edge_state_snoc_same [of rows v2] by (simp only: k)
    have ba1: "edge_state (rows @ [v1]) b a = edge_state rows b a" for rows
      using that(2) by (intro edge_state_snoc_other) (simp add: k)
    have ab2: "edge_state (rows @ [v2]) a b = edge_state rows a b" for rows
      using that(2) by (intro edge_state_snoc_other) (simp add: k)
    show ?thesis
    proof (cases "edge_state E2 a b = None")
      case n1: True
      show ?thesis
      proof (cases "edge_state E2 b a = None")
        case True
        then have "E3 = (E2 @ [v1]) @ [v2]"
          unfolding assms(3) using that(1) n1 by (simp add: c1 c2 ba1)
        then show ?thesis
          using n1 True by (simp only: ab1 ab2 ba1 ba2 option.case simp_thms)
      next
        case False
        then have "E3 = E2 @ [v1]"
          unfolding assms(3) using that(1) n1 by (simp add: c1 c2 ba1)
        then show ?thesis
          using n1 False by (auto simp: ab1 ba1)
      qed
    next
      case n1: False
      show ?thesis
      proof (cases "edge_state E2 b a = None")
        case True
        then have "E3 = E2 @ [v2]"
          unfolding assms(3) using that(1) n1 by (simp add: c1 c2)
        then show ?thesis
          using n1 True by (auto simp: ab2 ba2)
      next
        case False
        then have "E3 = E2"
          unfolding assms(3) using that(1) n1 by (simp add: c1 c2)
        then show ?thesis
          using n1 False by auto
      qed
    qed
  qed
qed

subsection \<open>Each call keeps the pairing\<close>

lemma pair_delete:
  assumes u: "unique_edges E" and i: "symmetry_or_blocks E p q"
  shows "unique_edges (filter (\<lambda>e. \<not> edge_between a b e) E)"
    and "symmetry_or_blocks (filter (\<lambda>e. \<not> edge_between a b e) E) p q"
proof -
  show "unique_edges (filter (\<lambda>e. \<not> edge_between a b e) E)"
    using u by (rule unique_edges_filter)
  show "symmetry_or_blocks (filter (\<lambda>e. \<not> edge_between a b e) E) p q"
  proof (rule pair_step [OF i, where a = a and b = b])
    show "edge_state (filter (\<lambda>e. \<not> edge_between a b e) E) x y = edge_state E x y"
      if "\<not> ((x = a \<and> y = b) \<or> (x = b \<and> y = a))" for x y
      using that
      by (auto simp: lookup_edge_filter [OF u] edge_state_def edge_between_def
          split: option.splits dest: lookup_edge_Some)
    show "symmetry_or_blocks (filter (\<lambda>e. \<not> edge_between a b e) E) a b"
      by (auto simp: symmetry_or_blocks_def lookup_edge_filter [OF u] edge_state_def edge_between_def Let_def
          split: option.splits dest: lookup_edge_Some)
  qed
qed

lemma pair_block:
  assumes u: "unique_edges E" and i: "symmetry_or_blocks E p q" and pq: "p \<noteq> q"
    and "E1 = (if \<exists>r \<in> set E. source_id r = a \<and> destination_id r = b
               then map (\<lambda>r. if source_id r = a \<and> destination_id r = b
                              then r\<lparr>state := 3, update_time := ts\<rparr> else r) E
               else E @ [\<lparr>source_id = a, destination_id = b, state = 3, position = ts, update_time = ts\<rparr>])"
  shows "unique_edges (filter (\<lambda>r. \<not> (source_id r = b \<and> destination_id r = a \<and> state r \<noteq> 3)) E1)"
    and "symmetry_or_blocks (filter (\<lambda>r. \<not> (source_id r = b \<and> destination_id r = a \<and> state r \<noteq> 3)) E1) p q"
proof -
  have u1: "unique_edges E1"
    unfolding assms(4) using u
    by (auto simp: unique_edges_map_upd edge_key_def unique_edges_snoc conflicts_def)
  show "unique_edges (filter (\<lambda>r. \<not> (source_id r = b \<and> destination_id r = a \<and> state r \<noteq> 3)) E1)"
    using u1 by (rule unique_edges_filter)
  have l1: "lookup_edge E1 x y =
      (if x = a \<and> y = b
       then (case lookup_edge E a b of
               Some r \<Rightarrow> Some (r\<lparr>state := 3, update_time := ts\<rparr>)
             | None \<Rightarrow> Some \<lparr>source_id = a, destination_id = b, state = 3, position = ts, update_time = ts\<rparr>)
       else lookup_edge E x y)" for x y
  proof (cases "\<exists>r \<in> set E. source_id r = a \<and> destination_id r = b")
    case True
    then have "lookup_edge E a b \<noteq> None"
      by (simp add: lookup_edge_None)
    with True show ?thesis
      unfolding assms(4)
      by (auto simp: lookup_edge_map_upd [of "\<lambda>r. r\<lparr>state := 3, update_time := ts\<rparr>"]
          split: option.splits dest: lookup_edge_Some)
  next
    case False
    then have "lookup_edge E a b = None"
      by (simp add: lookup_edge_None)
    with False show ?thesis
      unfolding assms(4)
      by (auto simp: lookup_edge_snoc split: option.splits dest: lookup_edge_Some)
  qed
  show "symmetry_or_blocks (filter (\<lambda>r. \<not> (source_id r = b \<and> destination_id r = a \<and> state r \<noteq> 3)) E1) p q"
  proof (rule pair_step [OF i, where a = a and b = b])
    show "edge_state (filter (\<lambda>r. \<not> (source_id r = b \<and> destination_id r = a \<and> state r \<noteq> 3)) E1) x y
          = edge_state E x y"
      if "\<not> ((x = a \<and> y = b) \<or> (x = b \<and> y = a))" for x y
      using that
      by (auto simp: lookup_edge_filter [OF u1] l1 edge_state_def
          split: option.splits dest: lookup_edge_Some)
    show "symmetry_or_blocks (filter (\<lambda>r. \<not> (source_id r = b \<and> destination_id r = a \<and> state r \<noteq> 3)) E1) a b"
      if "(p = a \<and> q = b) \<or> (p = b \<and> q = a)"
      using pair_local(1) [OF i pq that]
      by (auto simp: symmetry_or_blocks_def lookup_edge_filter [OF u1] edge_state_def l1 Let_def
          split: option.splits dest: lookup_edge_Some)
  qed
qed

lemma pair_add:
  assumes u: "unique_edges E" and i: "symmetry_or_blocks E p q" and pq: "p \<noteq> q"
    and nb: "(p = a \<and> q = b) \<or> (p = b \<and> q = a) \<Longrightarrow>
             \<not> (edge_state E a b = None \<and> edge_state E b a = Some 3)"
    and E1: "E1 = filter (\<lambda>r. \<not> (source_id r = a \<and> destination_id r = b \<and> state r = 3)) E"
    and E2: "E2 = map (\<lambda>r. if (source_id r = b \<and> destination_id r = a \<and> state r = 2)
                           \<or> (source_id r = a \<and> destination_id r = b \<and> state r = 1)
                         then r\<lparr>state := 0, update_time := ts\<rparr> else r) E1"
    and E3: "E3 = snd (insert_do_nothing
                  (if ex
                   then [\<lparr>source_id = a, destination_id = b, state = 2, position = ts, update_time = ts\<rparr>,
                         \<lparr>source_id = b, destination_id = a, state = 1, position = ts, update_time = ts\<rparr>]
                   else [])
                  E2)"
    and E': "E' = (if length (filter (\<lambda>r. source_id r = a \<and> destination_id r = b \<and> state r = 3) E) = 1
         then E1
         else if length (filter (\<lambda>r. (source_id r = b \<and> destination_id r = a \<and> state r = 2)
                                  \<or> (source_id r = a \<and> destination_id r = b \<and> state r = 1)) E1) = 2
         then E2
         else E3)"
  shows "unique_edges E'" and "symmetry_or_blocks E' p q"
proof -
  have u1: "unique_edges E1"
    unfolding E1 using u by (rule unique_edges_filter)
  have u2: "unique_edges E2"
    unfolding E2 using u1 by (simp add: unique_edges_map_upd edge_key_def)
  have u3: "unique_edges E3"
    unfolding E3 using u2 by (rule unique_edges_insert_do_nothing)
  have n1: "length (filter (\<lambda>r. source_id r = a \<and> destination_id r = b \<and> state r = 3) E)
            = (if edge_state E a b = Some 3 then 1 else 0)"
    by (auto simp: count_edge [OF u] edge_state_def split: option.splits)
  have s1: "edge_state E1 x y = (if x = a \<and> y = b \<and> edge_state E a b = Some 3 then None else edge_state E x y)"
    for x y
  proof (cases "lookup_edge E x y")
    case None
    then show ?thesis
      unfolding E1 by (auto simp: edge_state_def lookup_edge_filter [OF u])
  next
    case (Some r)
    from lookup_edge_Some [OF Some] Some show ?thesis
      unfolding E1 by (auto simp: edge_state_def lookup_edge_filter [OF u])
  qed
  have "length (filter (\<lambda>r. (source_id r = b \<and> destination_id r = a \<and> state r = 2)
                                  \<or> (source_id r = a \<and> destination_id r = b \<and> state r = 1)) E1)
        = length (filter (\<lambda>r. source_id r = b \<and> destination_id r = a \<and> state r = 2) E1)
        + length (filter (\<lambda>r. source_id r = a \<and> destination_id r = b \<and> state r = 1) E1)"
    by (rule length_filter_disj) auto
  then have n2: "length (filter (\<lambda>r. (source_id r = b \<and> destination_id r = a \<and> state r = 2)
                                  \<or> (source_id r = a \<and> destination_id r = b \<and> state r = 1)) E1)
        = (if edge_state E1 b a = Some 2 then 1 else 0) + (if edge_state E1 a b = Some 1 then 1 else 0)"
    by (auto simp: count_edge [OF u1] edge_state_def split: option.splits)
  have s2: "edge_state E2 x y =
       (if x = b \<and> y = a \<and> edge_state E1 b a = Some 2 then Some 0
        else if x = a \<and> y = b \<and> edge_state E1 a b = Some 1 then Some 0
        else edge_state E1 x y)" for x y
  proof (cases "lookup_edge E1 x y")
    case None
    then have "lookup_edge E2 x y = None"
      unfolding E2
      by (simp add: lookup_edge_map_upd [of "\<lambda>r. r\<lparr>state := 0, update_time := ts\<rparr>"])
    with None show ?thesis
      by (auto simp: edge_state_def)
  next
    case (Some r)
    let ?PA = "(source_id r = b \<and> destination_id r = a \<and> state r = 2)
             \<or> (source_id r = a \<and> destination_id r = b \<and> state r = 1)"
    have k: "source_id r = x" "destination_id r = y"
      using lookup_edge_Some [OF Some] by simp_all
    have "lookup_edge E2 x y = Some (if ?PA then r\<lparr>state := 0, update_time := ts\<rparr> else r)"
      unfolding E2
      by (simp only: lookup_edge_map_upd [of "\<lambda>r. r\<lparr>state := 0, update_time := ts\<rparr>", simplified] Some option.case)
    then have e2: "edge_state E2 x y = Some (if ?PA then 0 else state r)"
      by (simp add: edge_state_def)
    have e1: "edge_state E1 x y = Some (state r)"
      using Some by (simp add: edge_state_def)
    have e2': "edge_state E2 x y
        = Some (if (x = b \<and> y = a \<and> state r = 2) \<or> (x = a \<and> y = b \<and> state r = 1) then 0 else state r)"
      using e2 unfolding k .
    show ?thesis
    proof (cases "a = b")
      case True
      show ?thesis
      proof (cases "x = b \<and> y = b")
        case xy: True
        then have "edge_state E1 b b = Some (state r)"
          using e1 by simp
        then show ?thesis
          using xy e2' unfolding True by auto
      next
        case False
        then show ?thesis
          using e1 e2' unfolding True by auto
      qed
    next
      case ab: False
      show ?thesis
      proof (cases "x = b \<and> y = a")
        case True
        then have "edge_state E1 b a = Some (state r)"
          using e1 by simp
        then show ?thesis
          using True ab e2' by auto
      next
        case False
        note nba = this
        show ?thesis
        proof (cases "x = a \<and> y = b")
          case True
          then have "edge_state E1 a b = Some (state r)"
            using e1 by simp
          then show ?thesis
            using True ab e2' by auto
        next
          case False
          then show ?thesis
            using nba ab e1 e2' by auto
        qed
      qed
    qed
  qed
  note s3 = invite_rows [OF E3]
  show "unique_edges E'"
    unfolding E' using u1 u2 u3 by simp
  show "symmetry_or_blocks E' p q"
  proof (rule pair_step [OF i, where a = a and b = b])
    show "edge_state E' x y = edge_state E x y"
      if "\<not> ((x = a \<and> y = b) \<or> (x = b \<and> y = a))" for x y
    proof -
      from that have o: "(x \<noteq> a \<or> y \<noteq> b) \<and> (x \<noteq> b \<or> y \<noteq> a)"
        by blast
      have "edge_state E1 x y = edge_state E x y"
        using o by (simp add: s1) blast
      moreover have "edge_state E2 x y = edge_state E1 x y"
        using o by (simp add: s2) blast
      moreover have "edge_state E3 x y = edge_state E2 x y"
        using o by (rule s3(1))
      ultimately show ?thesis
        unfolding E' by simp
    qed
    show "symmetry_or_blocks E' a b" if loc: "(p = a \<and> q = b) \<or> (p = b \<and> q = a)"
    proof -
      note that = pair_local(1) [OF i pq loc]
      note i = pair_local(2) [OF i pq loc]
      note nb = nb [OF loc]
      have t1: "edge_state E1 a b = (if edge_state E a b = Some 3 then None else edge_state E a b)"
               "edge_state E1 b a = edge_state E b a"
        using that by (simp_all add: s1)
      have t2: "edge_state E2 a b = (if edge_state E1 a b = Some 1 then Some 0 else edge_state E1 a b)"
               "edge_state E2 b a = (if edge_state E1 b a = Some 2 then Some 0 else edge_state E1 b a)"
        using that by (simp_all add: s2)
      show ?thesis
      proof (cases ex)
        case True
        note t3 = s3(3) [OF True that]
        from i nb show ?thesis
          unfolding E' n1 n2 
          by (auto simp: symmetry_or_blocks_def consistent_pair_def Let_def t1 t2 t3 split: if_splits)
      next
        case False
        note t3 = s3(2) [OF False]
        from i nb show ?thesis
          unfolding E' n1 n2
          by (auto simp: symmetry_or_blocks_def consistent_pair_def Let_def t1 t2 t3 split: if_splits)
      qed
    qed
  qed
qed

lemma step_pair:
  assumes u: "unique_edges (user_edge d)" and i: "symmetry_or_blocks (user_edge d) p q"
    and pq: "p \<noteq> q" and nb: "\<not> blocked_add_between p q d r"
  shows "unique_edges (user_edge (step d r)) \<and> symmetry_or_blocks (user_edge (step d r)) p q"
proof -
  obtain h ts c where r: "r = (h, ts, c)"
    by (metis prod_cases3)
  show ?thesis
  proof (cases c)
    case (AddFriend a b)
    have nb': "\<not> (edge_state (user_edge d) a b = None \<and> edge_state (user_edge d) b a = Some 3)"
      if "(p = a \<and> q = b) \<or> (p = b \<and> q = a)"
      using nb that unfolding r AddFriend by auto
    have "unique_edges (user_edge (store (snd (snd (addFriend \<lparr>store = d, health = None\<rparr> a b ts)))))
        \<and> symmetry_or_blocks (user_edge (store (snd (snd (addFriend \<lparr>store = d, health = None\<rparr> a b ts))))) p q"
      unfolding addFriend_edges Let_def
      by (rule conjI) (rule pair_add [OF u i pq nb' refl refl refl refl], assumption)+
    with step_add [of d h ts a b] u i show ?thesis
      unfolding r AddFriend by auto
  next
    case (DeleteFriend a b)
    with step_delete [of d h ts a b] pair_delete [OF u i, of a b] u i show ?thesis
      unfolding r by auto
  next
    case (BlockFriend a b)
    with step_block [OF u, of h ts a b] pair_block [OF u i pq refl, of b a ts] u i show ?thesis
      unfolding r by auto
  qed
qed

lemma run_pair:
  "unique_edges (user_edge d) \<Longrightarrow> symmetry_or_blocks (user_edge d) p q \<Longrightarrow> p \<noteq> q \<Longrightarrow>
   avoids_blocked_add_between p q d rs \<Longrightarrow>
   unique_edges (user_edge (run d rs)) \<and> symmetry_or_blocks (user_edge (run d rs)) p q"
proof (induction rs arbitrary: d)
  case Nil
  then show ?case by simp
next
  case (Cons r rs)
  from Cons.prems have n: "\<not> blocked_add_between p q d r"
      and a: "avoids_blocked_add_between p q (step d r) rs"
    by simp_all
  from step_pair [OF Cons.prems(1) Cons.prems(2) Cons.prems(3) n]
  have "unique_edges (user_edge (step d r))" "symmetry_or_blocks (user_edge (step d r)) p q"
    by simp_all
  from Cons.IH [OF this Cons.prems(3) a] show ?case
    by simp
qed

lemma symmetry_empty: "unique_edges [] \<and> symmetry_or_blocks [] p q"
  by (simp add: unique_edges_def symmetry_or_blocks_def edge_state_def lookup_edge_def)

lemma symmetry_of_pair:
  assumes "user_edge d = []" and "avoids_blocked_add_between a b d reqs" and "a \<noteq> b"
  shows "symmetry_or_blocks (user_edge (run d reqs)) a b"
proof -
  have "unique_edges (user_edge d)" "symmetry_or_blocks (user_edge d) a b"
    using assms(1) symmetry_empty [of a b] by simp_all
  from run_pair [OF this assms(3) assms(2)] show ?thesis
    by simp
qed

text \<open>
  C2, as the code has it. Take two different users \<open>a\<close> and \<open>b\<close>, start from an empty
  \<^verbatim>\<open>user_edge\<close> and run any sequence of \<^verbatim>\<open>AddFriend\<close>, \<^verbatim>\<open>DeleteFriend\<close> and
  \<^verbatim>\<open>BlockFriend\<close> requests between any users, each a batch of its own, on a store that
  may fail, in which neither of \<open>a\<close> and \<open>b\<close> adds the other while the other's edge to
  the adder is \<open>Blocked\<close> and the adder has no edge to the other. Then either both edges
  between \<open>a\<close> and \<open>b\<close> exist in a consistent paired state (both \<open>Accepted\<close>, or one
  \<open>OutgoingRequest\<close> and one \<open>Invited\<close>), or every edge there is between them is
  \<open>Blocked\<close>: none, one, or the two independent edges of a mutual block. What the
  requests between other users meet, a block included, does not matter.
\<close>

theorem symmetry_after_requests:
  assumes "user_edge d = []" and "avoids_blocked_add_between a b d reqs" and "a \<noteq> b"
  shows "symmetry_or_blocks (user_edge (run d reqs)) a b"
  using symmetry_of_pair [OF assms] .

theorem symmetry_after_requests_witness:
  "avoids_blocked_add_between 1 2
     \<lparr>users = [\<lparr>users_id = 1, edge_count = 0, users_update_time = 0\<rparr>,
               \<lparr>users_id = 2, edge_count = 0, users_update_time = 0\<rparr>,
               \<lparr>users_id = 3, edge_count = 0, users_update_time = 0\<rparr>,
               \<lparr>users_id = 4, edge_count = 0, users_update_time = 0\<rparr>],
      user_edge = []\<rparr>
     [(None, 1, BlockFriend 4 3), (None, 2, AddFriend 3 4),
      (None, 3, AddFriend 1 2), (None, 4, AddFriend 2 1), (Some 1, 5, DeleteFriend 1 2),
      (None, 6, BlockFriend 1 2), (None, 7, BlockFriend 2 1)]
   \<and> blocked_add_between 3 4
       (step \<lparr>users = [\<lparr>users_id = 1, edge_count = 0, users_update_time = 0\<rparr>,
               \<lparr>users_id = 2, edge_count = 0, users_update_time = 0\<rparr>,
               \<lparr>users_id = 3, edge_count = 0, users_update_time = 0\<rparr>,
               \<lparr>users_id = 4, edge_count = 0, users_update_time = 0\<rparr>],
      user_edge = []\<rparr> (None, 1, BlockFriend 4 3))
       (None, 2, AddFriend 3 4)
   \<and> symmetry_or_blocks
       (user_edge (run
         \<lparr>users = [\<lparr>users_id = 1, edge_count = 0, users_update_time = 0\<rparr>,
               \<lparr>users_id = 2, edge_count = 0, users_update_time = 0\<rparr>,
               \<lparr>users_id = 3, edge_count = 0, users_update_time = 0\<rparr>,
               \<lparr>users_id = 4, edge_count = 0, users_update_time = 0\<rparr>],
      user_edge = []\<rparr>
         [(None, 1, BlockFriend 4 3), (None, 2, AddFriend 3 4),
      (None, 3, AddFriend 1 2), (None, 4, AddFriend 2 1), (Some 1, 5, DeleteFriend 1 2),
      (None, 6, BlockFriend 1 2), (None, 7, BlockFriend 2 1)])) 1 2
   \<and> user_edge (run
         \<lparr>users = [\<lparr>users_id = 1, edge_count = 0, users_update_time = 0\<rparr>,
               \<lparr>users_id = 2, edge_count = 0, users_update_time = 0\<rparr>,
               \<lparr>users_id = 3, edge_count = 0, users_update_time = 0\<rparr>,
               \<lparr>users_id = 4, edge_count = 0, users_update_time = 0\<rparr>],
      user_edge = []\<rparr>
         [(None, 1, BlockFriend 4 3), (None, 2, AddFriend 3 4),
      (None, 3, AddFriend 1 2), (None, 4, AddFriend 2 1), (Some 1, 5, DeleteFriend 1 2),
      (None, 6, BlockFriend 1 2), (None, 7, BlockFriend 2 1)])
       = [\<lparr>source_id = 4, destination_id = 3, state = Blocked, position = 1, update_time = 1\<rparr>,
          \<lparr>source_id = 3, destination_id = 4, state = OutgoingRequest, position = 2, update_time = 2\<rparr>,
          \<lparr>source_id = 1, destination_id = 2, state = Blocked, position = 3, update_time = 6\<rparr>,
          \<lparr>source_id = 2, destination_id = 1, state = Blocked, position = 7, update_time = 7\<rparr>]"
proof -
  let ?d = "\<lparr>users = [\<lparr>users_id = 1, edge_count = 0, users_update_time = 0\<rparr>,
               \<lparr>users_id = 2, edge_count = 0, users_update_time = 0\<rparr>,
               \<lparr>users_id = 3, edge_count = 0, users_update_time = 0\<rparr>,
               \<lparr>users_id = 4, edge_count = 0, users_update_time = 0\<rparr>],
      user_edge = []\<rparr>"
  let ?rs = "[(None, 1, BlockFriend 4 3), (None, 2, AddFriend 3 4),
      (None, 3, AddFriend 1 2), (None, 4, AddFriend 2 1), (Some 1, 5, DeleteFriend 1 2),
      (None, 6, BlockFriend 1 2), (None, 7, BlockFriend 2 1)]"
  have h: "user_edge ?d = []" "avoids_blocked_add_between 1 2 ?d ?rs" "(1 :: nat) \<noteq> 2"
    by (simp_all add: engine_defs stmt_defs Let_def edge_state_def lookup_edge_def)
  have b: "blocked_add_between 3 4 (step ?d (None, 1, BlockFriend 4 3)) (None, 2, AddFriend 3 4)"
    by (simp add: engine_defs stmt_defs Let_def edge_state_def lookup_edge_def)
  have e: "user_edge (run ?d ?rs)
       = [\<lparr>source_id = 4, destination_id = 3, state = Blocked, position = 1, update_time = 1\<rparr>,
          \<lparr>source_id = 3, destination_id = 4, state = OutgoingRequest, position = 2, update_time = 2\<rparr>,
          \<lparr>source_id = 1, destination_id = 2, state = Blocked, position = 3, update_time = 6\<rparr>,
          \<lparr>source_id = 2, destination_id = 1, state = Blocked, position = 7, update_time = 7\<rparr>]"
    by (simp add: engine_defs stmt_defs Let_def)
  from symmetry_after_requests [OF h] h(2) b e show ?thesis
    by (simp only: simp_thms)
qed

text \<open>
  The claim as worded leaves no place for the mutual block: after \<open>1\<close> blocks \<open>2\<close> and
  \<open>2\<close> blocks \<open>1\<close>, starting from no edges, both edges exist and both are
  \<open>Blocked\<close>.
\<close>

theorem mutual_block_counterexample:
  "run \<lparr>users = [\<lparr>users_id = 1, edge_count = 0, users_update_time = 0\<rparr>,
                 \<lparr>users_id = 2, edge_count = 0, users_update_time = 0\<rparr>],
        user_edge = []\<rparr>
       [(None, 1, BlockFriend 1 2), (None, 2, BlockFriend 2 1)]
     = \<lparr>users = [\<lparr>users_id = 1, edge_count = 1, users_update_time = 1\<rparr>,
                 \<lparr>users_id = 2, edge_count = 1, users_update_time = 2\<rparr>],
        user_edge = [\<lparr>source_id = 1, destination_id = 2, state = Blocked, position = 1, update_time = 1\<rparr>,
                     \<lparr>source_id = 2, destination_id = 1, state = Blocked, position = 2, update_time = 2\<rparr>]\<rparr>
   \<and> \<not> symmetry_claimed
         (user_edge (run \<lparr>users = [\<lparr>users_id = 1, edge_count = 0, users_update_time = 0\<rparr>,
                                   \<lparr>users_id = 2, edge_count = 0, users_update_time = 0\<rparr>],
                          user_edge = []\<rparr>
                         [(None, 1, BlockFriend 1 2), (None, 2, BlockFriend 2 1)])) 1 2"
  by (simp add: engine_defs stmt_defs Let_def symmetry_claimed_def consistent_pair_def
      edge_state_def lookup_edge_def)

subsection \<open>The add that meets a block\<close>

text \<open>
  C4 fails. User 1 has invited user 2, and 2 blocks 1: the row of 2 becomes
  \<open>Blocked\<close> and the row of 1 is deleted. When 1 adds 2 again, the insert skips the row
  of 2, which conflicts, and inserts the row of 1: an \<open>OutgoingRequest\<close> from 1 to 2
  stands beside the \<open>Blocked\<close> row of 2, and no count has moved.
\<close>

theorem addFriend_after_block_inserts_invite:
  "BlockFriends None
     \<lparr>users = [\<lparr>users_id = 1, edge_count = 1, users_update_time = 1\<rparr>,
               \<lparr>users_id = 2, edge_count = 1, users_update_time = 1\<rparr>],
      user_edge = [\<lparr>source_id = 1, destination_id = 2, state = OutgoingRequest,
                    position = 1, update_time = 1\<rparr>,
                   \<lparr>source_id = 2, destination_id = 1, state = Invited,
                    position = 1, update_time = 1\<rparr>]\<rparr> 2 2 [1]
   = (None,
      \<lparr>users = [\<lparr>users_id = 1, edge_count = 0, users_update_time = 2\<rparr>,
                \<lparr>users_id = 2, edge_count = 1, users_update_time = 1\<rparr>],
       user_edge = [\<lparr>source_id = 2, destination_id = 1, state = Blocked,
                     position = 1, update_time = 2\<rparr>]\<rparr>)
 \<and> AddFriends None
      \<lparr>users = [\<lparr>users_id = 1, edge_count = 0, users_update_time = 2\<rparr>,
                \<lparr>users_id = 2, edge_count = 1, users_update_time = 1\<rparr>],
       user_edge = [\<lparr>source_id = 2, destination_id = 1, state = Blocked,
                     position = 1, update_time = 2\<rparr>]\<rparr> 1 3 [2]
   = (None,
      \<lparr>users = [\<lparr>users_id = 1, edge_count = 0, users_update_time = 2\<rparr>,
                \<lparr>users_id = 2, edge_count = 1, users_update_time = 1\<rparr>],
       user_edge = [\<lparr>source_id = 2, destination_id = 1, state = Blocked,
                     position = 1, update_time = 2\<rparr>,
                    \<lparr>source_id = 1, destination_id = 2, state = OutgoingRequest,
                     position = 3, update_time = 3\<rparr>]\<rparr>,
      Map.empty)"
  by (simp add: engine_defs stmt_defs Let_def)

section \<open>Counts\<close>

text \<open>
  \<^verbatim>\<open>deleteFriend\<close> and \<^verbatim>\<open>blockFriend\<close> keep the counts consistent: on unique keys, a
  call that returns no error, on a store that may fail, leaves every \<^verbatim>\<open>edge_count\<close>
  equal to the number of rows of its user. \<^verbatim>\<open>addFriend\<close> does not.
\<close>

lemma length_filter_split:
  "length (filter P xs) = length (filter (\<lambda>x. P x \<and> Q x) xs) + length (filter (\<lambda>x. P x \<and> \<not> Q x) xs)"
  by (induction xs) auto

lemma count_after_delete:
  "length (filter (\<lambda>e. source_id e = i) (filter (\<lambda>e. \<not> Q e) rows))
   = length (filter (\<lambda>e. source_id e = i) rows) - length (filter (\<lambda>e. source_id e = i \<and> Q e) rows)"
  using length_filter_split [of "\<lambda>e. source_id e = i" rows Q] by (simp add: conj_commute)

lemma count_after_update:
  assumes "\<And>r. source_id (f r) = source_id r"
  shows "length (filter (\<lambda>e. source_id e = i) (map (\<lambda>r. if P r then f r else r) rows))
         = length (filter (\<lambda>e. source_id e = i) rows)"
  using assms by (induction rows) auto

lemma count_opposite:
  assumes "unique_edges rows"
  shows "length (filter (\<lambda>e. source_id e = i \<and> (source_id e = b \<and> destination_id e = a \<and> Q e)) rows)
         = (if i = b \<and> (\<exists>r \<in> set rows. source_id r = b \<and> destination_id r = a \<and> Q r) then 1 else 0)"
proof (cases "i = b")
  case True
  have "length (filter (\<lambda>e. source_id e = b \<and> (source_id e = b \<and> destination_id e = a \<and> Q e)) rows)
        = length (filter (\<lambda>e. source_id e = b \<and> destination_id e = a \<and> Q e) rows)"
    by (rule arg_cong [where f = length], rule filter_cong) auto
  then show ?thesis
    using ex_edge_count [OF assms, of b a Q] count_edge [OF assms, of b a Q] True
    by (auto split: option.splits)
next
  case False
  then have "filter (\<lambda>e. source_id e = i \<and> (source_id e = b \<and> destination_id e = a \<and> Q e)) rows = []"
    by (auto simp: filter_empty_conv)
  with False show ?thesis by simp
qed

lemma count_after_delete_int:
  "int (length (filter (\<lambda>e. source_id e = i) (filter (\<lambda>e. \<not> Q e) rows)))
   = int (length (filter (\<lambda>e. source_id e = i) rows))
     - int (length (filter (\<lambda>e. source_id e = i \<and> Q e) rows))"
  using length_filter_split [of "\<lambda>e. source_id e = i" rows Q] by (simp add: conj_commute)

lemma opposite_keeps_counts:
  assumes u: "unique_edges (user_edge d1)" and c: "count_consistent d1"
  shows "count_consistent
           (d1\<lparr>user_edge := filter (\<lambda>r. \<not> (source_id r = b \<and> destination_id r = a \<and> state r \<noteq> 3))
                              (user_edge d1),
               users := (if \<exists>r \<in> set (user_edge d1).
                               source_id r = b \<and> destination_id r = a \<and> state r \<noteq> 3
                         then map (\<lambda>u. if users_id u = b
                                       then u\<lparr>edge_count := edge_count u - 1, users_update_time := ts\<rparr>
                                       else u) (users d1)
                         else users d1)\<rparr>)"
proof -
  let ?opp = "\<lambda>r. source_id r = b \<and> destination_id r = a \<and> state r \<noteq> 3"
  define E' where "E' = filter (\<lambda>r. \<not> ?opp r) (user_edge d1)"
  have n: "int (length (filter (\<lambda>e. source_id e = i) E'))
           = int (length (filter (\<lambda>e. source_id e = i) (user_edge d1)))
             - (if i = b \<and> (\<exists>r \<in> set (user_edge d1). ?opp r) then 1 else 0)" for i
    unfolding E'_def count_after_delete_int count_opposite [OF u, of i b a "\<lambda>r. state r \<noteq> 3"]
    by auto
  have old: "edge_count x = int (length (filter (\<lambda>e. source_id e = users_id x) (user_edge d1)))"
    if "x \<in> set (users d1)" for x
    using c that by (simp add: count_consistent_def)
  have "count_consistent
           (d1\<lparr>user_edge := E',
               users := (if \<exists>r \<in> set (user_edge d1). ?opp r
                         then map (\<lambda>u. if users_id u = b
                                       then u\<lparr>edge_count := edge_count u - 1, users_update_time := ts\<rparr>
                                       else u) (users d1)
                         else users d1)\<rparr>)"
  proof (cases "\<exists>r \<in> set (user_edge d1). ?opp r")
    case True
    then show ?thesis
      unfolding count_consistent_def by (auto simp: n old simp del: bex_simps)
  next
    case False
    then show ?thesis
      unfolding count_consistent_def by (auto simp: n old simp del: bex_simps)
  qed
  then show ?thesis
    unfolding E'_def .
qed

lemma blockFriend_keeps_counts:
  assumes u: "unique_edges (user_edge d)" and c: "count_consistent d"
    and r: "blockFriend \<lparr>store = d, health = h\<rparr> a b ts = (None, t')"
  shows "count_consistent (store t')"
proof -
  have old: "edge_count x = int (length (filter (\<lambda>e. source_id e = users_id x) (user_edge d)))"
    if "x \<in> set (users d)" for x
    using c that by (simp add: count_consistent_def)
  from blockFriend_health [OF r] have hr:
    "blockFriend \<lparr>store = d, health = None\<rparr> a b ts = (None, t'\<lparr>health := None\<rparr>)"
    by simp
  show ?thesis
  proof (cases "\<exists>r \<in> set (user_edge d). source_id r = a \<and> destination_id r = b")
    case True
    define E1 where "E1 = map (\<lambda>r. if source_id r = a \<and> destination_id r = b
                                     then r\<lparr>state := 3, update_time := ts\<rparr> else r) (user_edge d)"
    define d1 where "d1 = d\<lparr>user_edge := E1\<rparr>"
    have cnt: "length (filter (\<lambda>e. source_id e = i) E1)
               = length (filter (\<lambda>e. source_id e = i) (user_edge d))" for i
      unfolding E1_def by (rule count_after_update) simp
    have u1: "unique_edges (user_edge d1)"
      using u by (simp add: d1_def E1_def unique_edges_map_upd edge_key_def)
    have c1: "count_consistent d1"
      unfolding count_consistent_def d1_def by (simp add: old cnt)
    from blockFriend_healthy [OF u, of a b ts] True hr
    have "store t' = d1\<lparr>user_edge := filter (\<lambda>r. \<not> (source_id r = b \<and> destination_id r = a \<and> state r \<noteq> 3))
                              (user_edge d1),
               users := (if \<exists>r \<in> set (user_edge d1).
                               source_id r = b \<and> destination_id r = a \<and> state r \<noteq> 3
                         then map (\<lambda>u. if users_id u = b
                                       then u\<lparr>edge_count := edge_count u - 1, users_update_time := ts\<rparr>
                                       else u) (users d1)
                         else users d1)\<rparr>"
      unfolding Let_def d1_def E1_def
      by (cases t') (simp del: bex_simps set_map set_filter)
    then show ?thesis
      using opposite_keeps_counts [OF u1 c1, of b a ts] by simp
  next
    case own: False
    show ?thesis
    proof (cases "user_exists d b")
      case True
      define d1 where "d1 = d\<lparr>user_edge := user_edge d @
                                [\<lparr>source_id = a, destination_id = b, state = 3,
                                   position = ts, update_time = ts\<rparr>],
                              users := map (\<lambda>u. if users_id u = a
                                                then u\<lparr>edge_count := edge_count u + 1,
                                                       users_update_time := ts\<rparr>
                                                else u) (users d)\<rparr>"
      have u1: "unique_edges (user_edge d1)"
        using u own by (auto simp: d1_def unique_edges_snoc conflicts_def edge_key_def)
      have c1: "count_consistent d1"
        unfolding count_consistent_def d1_def
        by (auto simp: old)
      from blockFriend_healthy [OF u, of a b ts] own True hr
      have "store t' = d1\<lparr>user_edge := filter (\<lambda>r. \<not> (source_id r = b \<and> destination_id r = a \<and> state r \<noteq> 3))
                              (user_edge d1),
               users := (if \<exists>r \<in> set (user_edge d1).
                               source_id r = b \<and> destination_id r = a \<and> state r \<noteq> 3
                         then map (\<lambda>u. if users_id u = b
                                       then u\<lparr>edge_count := edge_count u - 1, users_update_time := ts\<rparr>
                                       else u) (users d1)
                         else users d1)\<rparr>"
        unfolding Let_def d1_def [symmetric]
        by (cases t') (simp del: bex_simps set_append set_filter)
      then show ?thesis
        using opposite_keeps_counts [OF u1 c1, of b a ts] by simp
    next
      case False
      from blockFriend_healthy [OF u, of a b ts] own False hr
      have "store t' = d"
        unfolding Let_def by (cases t') (simp del: bex_simps)
      then show ?thesis
        using c by simp
    qed
  qed
qed

lemma count_key_only:
  assumes "unique_edges rows"
  shows "length (filter (\<lambda>e. source_id e = p \<and> destination_id e = q) rows) \<le> 1"
  using count_edge [OF assms, of p q "\<lambda>_. True"] by (simp split: option.splits)

lemma count_src_key:
  "length (filter (\<lambda>e. source_id e = i \<and> source_id e = p \<and> destination_id e = q) rows)
   = (if i = p then length (filter (\<lambda>e. source_id e = p \<and> destination_id e = q) rows) else 0)"
proof (cases "i = p")
  case True
  have "filter (\<lambda>e. source_id e = p \<and> source_id e = p \<and> destination_id e = q) rows
        = filter (\<lambda>e. source_id e = p \<and> destination_id e = q) rows"
    by (rule filter_cong) auto
  with True show ?thesis by simp
next
  case False
  then have "filter (\<lambda>e. source_id e = i \<and> source_id e = p \<and> destination_id e = q) rows = []"
    by (auto simp: filter_empty_conv)
  with False show ?thesis by simp
qed

lemma count_between:
  assumes u: "unique_edges rows" and n: "length (filter (edge_between a b) rows) = 2"
  shows "a \<noteq> b"
    and "length (filter (\<lambda>e. source_id e = i \<and> edge_between a b e) rows)
         = (if i = a then 1 else 0) + (if i = b then 1 else 0)"
proof -
  let ?ab = "\<lambda>e. source_id e = a \<and> destination_id e = b"
  let ?ba = "\<lambda>e. source_id e = b \<and> destination_id e = a"
  have b: "edge_between a b = (\<lambda>e. ?ab e \<or> ?ba e)"
    by (rule ext) (simp add: edge_between_def)
  show ab: "a \<noteq> b"
  proof
    assume "a = b"
    then have "edge_between a b = (\<lambda>e. source_id e = a \<and> destination_id e = a)"
      by (auto simp: edge_between_def)
    with n count_key_only [OF u, of a a] show False
      by simp
  qed
  have "length (filter (\<lambda>e. ?ab e \<or> ?ba e) rows) = length (filter ?ab rows) + length (filter ?ba rows)"
    using ab by (intro length_filter_disj) auto
  with n count_key_only [OF u, of a b] count_key_only [OF u, of b a]
  have one: "length (filter ?ab rows) = 1" "length (filter ?ba rows) = 1"
    unfolding b by linarith+
  have "filter (\<lambda>e. source_id e = i \<and> edge_between a b e) rows
        = filter (\<lambda>e. (source_id e = i \<and> ?ab e) \<or> (source_id e = i \<and> ?ba e)) rows"
    unfolding b by (rule filter_cong) auto
  moreover have "length (filter (\<lambda>e. (source_id e = i \<and> ?ab e) \<or> (source_id e = i \<and> ?ba e)) rows)
        = length (filter (\<lambda>e. source_id e = i \<and> ?ab e) rows)
        + length (filter (\<lambda>e. source_id e = i \<and> ?ba e) rows)"
    using ab by (intro length_filter_disj) auto
  ultimately show "length (filter (\<lambda>e. source_id e = i \<and> edge_between a b e) rows)
         = (if i = a then 1 else 0) + (if i = b then 1 else 0)"
    by (simp only: count_src_key one)
qed

lemma deleteFriend_keeps_counts:
  assumes u: "unique_edges (user_edge d)" and c: "count_consistent d"
    and r: "deleteFriend \<lparr>store = d, health = h\<rparr> a b ts = (None, t')"
  shows "count_consistent (store t')"
proof -
  define n where "n = length (filter (edge_between a b) (user_edge d))"
  define E1 where "E1 = filter (\<lambda>e. \<not> edge_between a b e) (user_edge d)"
  have old: "edge_count x = int (length (filter (\<lambda>e. source_id e = users_id x) (user_edge d)))"
    if "x \<in> set (users d)" for x
    using c that by (simp add: count_consistent_def)
  from deleteFriend_health [OF r] have hr:
    "deleteFriend \<lparr>store = d, health = None\<rparr> a b ts = (None, t'\<lparr>health := None\<rparr>)"
    by simp
  have b: "edge_between a b = (\<lambda>e. (source_id e = a \<and> destination_id e = b)
                        \<or> (source_id e = b \<and> destination_id e = a))"
    by (rule ext) (simp add: edge_between_def)
  have q: "q_delete_pair a b d = Some (n, d\<lparr>user_edge := E1\<rparr>)"
    unfolding q_delete_pair_def delete_user_edge_def b n_def E1_def by (rule refl)
  show ?thesis
  proof (cases "n = 0")
    case True
    then have "\<forall>e \<in> set (user_edge d). \<not> edge_between a b e"
      by (simp add: n_def filter_empty_conv)
    then have "E1 = user_edge d"
      by (simp add: E1_def)
    with True hr have "store t' = d"
      by (cases t') (simp add: deleteFriend_def Exec_healthy q)
    with c show ?thesis by simp
  next
    case False
    with hr have n2: "n = 2"
      by (simp add: deleteFriend_def Exec_healthy q split: if_splits)
    note cb = count_between [OF u n2 [unfolded n_def]]
    have cnt: "int (length (filter (\<lambda>e. source_id e = i) E1))
               = int (length (filter (\<lambda>e. source_id e = i) (user_edge d)))
                 - (if i = a \<or> i = b then 1 else 0)" for i
      unfolding E1_def count_after_delete_int cb(2) using cb(1) by auto
    from n2 hr have "store t' = d\<lparr>user_edge := E1,
         users := map (\<lambda>u. if users_id u = a \<or> users_id u = b
                             then u\<lparr>edge_count := edge_count u - 1, users_update_time := ts\<rparr>
                             else u) (users d)\<rparr>"
      by (cases t') (simp add: deleteFriend_def Exec_healthy q q_count_down_pair_def update_users_def)
    then show ?thesis
      unfolding count_consistent_def by (auto simp: cnt old)
  qed
qed

lemma addFriend_breaks_counts:
  "count_consistent \<lparr>users = [\<lparr>users_id = 1, edge_count = 0, users_update_time = 0\<rparr>],
                     user_edge = []\<rparr>
   \<and> \<not> count_consistent
         (fst (snd (AddFriends None \<lparr>users = [\<lparr>users_id = 1, edge_count = 0, users_update_time = 0\<rparr>],
                                     user_edge = []\<rparr> 1 5 [2])))"
  by (simp add: count_consistent_def engine_defs stmt_defs Let_def)

text \<open>
  C1 fails on \<^verbatim>\<open>addFriend\<close>. The statement that raises the counts asks only that no
  row between the two users has another \<^verbatim>\<open>position\<close>; it does not ask that a row was
  inserted. Adding an id that is not a user inserts nothing and still raises the actor's
  \<^verbatim>\<open>edge_count\<close>; naming the same id twice in one batch, under one timestamp, raises
  both counts twice for one pair of rows. Both batches commit.
\<close>

theorem addFriend_count_drift:
  "AddFriends None \<lparr>users = [\<lparr>users_id = 1, edge_count = 0, users_update_time = 0\<rparr>],
                    user_edge = []\<rparr> 1 5 [2]
     = (None, \<lparr>users = [\<lparr>users_id = 1, edge_count = 1, users_update_time = 5\<rparr>],
               user_edge = []\<rparr>, Map.empty)
   \<and> AddFriends None \<lparr>users = [\<lparr>users_id = 1, edge_count = 0, users_update_time = 0\<rparr>,
                              \<lparr>users_id = 2, edge_count = 0, users_update_time = 0\<rparr>],
                      user_edge = []\<rparr> 1 5 [2, 2]
     = (None, \<lparr>users = [\<lparr>users_id = 1, edge_count = 2, users_update_time = 5\<rparr>,
                        \<lparr>users_id = 2, edge_count = 2, users_update_time = 5\<rparr>],
               user_edge = [\<lparr>source_id = 1, destination_id = 2, state = OutgoingRequest,
                             position = 5, update_time = 5\<rparr>,
                            \<lparr>source_id = 2, destination_id = 1, state = Invited,
                             position = 5, update_time = 5\<rparr>]\<rparr>,
        [2 \<mapsto> False])"
  by (simp add: engine_defs stmt_defs Let_def)

end
